(* ===== verification/Prelude.thy ===== *)
theory Prelude
  imports Main "HOL-Library.Word" "HOL-Library.Sublist"
begin

text \<open>
  Shared vocabulary of the development.  It fixes how the Rust source is read:
  fallible functions return a three-valued \<open>result\<close> whose third value records
  a panic (an \<open>unwrap\<close>, an \<open>expect\<close>, an index out of range); the \<open>?\<close> operator is
  \<open>and_then\<close>; loops over slices are the combinators \<open>for_each\<close>, \<open>try_map\<close> and
  \<open>try_fold\<close>; machine integers are words, so that release-mode arithmetic
  wraps; byte vectors are lists of 8-bit words and strings are their UTF-8
  bytes.  The lemmas about these notions are collected in \<open>result_simps\<close> and
  \<open>bytes_simps\<close>, which the component theories hand to the simplifier.
\<close>

section \<open>Machine types\<close>

type_synonym u8 = "8 word"
type_synonym i32 = "32 word"
type_synonym u32 = "32 word"
type_synonym u64 = "64 word"
type_synonym i64 = "64 word"
type_synonym bytes = "8 word list"

named_theorems result_simps "how the result combinators evaluate and when they return Ok"
named_theorems bytes_simps "byte encodings, their lengths and their round trips"

section \<open>Results\<close>

datatype ('a, 'e) result = Ok 'a | Err 'e | Panic string

text \<open>The \<open>?\<close> operator (\<open>Result::and_then\<close>): an error or a panic leaves the function.\<close>

primrec and_then :: "('a, 'e) result \<Rightarrow> ('a \<Rightarrow> ('b, 'e) result) \<Rightarrow> ('b, 'e) result" where
  "and_then (Ok x) f = f x"
| "and_then (Err e) f = Err e"
| "and_then (Panic m) f = Panic m"

primrec map_err :: "('e \<Rightarrow> 'f) \<Rightarrow> ('a, 'e) result \<Rightarrow> ('a, 'f) result" where
  "map_err g (Ok x) = Ok x"
| "map_err g (Err e) = Err (g e)"
| "map_err g (Panic m) = Panic m"

primrec ok_or :: "'a option \<Rightarrow> 'e \<Rightarrow> ('a, 'e) result" where
  "ok_or None e = Err e"
| "ok_or (Some x) e = Ok x"

text \<open>\<open>Result::expect\<close> and \<open>Result::unwrap\<close>: an error becomes a panic.\<close>

primrec expect :: "string \<Rightarrow> ('a, 'e) result \<Rightarrow> ('a, 'f) result" where
  "expect m (Ok x) = Ok x"
| "expect m (Err e) = Panic m"
| "expect m (Panic n) = Panic n"

text \<open>\<open>Result::ok\<close> followed by a use of the option: the error is dropped, a panic is not.\<close>

primrec ok :: "('a, 'e) result \<Rightarrow> ('a option, 'f) result" where
  "ok (Ok x) = Ok (Some x)"
| "ok (Err e) = Ok None"
| "ok (Panic m) = Panic m"

primrec is_ok :: "('a, 'e) result \<Rightarrow> bool" where
  "is_ok (Ok x) = True"
| "is_ok (Err e) = False"
| "is_ok (Panic m) = False"

primrec is_panic :: "('a, 'e) result \<Rightarrow> bool" where
  "is_panic (Ok x) = False"
| "is_panic (Err e) = False"
| "is_panic (Panic m) = True"

text \<open>Loops: a body run for each element, a collected map, a loop with an accumulator.\<close>

fun for_each :: "('a \<Rightarrow> (unit, 'e) result) \<Rightarrow> 'a list \<Rightarrow> (unit, 'e) result" where
  "for_each f [] = Ok ()"
| "for_each f (x # xs) = and_then (f x) (\<lambda>_. for_each f xs)"

fun try_map :: "('a \<Rightarrow> ('b, 'e) result) \<Rightarrow> 'a list \<Rightarrow> ('b list, 'e) result" where
  "try_map f [] = Ok []"
| "try_map f (x # xs) = and_then (f x) (\<lambda>y. and_then (try_map f xs) (\<lambda>ys. Ok (y # ys)))"

fun try_fold :: "('s \<Rightarrow> 'a \<Rightarrow> ('s, 'e) result) \<Rightarrow> 's \<Rightarrow> 'a list \<Rightarrow> ('s, 'e) result" where
  "try_fold f s [] = Ok s"
| "try_fold f s (x # xs) = and_then (f s x) (\<lambda>s'. try_fold f s' xs)"

text \<open>Indexing and slicing panic out of range.\<close>

definition index :: "'a list \<Rightarrow> nat \<Rightarrow> ('a, 'e) result" where
  "index xs i = (if i < length xs then Ok (xs ! i) else Panic ''index out of bounds'')"

definition slice :: "'a list \<Rightarrow> nat \<Rightarrow> nat \<Rightarrow> ('a list, 'e) result" where
  "slice xs a b = (if a \<le> b \<and> b \<le> length xs then Ok (take (b - a) (drop a xs))
                   else Panic ''range out of bounds for slice'')"

subsection \<open>Facts about results\<close>

lemma and_then_eq_Ok [result_simps]:
  "and_then r f = Ok y \<longleftrightarrow> (\<exists>x. r = Ok x \<and> f x = Ok y)"
  by (cases r) auto

lemma and_then_eq_Err [result_simps]:
  "and_then r f = Err e \<longleftrightarrow> r = Err e \<or> (\<exists>x. r = Ok x \<and> f x = Err e)"
  by (cases r) auto

lemma and_then_eq_Panic [result_simps]:
  "and_then r f = Panic m \<longleftrightarrow> r = Panic m \<or> (\<exists>x. r = Ok x \<and> f x = Panic m)"
  by (cases r) auto

lemma and_then_assoc: "and_then (and_then r f) g = and_then r (\<lambda>x. and_then (f x) g)"
  by (cases r) auto

lemma and_then_Ok_right [simp]: "and_then r Ok = r"
  by (cases r) auto

lemma and_then_cong [fundef_cong]:
  "r = r' \<Longrightarrow> (\<And>x. r' = Ok x \<Longrightarrow> f x = f' x) \<Longrightarrow> and_then r f = and_then r' f'"
  by (cases r') auto

lemma ok_or_eq_Ok [result_simps]: "ok_or o1 e = Ok x \<longleftrightarrow> o1 = Some x"
  by (cases o1) auto

lemma ok_or_eq_Err [result_simps]: "ok_or o1 e = Err e' \<longleftrightarrow> o1 = None \<and> e' = e"
  by (cases o1) auto

lemma ok_or_not_Panic [simp]: "ok_or o1 e \<noteq> Panic m"
  by (cases o1) auto

lemma map_err_eq_Ok [result_simps]: "map_err g r = Ok x \<longleftrightarrow> r = Ok x"
  by (cases r) auto

lemma map_err_eq_Panic [result_simps]: "map_err g r = Panic m \<longleftrightarrow> r = Panic m"
  by (cases r) auto

lemma expect_eq_Ok [result_simps]: "expect m r = Ok x \<longleftrightarrow> r = Ok x"
  by (cases r) auto

lemma expect_not_Err [simp]: "expect m r \<noteq> Err e"
  by (cases r) auto

lemma is_ok_iff: "is_ok r \<longleftrightarrow> (\<exists>x. r = Ok x)"
  by (cases r) auto

lemma is_panic_iff: "is_panic r \<longleftrightarrow> (\<exists>m. r = Panic m)"
  by (cases r) auto

lemma is_panic_and_then [result_simps]:
  "is_panic (and_then r f) \<longleftrightarrow> is_panic r \<or> (\<exists>x. r = Ok x \<and> is_panic (f x))"
  by (cases r) auto

lemma for_each_eq_Ok [result_simps]:
  "for_each f xs = Ok u \<longleftrightarrow> (\<forall>x \<in> set xs. f x = Ok ())"
  by (induction xs) (auto simp: result_simps)

lemma for_each_not_panic:
  "(\<And>x. x \<in> set xs \<Longrightarrow> \<not> is_panic (f x)) \<Longrightarrow> \<not> is_panic (for_each f xs)"
  by (induction xs) (auto simp: result_simps)

lemma try_map_eq_Ok [result_simps]:
  "try_map f xs = Ok ys \<longleftrightarrow> list_all2 (\<lambda>x y. f x = Ok y) xs ys"
  by (induction xs arbitrary: ys) (auto simp: result_simps list_all2_Cons1)

lemma try_map_Ok_fun:
  "(\<And>x. x \<in> set xs \<Longrightarrow> f x = Ok (g x)) \<Longrightarrow> try_map f xs = Ok (map g xs)"
  by (induction xs) auto

lemma try_map_length: "try_map f xs = Ok ys \<Longrightarrow> length ys = length xs"
  by (simp add: result_simps list_all2_lengthD)

lemma try_fold_append:
  "try_fold f s (xs @ ys) = and_then (try_fold f s xs) (\<lambda>s'. try_fold f s' ys)"
  by (induction xs arbitrary: s) (auto simp: and_then_assoc)

lemma try_fold_Ok_fun:
  "(\<And>s x. x \<in> set xs \<Longrightarrow> f s x = Ok (g s x)) \<Longrightarrow> try_fold f s xs = Ok (foldl g s xs)"
  by (induction xs arbitrary: s) auto

lemma index_eq_Ok [result_simps]: "index xs i = Ok x \<longleftrightarrow> i < length xs \<and> x = xs ! i"
  by (auto simp: index_def)

lemma index_not_Err [simp]: "index xs i \<noteq> Err e"
  by (simp add: index_def)

lemma slice_eq_Ok [result_simps]:
  "slice xs a b = Ok ys \<longleftrightarrow> a \<le> b \<and> b \<le> length xs \<and> ys = take (b - a) (drop a xs)"
  by (auto simp: slice_def)

lemma slice_not_Err [simp]: "slice xs a b \<noteq> Err e"
  by (simp add: slice_def)

section \<open>Bytes\<close>

text \<open>Little-endian digits in base 256, and the big-endian vector of a digest.\<close>

fun nat_to_le :: "nat \<Rightarrow> nat \<Rightarrow> bytes" where
  "nat_to_le 0 n = []"
| "nat_to_le (Suc k) n = word_of_nat (n mod 256) # nat_to_le k (n div 256)"

fun le_to_nat :: "bytes \<Rightarrow> nat" where
  "le_to_nat [] = 0"
| "le_to_nat (b # bs) = unat b + 256 * le_to_nat bs"

text \<open>The same digits of a machine word, by shifts.\<close>

definition word_to_le :: "nat \<Rightarrow> 'a::len word \<Rightarrow> bytes" where
  "word_to_le k w = map (\<lambda>i. ucast (drop_bit (8 * i) w)) [0..<k]"

primrec word_of_le :: "bytes \<Rightarrow> 'a::len word" where
  "word_of_le [] = 0"
| "word_of_le (b # bs) = ucast b + 256 * word_of_le bs"

definition to_le_bytes :: "64 word \<Rightarrow> bytes" where
  "to_le_bytes w = word_to_le 8 w"

definition from_le_bytes :: "bytes \<Rightarrow> 64 word" where
  "from_le_bytes bs = word_of_le bs"

definition digest_to_vec :: "nat \<Rightarrow> 'a::len word \<Rightarrow> bytes" where
  "digest_to_vec k d = rev (word_to_le k d)"

lemma nat_to_le_map: "nat_to_le k n = map (\<lambda>i. word_of_nat (n div 256 ^ i mod 256)) [0..<k]"
proof (induction k n rule: nat_to_le.induct)
  case (2 k n)
  have "[0..<Suc k] = 0 # map Suc [0..<k]" by (simp add: map_Suc_upt upt_conv_Cons del: upt_Suc)
  with 2 show ?case by (simp add: div_mult2_eq del: upt_Suc)
qed simp

lemma unat_drop_bytes: "unat (drop_bit (8 * i) w) = unat w div 256 ^ i" for w :: "'a::len word"
  by (subst unat_drop_bit_eq) (simp add: drop_bit_eq_div power_mult)

lemma word_of_nat_mod_256: "(word_of_nat n :: u8) = word_of_nat (n mod 256)"
  by (simp add: word_of_nat_eq_iff take_bit_eq_mod)

lemma ucast_u8: "(ucast v :: u8) = word_of_nat (unat v mod 256)" for v :: "'a::len word"
  by (subst word_of_nat_mod_256 [symmetric]) (simp add: of_nat_unat)

lemma word_to_le_nat: "word_to_le k w = nat_to_le k (unat w)"
  by (simp add: word_to_le_def nat_to_le_map ucast_u8 unat_drop_bytes)

lemma word_of_le_nat: "(word_of_le bs :: 'a::len word) = word_of_nat (le_to_nat bs)"
  by (induction bs) simp_all

lemma length_nat_to_le [simp, bytes_simps]: "length (nat_to_le k n) = k"
  by (induction k n rule: nat_to_le.induct) auto

lemma unat_u8_less: "unat (b :: u8) < 256"
  using unsigned_less [of b, where ?'a = nat] by simp

lemma unat_of_mod_256 [simp]: "unat (word_of_nat (n mod 256) :: u8) = n mod 256"
  by (simp add: unat_of_nat)

lemma le_to_nat_of_nat_to_le [bytes_simps]: "le_to_nat (nat_to_le k n) = n mod 256 ^ k"
proof (induction k n rule: nat_to_le.induct)
  case (2 k n)
  have "n mod (256 * 256 ^ k) = 256 * (n div 256 mod 256 ^ k) + n mod 256"
    by (rule mod_mult2_eq)
  with 2 show ?case by simp
qed simp

lemma le_to_nat_bound: "le_to_nat bs < 256 ^ length bs"
proof (induction bs)
  case (Cons b bs)
  have "unat b < 256" by (rule unat_u8_less)
  with Cons show ?case by simp
qed simp

lemma nat_to_le_of_le_to_nat [bytes_simps]: "nat_to_le (length bs) (le_to_nat bs) = bs"
proof (induction bs)
  case (Cons b bs)
  have "unat b < 256" by (rule unat_u8_less)
  moreover have "(word_of_nat (unat b) :: u8) = b" by simp
  ultimately show ?case using Cons by (simp add: mod_mult_self2 div_mult_self2)
qed simp

lemma length_to_le_bytes [simp, bytes_simps]: "length (to_le_bytes w) = 8"
  by (simp add: to_le_bytes_def word_to_le_def)

lemma from_to_le_bytes [simp, bytes_simps]: "from_le_bytes (to_le_bytes w) = w"
proof -
  have "unat w < 256 ^ 8" using unsigned_less [of w, where ?'a = nat] by simp
  then show ?thesis
    by (simp add: from_le_bytes_def to_le_bytes_def word_to_le_nat word_of_le_nat bytes_simps)
qed

lemma to_from_le_bytes [bytes_simps]:
  assumes "length bs = 8"
  shows "to_le_bytes (from_le_bytes bs) = bs"
proof -
  have "le_to_nat bs < 2 ^ 64" using le_to_nat_bound [of bs] assms by simp
  then have "unat (word_of_nat (le_to_nat bs) :: 64 word) = le_to_nat bs"
    by (simp add: unat_of_nat)
  then show ?thesis
    using nat_to_le_of_le_to_nat [of bs] assms
    by (simp add: to_le_bytes_def from_le_bytes_def word_to_le_nat word_of_le_nat)
qed

lemma length_digest_to_vec [simp, bytes_simps]: "length (digest_to_vec k d) = k"
  by (simp add: digest_to_vec_def word_to_le_def)

section \<open>Strings\<close>

text \<open>A string is the list of its UTF-8 bytes, as characters.\<close>

definition into_bytes :: "string \<Rightarrow> bytes" where
  "into_bytes s = map (\<lambda>c. word_of_nat (of_char c)) s"

definition from_utf8_unchecked :: "bytes \<Rightarrow> string" where
  "from_utf8_unchecked bs = map (\<lambda>b. char_of (unat b)) bs"

text \<open>
  The scan of \<open>core::str::from_utf8\<close>: \<open>None\<close> on a well-formed sequence, otherwise
  the length of the valid prefix and the number of bytes of the bad sequence
  (\<open>None\<close> when the input ends inside a character).
\<close>

definition cont :: "u8 \<Rightarrow> bool" where
  "cont b \<longleftrightarrow> 0x80 \<le> b \<and> b \<le> 0xBF"

definition utf8_second :: "u8 \<Rightarrow> u8 \<Rightarrow> bool" where
  "utf8_second b c \<longleftrightarrow> cont c \<and> (b = 0xE0 \<longrightarrow> 0xA0 \<le> c) \<and> (b = 0xED \<longrightarrow> c \<le> 0x9F) \<and>
     (b = 0xF0 \<longrightarrow> 0x90 \<le> c) \<and> (b = 0xF4 \<longrightarrow> c \<le> 0x8F)"

fun utf8_scan :: "nat \<Rightarrow> bytes \<Rightarrow> (nat \<times> nat option) option" where
  "utf8_scan i [] = None"
| "utf8_scan i (b # bs) =
    (if b \<le> 0x7F then utf8_scan (i + 1) bs
     else if b < 0xC2 \<or> 0xF4 < b then Some (i, Some 1)
     else (case bs of [] \<Rightarrow> Some (i, None) | c # cs \<Rightarrow>
       if \<not> utf8_second b c then Some (i, Some 1)
       else if b \<le> 0xDF then utf8_scan (i + 2) cs
       else (case cs of [] \<Rightarrow> Some (i, None) | d # ds \<Rightarrow>
         if \<not> cont d then Some (i, Some 2)
         else if b \<le> 0xEF then utf8_scan (i + 3) ds
         else (case ds of [] \<Rightarrow> Some (i, None) | e # es \<Rightarrow>
           if \<not> cont e then Some (i, Some 3) else utf8_scan (i + 4) es))))"

definition utf8_valid :: "bytes \<Rightarrow> bool" where
  "utf8_valid bs \<longleftrightarrow> utf8_scan 0 bs = None"

definition from_utf8 :: "bytes \<Rightarrow> string option" where
  "from_utf8 bs = (if utf8_valid bs then Some (from_utf8_unchecked bs) else None)"

lemma into_bytes_from_utf8 [simp, bytes_simps]: "into_bytes (from_utf8_unchecked bs) = bs"
proof (induction bs)
  case (Cons b bs)
  have "unat b < 256" by (rule unat_u8_less)
  then have "of_char (char_of (unat b) :: char) = unat b" by simp
  with Cons show ?case by (simp add: into_bytes_def from_utf8_unchecked_def)
qed (simp add: into_bytes_def from_utf8_unchecked_def)

lemma of_char_lt_256: "(of_char c :: nat) < 256"
  by (metis char_of_nat of_char_of mod_less_divisor nat_of_char_less_256)

lemma from_utf8_into_bytes [simp, bytes_simps]: "from_utf8_unchecked (into_bytes s) = s"
proof (induction s)
  case (Cons c s)
  have "unat (word_of_nat (of_char c) :: u8) = of_char c"
    using of_char_lt_256 [of c] by (simp add: unat_of_nat)
  with Cons show ?case by (simp add: into_bytes_def from_utf8_unchecked_def)
qed (simp add: into_bytes_def from_utf8_unchecked_def)

text \<open>Decimal rendering of naturals and integers (\<open>Display\<close> for \<open>usize\<close> and \<open>i64\<close>).\<close>

fun show_nat :: "nat \<Rightarrow> string" where
  "show_nat n = (if n < 10 then [char_of (48 + n)]
                 else show_nat (n div 10) @ [char_of (48 + n mod 10)])"

declare show_nat.simps [simp del]

definition show_int :: "int \<Rightarrow> string" where
  "show_int i = (if i < 0 then ''-'' @ show_nat (nat (- i)) else show_nat (nat i))"

text \<open>\<open>Display\<close> for the error of \<open>String::from_utf8\<close>.\<close>

definition utf8_error_text :: "bytes \<Rightarrow> string" where
  "utf8_error_text bs = (case utf8_scan 0 bs of
     None \<Rightarrow> []
   | Some (i, Some n) \<Rightarrow> ''invalid utf-8 sequence of '' @ show_nat n @ '' bytes from index '' @ show_nat i
   | Some (i, None) \<Rightarrow> ''incomplete utf-8 byte sequence from index '' @ show_nat i)"

text \<open>\<open>str::split\<close> with a non-empty pattern, and \<open>[S]::join\<close>.\<close>

fun str_split_from :: "string \<Rightarrow> string \<Rightarrow> string \<Rightarrow> string list" where
  "str_split_from p acc [] = [rev acc]"
| "str_split_from p acc (c # cs) =
    (if prefix p (c # cs) then rev acc # str_split_from p [] (drop (length p - 1) cs)
     else str_split_from p (c # acc) cs)"

definition str_split :: "string \<Rightarrow> string \<Rightarrow> string list" where
  "str_split p s = str_split_from p [] s"

fun join :: "string \<Rightarrow> string list \<Rightarrow> string" where
  "join sep [] = []"
| "join sep [x] = x"
| "join sep (x # y # ys) = x @ sep @ join sep (y # ys)"

section \<open>Lists\<close>

lemma list_all2_map_eq: "list_all2 (\<lambda>x y. f x = y) xs ys \<longleftrightarrow> ys = map f xs"
  by (induction xs arbitrary: ys) (auto simp: list_all2_Cons1)

lemma foldl_plus_sum_list: "foldl (\<lambda>s x. s + f x) (a :: 'b::comm_monoid_add) xs = a + sum_list (map f xs)"
  by (induction xs arbitrary: a) (auto simp: add.assoc)

end
