(* ===== verification/Structs.thy ===== *)
theory Structs
  imports Prelude
begin

text \<open>
  The message types of \<open>schema/src/proto/structs.proto\<close>, one record per message
  with the fields of the schema in their order (an abbreviation of the message
  name first).  As in the generated Rust, a message field and an \<open>optional\<close>
  scalar is an option, a \<open>repeated\<close> field a list, an enum field its \<open>i32\<close> code.
  The messages \<open>StandardData\<close>, \<open>TrustData\<close>, \<open>TrustRatingLabel\<close>, \<open>PeerMetadata\<close>,
  \<open>Observation\<close> and \<open>ObservationMetadata\<close> contain one another, so they are
  mutually recursive datatypes instead of records.
\<close>

section \<open>Enumerations and their codes\<close>

datatype Error =
    IncorrectSignature | MissingInputs | MissingOutputs | InvalidAddressInputIndex
  | InvalidHashLength | TransactionAlreadyProcessing | UnknownUTXO | BalanceMismatch
  | InsufficientBalance | InsufficientFee | MissingProof | TransactionRejectedDoubleSpend
  | InternalDatabaseError | AddressPublicKeyProofMismatch | UnknownError | DatabaseFailure
  | MissingField | ProtoDecoderFailure | InvalidNetworkEnvironment | DataStoreInternalCorruption
  | HexDecodeFailure | AddressDecodeFailure | UnsupportedCurrency | AddressNotFound
  | UnknownTransaction | UnknownBlock | InternalChannelSendError | InternalChannelReceiveError
  | ParseFailure | DeserializationFailure | SerializationFailure

primrec error_i32 :: "Error \<Rightarrow> i32" where
  "error_i32 IncorrectSignature = 0"
| "error_i32 MissingInputs = 1"
| "error_i32 MissingOutputs = 2"
| "error_i32 InvalidAddressInputIndex = 3"
| "error_i32 InvalidHashLength = 4"
| "error_i32 TransactionAlreadyProcessing = 5"
| "error_i32 UnknownUTXO = 6"
| "error_i32 BalanceMismatch = 7"
| "error_i32 InsufficientBalance = 8"
| "error_i32 InsufficientFee = 9"
| "error_i32 MissingProof = 10"
| "error_i32 TransactionRejectedDoubleSpend = 11"
| "error_i32 InternalDatabaseError = 12"
| "error_i32 AddressPublicKeyProofMismatch = 13"
| "error_i32 UnknownError = 14"
| "error_i32 DatabaseFailure = 15"
| "error_i32 MissingField = 16"
| "error_i32 ProtoDecoderFailure = 17"
| "error_i32 InvalidNetworkEnvironment = 18"
| "error_i32 DataStoreInternalCorruption = 19"
| "error_i32 HexDecodeFailure = 20"
| "error_i32 AddressDecodeFailure = 21"
| "error_i32 UnsupportedCurrency = 22"
| "error_i32 AddressNotFound = 23"
| "error_i32 UnknownTransaction = 24"
| "error_i32 UnknownBlock = 25"
| "error_i32 InternalChannelSendError = 26"
| "error_i32 InternalChannelReceiveError = 27"
| "error_i32 ParseFailure = 28"
| "error_i32 DeserializationFailure = 29"
| "error_i32 SerializationFailure = 30"

datatype NetworkEnvironment =
  Main | Test | Dev | Staging | Perf | Integration | Local | Debug | All | Predev

primrec network_i32 :: "NetworkEnvironment \<Rightarrow> i32" where
  "network_i32 Main = 0" | "network_i32 Test = 1" | "network_i32 Dev = 2"
| "network_i32 Staging = 3" | "network_i32 Perf = 4" | "network_i32 Integration = 5"
| "network_i32 Local = 6" | "network_i32 Debug = 7" | "network_i32 All = 8"
| "network_i32 Predev = 9"

datatype SupportedCurrency = Usdc | Bitcoin | Ethereum | Redgold

primrec currency_i32 :: "SupportedCurrency \<Rightarrow> i32" where
  "currency_i32 Usdc = 0" | "currency_i32 Bitcoin = 1"
| "currency_i32 Ethereum = 2" | "currency_i32 Redgold = 3"

datatype AddressType =
    Sha3224ChecksumPublic | MultihashKeyhash | BitcoinExternalString | EthereumCompatAddress
  | PublicKeyDirectAddress | UnknownAddressType | ScriptHash | EthereumExternalString

primrec address_type_i32 :: "AddressType \<Rightarrow> i32" where
  "address_type_i32 Sha3224ChecksumPublic = 0" | "address_type_i32 MultihashKeyhash = 1"
| "address_type_i32 BitcoinExternalString = 2" | "address_type_i32 EthereumCompatAddress = 3"
| "address_type_i32 PublicKeyDirectAddress = 4" | "address_type_i32 UnknownAddressType = 5"
| "address_type_i32 ScriptHash = 6" | "address_type_i32 EthereumExternalString = 7"

datatype HashType =
    HT_Transaction | HT_ObservationMetadata | HT_ObservationMerkleRoot | HT_Tombstone
  | HT_Address | HT_Unknown | HT_UtxoId

primrec hash_type_i32 :: "HashType \<Rightarrow> i32" where
  "hash_type_i32 HT_Transaction = 0" | "hash_type_i32 HT_ObservationMetadata = 1"
| "hash_type_i32 HT_ObservationMerkleRoot = 2" | "hash_type_i32 HT_Tombstone = 3"
| "hash_type_i32 HT_Address = 4" | "hash_type_i32 HT_Unknown = 5" | "hash_type_i32 HT_UtxoId = 6"

datatype StandardContractType = SC_Currency | SC_Deposit | SC_Swap | SC_Stake

primrec standard_contract_i32 :: "StandardContractType \<Rightarrow> i32" where
  "standard_contract_i32 SC_Currency = 0" | "standard_contract_i32 SC_Deposit = 1"
| "standard_contract_i32 SC_Swap = 2" | "standard_contract_i32 SC_Stake = 3"

datatype OutputType = Fee | Deploy | RequestCall

primrec output_type_i32 :: "OutputType \<Rightarrow> i32" where
  "output_type_i32 Fee = 0" | "output_type_i32 Deploy = 1" | "output_type_i32 RequestCall = 2"

datatype State = Pending | Accepted | Reverted | Ordered

primrec state_i32 :: "State \<Rightarrow> i32" where
  "state_i32 Pending = 0" | "state_i32 Accepted = 1" | "state_i32 Reverted = 2"
| "state_i32 Ordered = 3"

datatype ValidationType = VT_Full | VT_Partial

primrec validation_type_i32 :: "ValidationType \<Rightarrow> i32" where
  "validation_type_i32 VT_Full = 0" | "validation_type_i32 VT_Partial = 1"

datatype ValidationLiveness = Live | PostConfirmation

primrec validation_liveness_i32 :: "ValidationLiveness \<Rightarrow> i32" where
  "validation_liveness_i32 Live = 0" | "validation_liveness_i32 PostConfirmation = 1"

datatype TransactionState =
    TS_Rejected | TS_Mempool | TS_Validated | TS_ObservedPending | TS_ObservedAccepted
  | TS_Finalized | TS_Unknown | TS_ObservedReverted

primrec transaction_state_i32 :: "TransactionState \<Rightarrow> i32" where
  "transaction_state_i32 TS_Rejected = 0" | "transaction_state_i32 TS_Mempool = 1"
| "transaction_state_i32 TS_Validated = 2" | "transaction_state_i32 TS_ObservedPending = 3"
| "transaction_state_i32 TS_ObservedAccepted = 4" | "transaction_state_i32 TS_Finalized = 5"
| "transaction_state_i32 TS_Unknown = 6" | "transaction_state_i32 TS_ObservedReverted = 7"

text \<open>Codes of the one-constructor and rarely used enums, by the names of the source.\<close>

abbreviation (input) "bytes_decoder_standard \<equiv> (0 :: i32)"
abbreviation (input) "hash_format_sha3256 \<equiv> (0 :: i32)"
abbreviation (input) "signature_type_ecdsa \<equiv> (0 :: i32)"
abbreviation (input) "signature_type_ecdsa_bitcoin_sign_message_hardware \<equiv> (1 :: i32)"
abbreviation (input) "public_key_type_secp256k1 \<equiv> (0 :: i32)"
abbreviation (input) "input_type_genesis \<equiv> (0 :: i32)"
abbreviation (input) "executor_backend_extism \<equiv> (0 :: i32)"

section \<open>Bytes, hashes, keys and proofs\<close>

record BytesData =
  bd_value :: bytes
  bd_decoder :: i32
  bd_version :: i64

record Hash =
  h_bytes :: "BytesData option"
  h_hash_format_type :: i32
  h_hash_type :: i32

record ProductId =
  pi_network :: "Hash option"
  pi_product :: "Hash option"

record RsvSignature =
  rsv_r :: "BytesData option"
  rsv_s :: "BytesData option"
  rsv_v :: "i64 option"

record Signature =
  sig_bytes :: "BytesData option"
  sig_signature_type :: i32
  sig_rsv :: "RsvSignature option"

record PublicKey =
  pk_bytes :: "BytesData option"
  pk_key_type :: i32

record Proof =
  pr_signature :: "Signature option"
  pr_public_key :: "PublicKey option"

record PeerId =
  pid_peer_id :: "PublicKey option"
  pid_known_proof :: "Proof list"

record CurrencyAmount =
  ca_amount :: i64
  ca_bytes :: "BytesData option"
  ca_currency :: "i32 option"

record Address =
  a_address :: "BytesData option"
  a_address_type :: i32
  a_currency :: "i32 option"

record UtxoId =
  u_transaction_hash :: "Hash option"
  u_output_index :: i64

record AddressSelector =
  as_address :: "Address option"
  as_requires_output_contract_predicate_match :: "bool option"

record FloatingUtxoId =
  fu_address_selector :: "AddressSelector option"

section \<open>Node and peer metadata\<close>

record PartitionInfo =
  pai_utxo :: "i64 option"
  pai_contract_address :: "i64 option"
  pai_transaction_hash :: "i64 option"
  pai_address :: "i64 option"

record TransportInfo =
  ti_external_ipv4 :: "string option"
  ti_external_ipv6 :: "string option"
  ti_external_host :: "string option"
  ti_port_offset :: "i64 option"
  ti_nat_restricted :: "bool option"

record PartyId =
  pty_public_key :: "PublicKey option"
  pty_owner :: "PublicKey option"

record VersionInfo =
  vi_executable_checksum :: string
  vi_commit_hash :: "string option"
  vi_next_executable_checksum :: "string option"
  vi_next_upgrade_time :: "i64 option"
  vi_build_number :: "i64 option"

record NodeMetadata =
  nm_transport_info :: "TransportInfo option"
  nm_public_key :: "PublicKey option"
  nm_node_type :: "i32 option"
  nm_version_info :: "VersionInfo option"
  nm_partition_info :: "PartitionInfo option"
  nm_node_name :: "string option"
  nm_peer_id :: "PeerId option"
  nm_parties :: "PartyId list"

record IdentityMetadata =
  im_github_username :: "string option"
  im_website :: "string option"
  im_full_name :: "string option"
  im_username :: "string option"
  im_email :: "string option"
  im_discord_id :: "string option"
  im_twitter :: "string option"

record Weighting =
  w_value :: i64

record PortfolioWeighting =
  pw_currency :: "i32 option"
  pw_product_id :: "ProductId option"
  pw_weight :: "Weighting option"

record PortfolioInfo =
  pfi_portfolio_weightings :: "PortfolioWeighting list"

record DynamicNodeMetadata =
  dnm_udp_port :: "i64 option"
  dnm_proof :: "Proof option"
  dnm_peer_id :: "PeerId option"
  dnm_sequence :: i64

section \<open>Output data\<close>

datatype StateSelector = StateSelector

record StandardRequest =
  sr_selector :: "StateSelector option"

record SchemaDef =
  sdf_parquet :: "string option"

record TypedValue =
  tv_bytes_value :: "BytesData option"
  tv_string_value :: "string option"
  tv_uint64_value :: "u64 option"
  tv_int64_value :: "i64 option"
  tv_float_value :: "string option"
  tv_double_value :: "string option"
  tv_bool_value :: "bool option"

record KeyedTypedValue =
  ktv_key :: "TypedValue option"
  ktv_value :: "TypedValue option"

record MatrixTypedValue =
  mtv_key_i :: "TypedValue option"
  mtv_key_j :: "TypedValue option"
  mtv_value :: "TypedValue option"

record GenericTypedValue =
  gtv_typed_value :: "TypedValue option"
  gtv_typed_value_list :: "TypedValue list"
  gtv_keyed_typed_value :: "KeyedTypedValue option"
  gtv_keyed_typed_value_list :: "KeyedTypedValue list"
  gtv_matrix_typed_value :: "MatrixTypedValue option"
  gtv_matrix_typed_value_list :: "MatrixTypedValue list"

record ExternalTransactionId =
  eti_identifier :: string

record LiquidityRange =
  lr_min_inclusive :: "CurrencyAmount option"
  lr_max_exclusive :: "CurrencyAmount option"
  lr_disable_dynamic_fee :: bool
  lr_desired_fee_fraction :: "Weighting option"
  lr_allocation_fraction :: "Weighting option"

record LiquidityWithdrawal =
  lw_destination :: "Address option"

record LiquidityDeposit =
  ld_liquidity_ranges :: "LiquidityRange list"

record LiquidityRequest =
  lq_deposit :: "LiquidityDeposit option"
  lq_withdrawal :: "LiquidityWithdrawal option"

record StructMetadata =
  sm_time :: "i64 option"
  sm_version :: i32
  sm_hash :: "Hash option"
  sm_signable_hash :: "Hash option"
  sm_signed_hash :: "Hash option"
  sm_counter_party_hash :: "Hash option"
  sm_confirmation_hash :: "Hash option"

datatype StandardData = StandardData
    (sd_amount: "CurrencyAmount option")
    (sd_generic_typed_value: "GenericTypedValue option")
    (sd_peer_data: "PeerMetadata option")
    (sd_node_metadata: "NodeMetadata option")
    (sd_dynamic_node_metadata: "DynamicNodeMetadata option")
    (sd_height: "i64 option")
    (sd_data_hash: "Hash option")
    (sd_hash: "Hash option")
    (sd_observation: "Observation option")
    (sd_address: "Address option")
    (sd_state: "BytesData option")
    (sd_request: "BytesData option")
    (sd_standard_request: "StandardRequest option")
    (sd_liquidity_request: "LiquidityRequest option")
    (sd_portfolio_info: "PortfolioInfo option")
    (sd_schema_def: "SchemaDef option")
    (sd_data: "BytesData option")
    (sd_aggregate_state_hash: "Hash option")
    (sd_external_transaction_id: "ExternalTransactionId option")
and TrustData = TrustData
    (td_label_rating: "i64 option")
    (td_confidence: "i64 option")
    (td_hardness: "i64 option")
    (td_data: "StandardData option")
    (td_allow_model_override: bool)
    (td_rating_type: "i32 option")
and TrustRatingLabel = TrustRatingLabel
    (trl_peer_id: "PeerId option")
    (trl_trust_data: "TrustData list")
and PeerMetadata = PeerMetadata
    (pm_peer_id: "PeerId option")
    (pm_node_metadata: "NodeMetadata list")
    (pm_labels: "TrustRatingLabel list")
    (pm_version_info: "VersionInfo option")
    (pm_reward_address: "Address option")
    (pm_sponsored_address: "Address list")
    (pm_identity_metadata: "IdentityMetadata option")
    (pm_network_environment: i32)
    (pm_portfolio_info: "PortfolioInfo option")
and ObservationMetadata = ObservationMetadata
    (om_observed_hash: "Hash option")
    (om_observation_type: i32)
    (om_state: i32)
    (om_validation_confidence: "TrustData option")
    (om_struct_metadata: "StructMetadata option")
    (om_validation_liveness: i32)
    (om_liveness_confidence: "TrustData option")
and Observation = Observation
    (ob_merkle_root: "Hash option")
    (ob_observations: "ObservationMetadata list")
    (ob_parent_id: "UtxoId option")
    (ob_ancestor_merkle_roots: "Hash list")

text \<open>The all-default message and the field assignments the source makes on it.\<close>

definition standard_data_default :: StandardData where
  "standard_data_default = StandardData None None None None None None None None None None
     None None None None None None None None None"

primrec set_sd_amount :: "CurrencyAmount option \<Rightarrow> StandardData \<Rightarrow> StandardData" where
  "set_sd_amount v (StandardData a b c d e f g h i j k l m n o' p q r s) =
     StandardData v b c d e f g h i j k l m n o' p q r s"

primrec set_sd_peer_data :: "PeerMetadata option \<Rightarrow> StandardData \<Rightarrow> StandardData" where
  "set_sd_peer_data v (StandardData a b c d e f g h i j k l m n o' p q r s) =
     StandardData a b v d e f g h i j k l m n o' p q r s"

primrec set_sd_node_metadata :: "NodeMetadata option \<Rightarrow> StandardData \<Rightarrow> StandardData" where
  "set_sd_node_metadata v (StandardData a b c d e f g h i j k l m n o' p q r s) =
     StandardData a b c v e f g h i j k l m n o' p q r s"

primrec set_sd_height :: "i64 option \<Rightarrow> StandardData \<Rightarrow> StandardData" where
  "set_sd_height v (StandardData a b c d e f g h i j k l m n o' p q r s) =
     StandardData a b c d e v g h i j k l m n o' p q r s"

primrec set_sd_observation :: "Observation option \<Rightarrow> StandardData \<Rightarrow> StandardData" where
  "set_sd_observation v (StandardData a b c d e f g h i j k l m n o' p q r s) =
     StandardData a b c d e f g h v j k l m n o' p q r s"

primrec set_sd_address :: "Address option \<Rightarrow> StandardData \<Rightarrow> StandardData" where
  "set_sd_address v (StandardData a b c d e f g h i j k l m n o' p q r s) =
     StandardData a b c d e f g h i v k l m n o' p q r s"

primrec set_sd_state :: "BytesData option \<Rightarrow> StandardData \<Rightarrow> StandardData" where
  "set_sd_state v (StandardData a b c d e f g h i j k l m n o' p q r s) =
     StandardData a b c d e f g h i j v l m n o' p q r s"

primrec set_sd_request :: "BytesData option \<Rightarrow> StandardData \<Rightarrow> StandardData" where
  "set_sd_request v (StandardData a b c d e f g h i j k l m n o' p q r s) =
     StandardData a b c d e f g h i j k v m n o' p q r s"

primrec set_sd_standard_request :: "StandardRequest option \<Rightarrow> StandardData \<Rightarrow> StandardData" where
  "set_sd_standard_request v (StandardData a b c d e f g h i j k l m n o' p q r s) =
     StandardData a b c d e f g h i j k l v n o' p q r s"

primrec set_sd_liquidity_request :: "LiquidityRequest option \<Rightarrow> StandardData \<Rightarrow> StandardData" where
  "set_sd_liquidity_request v (StandardData a b c d e f g h i j k l m n o' p q r s) =
     StandardData a b c d e f g h i j k l m v o' p q r s"

primrec set_sd_external_transaction_id ::
    "ExternalTransactionId option \<Rightarrow> StandardData \<Rightarrow> StandardData" where
  "set_sd_external_transaction_id v (StandardData a b c d e f g h i j k l m n o' p q r s) =
     StandardData a b c d e f g h i j k l m n o' p q r v"

section \<open>Transactions\<close>

record CodeExecutionContract =
  cec_address :: "Address option"
  cec_code :: "BytesData option"
  cec_executor :: "i32 option"

record OutputContract =
  oc_standard_contract_type :: "i32 option"
  oc_code_execution_contract :: "CodeExecutionContract option"
  oc_threshold :: "i64 option"
  oc_weights :: "i64 list"
  oc_pay_update_descendents :: bool
  oc_consumable :: bool

record Output =
  o_address :: "Address option"
  o_product_id :: "ProductId option"
  o_counter_party_proofs :: "Proof list"
  o_data :: "StandardData option"
  o_contract :: "OutputContract option"
  o_output_type :: "i32 option"
  o_utxo_id :: "UtxoId option"

record Input =
  i_utxo_id :: "UtxoId option"
  i_proof :: "Proof list"
  i_product_id :: "ProductId option"
  i_output :: "Output option"
  i_floating_utxo_id :: "FloatingUtxoId option"
  i_input_type :: "i32 option"

record KeyValueOption =
  kv_key :: string
  kv_value :: string

record TimeLockWindow =
  tlw_delay :: u64
  tlw_offset :: u64
  tlw_window_size :: u64

record PoWProof =
  pow_proof_type :: i32
  pow_nonce :: "BytesData option"

record TransactionData =
  tdat_message :: "string option"
  tdat_time :: "u64 option"
  tdat_standard_data :: "StandardData option"

record TransactionContract =
  tc_confirmation :: "bool option"
  tc_confirmation_proofs :: "Proof list"
  tc_finalize_window :: "u64 option"
  tc_lock_period :: "u64 option"
  tc_network_reversible :: "bool option"
  tc_time_lock_window :: "TimeLockWindow option"
  tc_options :: "KeyValueOption list"
  tc_pow_proof :: "PoWProof option"

record TimeSponsor =
  tsp_time :: i64
  tsp_proof :: "Proof option"

record TransactionOptions =
  to_salt :: "i64 option"
  to_network_type :: "i32 option"
  to_key_value_options :: "KeyValueOption list"
  to_data :: "TransactionData option"
  to_contract :: "TransactionContract option"
  to_time_sponsor :: "TimeSponsor option"
  to_is_test :: "bool option"

record Transaction =
  t_inputs :: "Input list"
  t_outputs :: "Output list"
  t_struct_metadata :: "StructMetadata option"
  t_options :: "TransactionOptions option"

section \<open>Derived structures\<close>

datatype BlockMetadata = BlockMetadata

record Block =
  b_merkle_root :: "Hash option"
  b_transactions :: "Transaction list"
  b_struct_metadata :: "StructMetadata option"
  b_previous_block_hash :: "Hash option"
  b_metadata :: "BlockMetadata option"
  b_height :: i64

record MerkleProof =
  mp_root :: "Hash option"
  mp_leaf :: "Hash option"
  mp_nodes :: "Hash list"

record ObservationProof =
  op_observation_hash :: "Hash option"
  op_merkle_proof :: "MerkleProof option"
  op_metadata :: "ObservationMetadata option"
  op_proof :: "Proof option"

record ObservationEdge =
  oe_observation_proof :: "ObservationProof option"
  oe_time :: i64

record UtxoEntry =
  ue_utxo_id :: "UtxoId option"
  ue_output :: "Output option"
  ue_time :: i64

record AddressBlock =
  ab_address :: "Address option"
  ab_balance :: "CurrencyAmount option"
  ab_height :: i64
  ab_hash :: "Hash option"

record ErrorDetails =
  ed_detail_name :: string
  ed_detail :: string

record ErrorInfo =
  ei_code :: i32
  ei_description :: string
  ei_description_extended :: string
  ei_message :: string
  ei_details :: "ErrorDetails list"
  ei_retriable :: bool
  ei_stacktrace :: string
  ei_lib_message :: string
  ei_abort :: bool

record TaskLocalDetails =
  tld_key :: string
  tld_value :: string

record ResponseMetadata =
  rm_success :: bool
  rm_error_info :: "ErrorInfo option"
  rm_task_local_details :: "TaskLocalDetails list"
  rm_request_id :: "string option"
  rm_trace_id :: "string option"

record UsedOutputs =
  uo_utxo_id :: "UtxoId option"
  uo_proof :: "ObservationProof list"

record TransactionInfo =
  tin_transaction :: "Transaction option"
  tin_observation_proofs :: "ObservationProof list"
  tin_valid_utxo_index :: "i32 list"
  tin_used_outputs :: "UsedOutputs list"
  tin_accepted :: bool
  tin_rejection_reason :: "ErrorInfo option"
  tin_queried_output_index_valid :: "bool option"
  tin_state :: i32

record AddressInfo =
  ai_address :: "Address option"
  ai_utxo_entries :: "UtxoEntry list"
  ai_balance :: i64
  ai_recent_transactions :: "Transaction list"

record UdpMessage =
  um_bytes :: "BytesData option"
  um_part :: i64
  um_parts :: i64
  um_uuid :: string
  um_timestamp :: i64

record ExecutionInput =
  xi_tx :: "Transaction option"
  xi_input :: "BytesData option"
  xi_state :: "BytesData option"

record ExecutionResult =
  xr_valid :: bool
  xr_result_metadata :: "ResponseMetadata option"
  xr_data :: "StandardData option"

record ContractStateMarker =
  csm_address :: "Address option"
  csm_state :: "BytesData option"
  csm_selector :: "StateSelector option"
  csm_transaction_marker :: "Hash option"
  csm_nonce :: i64
  csm_time :: i64

record ContentionKey =
  ck_utxo_id :: "UtxoId option"
  ck_address :: "Address option"
  ck_selector :: "StateSelector option"
  ck_transaction_hash :: "Hash option"

record MultipartyIdentifier =
  mpi_party_keys :: "PublicKey list"
  mpi_threshold :: i64
  mpi_uuid :: string

record PeerNodeInfo =
  pni_latest_peer_transaction :: "Transaction option"
  pni_latest_node_transaction :: "Transaction option"
  pni_dynamic_node_metadata :: "DynamicNodeMetadata option"

record PeerIdInfo =
  pii_latest_peer_transaction :: "Transaction option"
  pii_peer_node_info :: "PeerNodeInfo list"

record TransactionEntry =
  te_time :: u64
  te_transaction :: "Transaction option"

record ObservationEntry =
  oen_time :: i64
  oen_observation :: "Transaction option"

record ResolveCodeResponse =
  rc_utxo_entry :: "UtxoEntry option"
  rc_transaction :: "TransactionInfo option"
  rc_contract_state_marker :: "ContractStateMarker option"

record QueryTransactionResponse =
  qt_observation_proofs :: "ObservationProof list"

record SubmitTransactionResponse =
  st_transaction_hash :: "Hash option"
  st_query_transaction_response :: "QueryTransactionResponse option"
  st_transaction :: "Transaction option"

section \<open>Requests and responses\<close>

record ResolveHashRequest =
  rhq_hash :: "Hash option"
  rhq_output_index :: "i64 option"

record GossipTransactionRequest =
  gtr_transaction :: "Transaction option"

record GossipObservationRequest =
  gor_observation :: "Transaction option"

record DownloadRequest =
  dr_start_time :: u64
  dr_end_time :: u64
  dr_data_type :: i32
  dr_offset :: "u64 option"

record AboutNodeRequest =
  anq_verbose :: bool

datatype GetPeersInfoRequest = GetPeersInfoRequest

record InitiateMultipartyKeygenRequest =
  mkq_identifier :: "MultipartyIdentifier option"

record InitiateMultipartySigningRequest =
  msq_identifier :: "MultipartyIdentifier option"
  msq_signing_room_id :: string
  msq_signing_party_keys :: "PublicKey list"
  msq_data_to_sign :: "BytesData option"

record SubmitTransactionRequest =
  stq_transaction :: "Transaction option"
  stq_sync_query_response :: bool

record UtxoConflictResolveRequest =
  ucq_utxo_ids :: "UtxoId list"
  ucq_transaction_hash :: "Hash option"

record QueryObservationProofRequest =
  qoq_hash :: "Hash option"

record HashSearchRequest =
  hsq_search_string :: string

record MultipartyAuthenticationRequest =
  maq_message :: "string option"
  maq_room_id :: string

datatype HealthRequest = HealthRequest

datatype GetNodeTransactionRequest = GetNodeTransactionRequest

record GetContractStateMarkerRequest =
  gcq_address :: "Address option"
  gcq_selector :: "StateSelector option"

record AbridgedNodeMetadata =
  anm_version_info :: "VersionInfo option"
  anm_partition_info :: "PartitionInfo option"

record RecentDiscoveryTransactionsRequest =
  rdq_limit :: "i64 option"
  rdq_min_time :: "i64 option"

record RecentTransactionAndObservationRequest =
  roq_limit :: "i64 option"
  roq_offset :: "i64 option"

datatype GenesisRequest = GenesisRequest

record FaucetRequest =
  fq_address :: "Address option"
  fq_token :: "string option"

datatype GetPartiesInfoRequest = GetPartiesInfoRequest

record Request =
  rq_gossip_transaction_request :: "GossipTransactionRequest option"
  rq_gossip_observation_request :: "GossipObservationRequest option"
  rq_resolve_hash_request :: "ResolveHashRequest option"
  rq_download_request :: "DownloadRequest option"
  rq_about_node_request :: "AboutNodeRequest option"
  rq_proof :: "Proof option"
  rq_node_metadata :: "NodeMetadata option"
  rq_get_peers_info_request :: "GetPeersInfoRequest option"
  rq_initiate_keygen :: "InitiateMultipartyKeygenRequest option"
  rq_initiate_signing :: "InitiateMultipartySigningRequest option"
  rq_submit_transaction_request :: "SubmitTransactionRequest option"
  rq_utxo_conflict_resolve_request :: "UtxoConflictResolveRequest option"
  rq_query_observation_proof_request :: "QueryObservationProofRequest option"
  rq_hash_search_request :: "HashSearchRequest option"
  rq_trace_id :: "string option"
  rq_trace :: "bool option"
  rq_multiparty_authentication_request :: "MultipartyAuthenticationRequest option"
  rq_health_request :: "HealthRequest option"
  rq_get_node_transaction_request :: "GetNodeTransactionRequest option"
  rq_get_contract_state_marker_request :: "GetContractStateMarkerRequest option"
  rq_resolve_code_request :: "Address option"
  rq_abridged_node_metadata :: "AbridgedNodeMetadata option"
  rq_gossip_observation_proof :: "ObservationProof list"
  rq_utxo_valid_request :: "UtxoId option"
  rq_recent_transactions_request :: "RecentDiscoveryTransactionsRequest option"
  rq_lookup_transaction_request :: "Hash option"
  rq_recent_transaction_and_observation_request :: "RecentTransactionAndObservationRequest option"
  rq_genesis_request :: "GenesisRequest option"
  rq_faucet_request :: "FaucetRequest option"
  rq_get_parties_info_request :: "GetPartiesInfoRequest option"
  rq_origin :: "string option"

record ResolveHashResponse =
  rhr_transaction_info :: "TransactionInfo option"
  rhr_address_info :: "AddressInfo option"
  rhr_observation :: "Observation option"
  rhr_peer_data :: "PeerMetadata option"

record DownloadResponse =
  dlr_utxo_entries :: "UtxoEntry list"
  dlr_transactions :: "TransactionEntry list"
  dlr_observations :: "ObservationEntry list"
  dlr_observation_edges :: "ObservationEdge list"
  dlr_complete_response :: bool

record AboutNodeResponse =
  anr_latest_metadata :: "Transaction option"
  anr_latest_node_metadata :: "Transaction option"
  anr_num_known_peers :: i64
  anr_num_active_peers :: i64
  anr_recent_transactions :: "Transaction list"
  anr_pending_transactions :: i64
  anr_total_accepted_transactions :: i64
  anr_observation_height :: i64
  anr_peer_node_info :: "PeerNodeInfo option"

record GetPeersInfoResponse =
  gpr_self_info :: "PeerNodeInfo option"
  gpr_peer_info :: "PeerNodeInfo list"

record InitiateMultipartyKeygenResponse =
  mkr_initial_request :: "InitiateMultipartyKeygenRequest option"

record InitiateMultipartySigningResponse =
  msr_proof :: "Proof option"
  msr_initial_request :: "InitiateMultipartySigningRequest option"

record UtxoConflictResolveResponse =
  ucr_transactions :: "TransactionInfo list"

record QueryObservationProofResponse =
  qor_observation_proof :: "ObservationProof list"

record HashSearchResponse =
  hsr_transaction_info :: "TransactionInfo option"
  hsr_address_info :: "AddressInfo option"
  hsr_observation :: "Transaction option"
  hsr_peer_node_info :: "PeerNodeInfo option"
  hsr_peer_id_info :: "PeerIdInfo option"

datatype HealthResponse = HealthResponse

record UtxoValidResponse =
  uvr_valid :: "bool option"
  uvr_child_transaction :: "Transaction option"
  uvr_child_transaction_input :: "i64 option"

record RecentDiscoveryTransactionsResponse =
  rdr_transaction_hashes :: "Hash list"

record TransactionAndObservations =
  tao_transaction :: "Transaction option"
  tao_observation :: "Observation list"

record FaucetResponse =
  fr_submit_transaction_response :: "SubmitTransactionResponse option"

record PartyMember =
  pme_public_key :: "PublicKey option"
  pme_weight :: "Weighting option"

record PartyInfo =
  pti_party_id :: "PartyId option"
  pti_threshold :: "Weighting option"
  pti_members :: "PartyMember list"
  pti_balances :: "CurrencyAmount list"

record GetPartiesInfoResponse =
  gir_party_info :: "PartyInfo list"

record Response =
  rs_response_metadata :: "ResponseMetadata option"
  rs_resolve_hash_response :: "ResolveHashResponse option"
  rs_download_response :: "DownloadResponse option"
  rs_about_node_response :: "AboutNodeResponse option"
  rs_get_peers_info_response :: "GetPeersInfoResponse option"
  rs_node_metadata :: "NodeMetadata option"
  rs_proof :: "Proof option"
  rs_initiate_keygen_response :: "InitiateMultipartyKeygenResponse option"
  rs_initiate_signing_response :: "InitiateMultipartySigningResponse option"
  rs_submit_transaction_response :: "SubmitTransactionResponse option"
  rs_utxo_conflict_resolve_response :: "UtxoConflictResolveResponse option"
  rs_query_observation_proof_response :: "QueryObservationProofResponse option"
  rs_hash_search_response :: "HashSearchResponse option"
  rs_health_response :: "HealthResponse option"
  rs_get_contract_state_marker_response :: "ContractStateMarker option"
  rs_resolve_code_response :: "ResolveCodeResponse option"
  rs_utxo_valid_response :: "UtxoValidResponse option"
  rs_recent_discovery_transactions_response :: "RecentDiscoveryTransactionsResponse option"
  rs_lookup_transaction_response :: "Transaction option"
  rs_recent_transaction_and_observation_response :: "TransactionAndObservations list"
  rs_genesis_response :: "Transaction option"
  rs_faucet_response :: "FaucetResponse option"
  rs_get_parties_info_response :: "GetPartiesInfoResponse option"

text \<open>The result type of the crate, \<open>RgResult\<close>.\<close>

type_synonym 'a rg_result = "('a, ErrorInfo) result"

end
