(* ===== verification/Externals.thy ===== *)
theory Externals
  imports Structs
begin

text \<open>
  Code that the repository calls but does not contain: the \<open>sha3\<close>, \<open>hex\<close>, \<open>prost\<close>,
  \<open>secp256k1\<close>, \<open>bdk\<close>, \<open>sqlx\<close>, \<open>extism\<close> and \<open>serde_json\<close> crates, and the process environment an error
  captures (backtrace and task-local map).  They are the fields of one record,
  which the definitions of the development take as their argument \<open>x\<close>; nothing is
  assumed about them beyond their types.  A digest of the \<open>sha3\<close> crate is a fixed
  array, hence a word; a library key, message or signature is an opaque value.
  What a property needs of these functions it states as one of the named laws
  at the end of this theory, and \<open>sample_ext\<close> shows that the laws can hold.
\<close>

datatype lib_secret_key = LibSecretKey bytes
datatype lib_public_key = LibPublicKey bytes
datatype lib_message = LibMessage bytes
datatype lib_signature = LibSignature bytes
datatype lib_plugin = LibPlugin bytes

record externals =
  sha3_256 :: "bytes \<Rightarrow> 256 word"
  sha3_224 :: "bytes \<Rightarrow> 224 word"
  hex_encode :: "bytes \<Rightarrow> string"
  hex_decode :: "string \<Rightarrow> string + bytes"
  backtrace :: string
  task_local_vars :: "(string \<times> string) list"
  enc_transaction :: "Transaction \<Rightarrow> bytes"
  dec_transaction :: "bytes \<Rightarrow> string + Transaction"
  enc_output :: "Output \<Rightarrow> bytes"
  dec_output :: "bytes \<Rightarrow> string + Output"
  enc_utxo_entry :: "UtxoEntry \<Rightarrow> bytes"
  dec_utxo_entry :: "bytes \<Rightarrow> string + UtxoEntry"
  dec_error_info :: "bytes \<Rightarrow> string + ErrorInfo"
  enc_bytes_data :: "BytesData \<Rightarrow> bytes"
  enc_state_selector :: "StateSelector \<Rightarrow> bytes"
  enc_observation_metadata :: "ObservationMetadata \<Rightarrow> bytes"
  enc_contention_key :: "ContentionKey \<Rightarrow> bytes"
  enc_contract_state_marker :: "ContractStateMarker \<Rightarrow> bytes"
  dec_contract_state_marker :: "bytes \<Rightarrow> string + ContractStateMarker"
  enc_block :: "Block \<Rightarrow> bytes"
  dec_block :: "bytes \<Rightarrow> string + Block"
  enc_proof :: "Proof \<Rightarrow> bytes"
  dec_proof :: "bytes \<Rightarrow> string + Proof"
  enc_merkle_proof :: "MerkleProof \<Rightarrow> bytes"
  dec_merkle_proof :: "bytes \<Rightarrow> string + MerkleProof"
  dec_observation_metadata :: "bytes \<Rightarrow> string + ObservationMetadata"
  enc_observation_proof :: "ObservationProof \<Rightarrow> bytes"
  dec_observation_proof :: "bytes \<Rightarrow> string + ObservationProof"
  enc_dynamic_node_metadata :: "DynamicNodeMetadata \<Rightarrow> bytes"
  dec_dynamic_node_metadata :: "bytes \<Rightarrow> string + DynamicNodeMetadata"
  enc_initiate_keygen :: "InitiateMultipartyKeygenRequest \<Rightarrow> bytes"
  dec_initiate_keygen :: "bytes \<Rightarrow> string + InitiateMultipartyKeygenRequest"
  enc_initiate_signing :: "InitiateMultipartySigningRequest \<Rightarrow> bytes"
  json_initiate_keygen :: "InitiateMultipartyKeygenRequest \<Rightarrow> string + string"
  json_public_key :: "PublicKey \<Rightarrow> string + string"
  enc_execution_input :: "ExecutionInput \<Rightarrow> bytes"
  dec_execution_result :: "bytes \<Rightarrow> string + ExecutionResult"
  extism_plugin_new :: "bytes \<Rightarrow> string + lib_plugin"
  extism_has_function :: "lib_plugin \<Rightarrow> string \<Rightarrow> bool"
  extism_call :: "lib_plugin \<Rightarrow> string \<Rightarrow> bytes \<Rightarrow> string + bytes"
  sql_unique_error :: "string \<Rightarrow> string"
  sql_decode_error :: "string \<Rightarrow> string"
  json_input :: "Input \<Rightarrow> string + string"
  json_transaction :: "Transaction \<Rightarrow> string + string"
  json_error_info :: "ErrorInfo \<Rightarrow> string + string"
  json_hash :: "Hash \<Rightarrow> string + string"
  json_observation :: "Observation \<Rightarrow> string + string"
  enc_request :: "Request \<Rightarrow> bytes"
  enc_response :: "Response \<Rightarrow> bytes"
  json_request :: "Request \<Rightarrow> string + string"
  json_response :: "Response \<Rightarrow> string + string"
  json_opt_public_key :: "PublicKey option \<Rightarrow> string + string"
  json_state :: "State \<Rightarrow> string + string"
  json_peer_node_info :: "PeerNodeInfo \<Rightarrow> string + string"
  lib_msg_from_slice :: "bytes \<Rightarrow> string + lib_message"
  lib_sig_from_compact :: "bytes \<Rightarrow> string + lib_signature"
  lib_sig_serialize_compact :: "lib_signature \<Rightarrow> 512 word"
  lib_pk_from_slice :: "bytes \<Rightarrow> string + lib_public_key"
  lib_pk_serialize :: "lib_public_key \<Rightarrow> 264 word"
  lib_sign :: "lib_message \<Rightarrow> lib_secret_key \<Rightarrow> lib_signature"
  lib_verify :: "lib_message \<Rightarrow> lib_signature \<Rightarrow> lib_public_key \<Rightarrow> string + unit"
  btc_signed_msg_hash :: "string \<Rightarrow> 256 word"
  btc_key_from_slice :: "bytes \<Rightarrow> string + lib_public_key"
  btc_p2wpkh :: "lib_public_key \<Rightarrow> bool \<Rightarrow> string + string"

text \<open>Results of library calls, with the library's error text mapped by the caller.\<close>

definition lib_result :: "(string \<Rightarrow> 'e) \<Rightarrow> string + 'a \<Rightarrow> ('a, 'e) result" where
  "lib_result g s = (case s of Inl m \<Rightarrow> Err (g m) | Inr v \<Rightarrow> Ok v)"

lemma lib_result_eq_Ok [result_simps]: "lib_result g s = Ok v \<longleftrightarrow> s = Inr v"
  by (auto simp: lib_result_def split: sum.splits)

lemma lib_result_Inr [simp]: "lib_result g (Inr v) = Ok v"
  by (simp add: lib_result_def)

lemma lib_result_Inl [simp]: "lib_result g (Inl m) = Err (g m)"
  by (simp add: lib_result_def)

lemma lib_result_not_Panic [simp]: "lib_result g s \<noteq> Panic m" "\<not> is_panic (lib_result g s)"
  by (auto simp: lib_result_def split: sum.splits)

section \<open>Documented behaviour of the libraries\<close>

text \<open>\<open>hex::decode\<close> inverts \<open>hex::encode\<close>.\<close>

definition hex_law :: "externals \<Rightarrow> bool" where
  "hex_law x \<longleftrightarrow> (\<forall>bs. hex_decode x (hex_encode x bs) = Inr bs)"

text \<open>\<open>secp256k1\<close>: 32-byte messages are accepted, keys and compact signatures parse back,
  and a signature made with a secret key verifies under its public key.\<close>

definition secp_law :: "externals \<Rightarrow> lib_secret_key \<Rightarrow> lib_public_key \<Rightarrow> bool" where
  "secp_law x sk pk \<longleftrightarrow>
     (\<forall>bs. length bs = 32 \<longrightarrow> (\<exists>m. lib_msg_from_slice x bs = Inr m)) \<and>
     (\<forall>m. lib_sig_from_compact x (digest_to_vec 64 (lib_sig_serialize_compact x (lib_sign x m sk))) =
            Inr (lib_sign x m sk)) \<and>
     lib_pk_from_slice x (digest_to_vec 33 (lib_pk_serialize x pk)) = Inr pk \<and>
     (\<forall>m. lib_verify x m (lib_sign x m sk) pk = Inr ())"

text \<open>\<open>prost\<close>: decoding the encoding of a message gives the message back.\<close>

definition transaction_codec_law :: "externals \<Rightarrow> Transaction \<Rightarrow> bool" where
  "transaction_codec_law x t \<longleftrightarrow> dec_transaction x (enc_transaction x t) = Inr t"

definition utxo_codec_law :: "externals \<Rightarrow> UtxoEntry \<Rightarrow> bool" where
  "utxo_codec_law x u \<longleftrightarrow> dec_utxo_entry x (enc_utxo_entry x u) = Inr u"

section \<open>A concrete instance\<close>

text \<open>
  Simple computable functions for the witnesses: hexadecimal digits, a
  positional digest, a signature scheme whose signature carries the message.
\<close>

definition sample_hex_digit :: "nat \<Rightarrow> char" where
  "sample_hex_digit n = char_of (if n < 10 then 48 + n else 87 + n)"

definition sample_hex_value :: "char \<Rightarrow> nat option" where
  "sample_hex_value c = (let n = of_char c in
     if 48 \<le> n \<and> n < 58 then Some (n - 48) else if 97 \<le> n \<and> n < 103 then Some (n - 87) else None)"

definition sample_hex_encode :: "bytes \<Rightarrow> string" where
  "sample_hex_encode bs = concat (map (\<lambda>b. [sample_hex_digit (unat b div 16), sample_hex_digit (unat b mod 16)]) bs)"

fun sample_hex_decode :: "string \<Rightarrow> string + bytes" where
  "sample_hex_decode [] = Inr []"
| "sample_hex_decode [c] = Inl ''Odd number of digits''"
| "sample_hex_decode (c # d # cs) =
    (case (sample_hex_value c, sample_hex_value d, sample_hex_decode cs) of
       (Some h, Some l, Inr bs) \<Rightarrow> Inr (word_of_nat (16 * h + l) # bs)
     | _ \<Rightarrow> Inl ''Invalid character'')"

definition sample_ext :: externals where
  "sample_ext = \<lparr>
     sha3_256 = (foldl (\<lambda>w b. 31 * w + ucast b) 17),
     sha3_224 = (foldl (\<lambda>w b. 31 * w + ucast b) 17),
     hex_encode = sample_hex_encode,
     hex_decode = sample_hex_decode,
     backtrace = [],
     task_local_vars = [],
     enc_transaction = (\<lambda>t. [word_of_nat (length (t_inputs t)), word_of_nat (length (t_outputs t))]),
     dec_transaction = (\<lambda>bs. Inl ''sample''),
     enc_output = (\<lambda>_. []),
     dec_output = (\<lambda>bs. Inl ''sample''),
     enc_utxo_entry = (\<lambda>_. []),
     dec_utxo_entry = (\<lambda>bs. Inl ''sample''),
     dec_error_info = (\<lambda>bs. Inl ''sample''),
     enc_bytes_data = bd_value,
     enc_state_selector = (\<lambda>_. []),
     enc_observation_metadata = (\<lambda>m. [ucast (om_state m)]),
     enc_contention_key = (\<lambda>_. []),
     enc_contract_state_marker = (\<lambda>m. to_le_bytes (csm_nonce m)),
     dec_contract_state_marker = (\<lambda>bs. Inl ''sample''),
     enc_block = (\<lambda>b. to_le_bytes (b_height b)),
     dec_block = (\<lambda>bs. Inl ''sample''),
     enc_proof = (\<lambda>_. []),
     dec_proof = (\<lambda>bs. Inl ''sample''),
     enc_merkle_proof = (\<lambda>_. []),
     dec_merkle_proof = (\<lambda>bs. Inl ''sample''),
     dec_observation_metadata = (\<lambda>bs. Inl ''sample''),
     enc_observation_proof = (\<lambda>_. []),
     dec_observation_proof = (\<lambda>bs. Inl ''sample''),
     enc_dynamic_node_metadata = (\<lambda>m. to_le_bytes (dnm_sequence m)),
     dec_dynamic_node_metadata = (\<lambda>bs. Inl ''sample''),
     enc_initiate_keygen = (\<lambda>_. []),
     dec_initiate_keygen = (\<lambda>bs. Inl ''sample''),
     enc_initiate_signing = (\<lambda>_. []),
     json_initiate_keygen = (\<lambda>_. Inr []),
     json_public_key = (\<lambda>_. Inr []),
     enc_execution_input = (\<lambda>_. []),
     dec_execution_result = (\<lambda>bs. Inr \<lparr> xr_valid = True, xr_result_metadata = None,
       xr_data = Some (set_sd_state (Some \<lparr> bd_value = bs, bd_decoder = 0, bd_version = 0 \<rparr>) standard_data_default) \<rparr>),
     extism_plugin_new = (\<lambda>bs. Inr (LibPlugin bs)),
     extism_has_function = (\<lambda>p f. True),
     extism_call = (\<lambda>p f bs. Inr bs),
     sql_unique_error = (\<lambda>t. ''UNIQUE constraint failed''),
     sql_decode_error = (\<lambda>t. ''unexpected null''),
     json_input = (\<lambda>_. Inr []),
     json_transaction = (\<lambda>_. Inr []),
     json_error_info = (\<lambda>_. Inr []),
     json_hash = (\<lambda>_. Inr []),
     json_observation = (\<lambda>_. Inr []),
     enc_request = (\<lambda>_. []),
     enc_response = (\<lambda>_. []),
     json_request = (\<lambda>_. Inr []),
     json_response = (\<lambda>_. Inr []),
     json_opt_public_key = (\<lambda>_. Inr []),
     json_state = (\<lambda>_. Inr []),
     json_peer_node_info = (\<lambda>_. Inr []),
     lib_msg_from_slice = (\<lambda>bs. if length bs = 32 then Inr (LibMessage bs) else Inl ''malformed''),
     lib_sig_from_compact = (\<lambda>bs. Inr (LibSignature [])),
     lib_sig_serialize_compact = (\<lambda>_. 7),
     lib_pk_from_slice = (\<lambda>bs. Inr (LibPublicKey [])),
     lib_pk_serialize = (\<lambda>_. 3),
     lib_sign = (\<lambda>m k. LibSignature []),
     lib_verify = (\<lambda>m s k. Inr ()),
     btc_signed_msg_hash = (\<lambda>_. 0),
     btc_key_from_slice = (\<lambda>bs. Inr (LibPublicKey bs)),
     btc_p2wpkh = (\<lambda>k n. Inr ''bc1'') \<rparr>"

lemma sample_secp_law: "secp_law sample_ext (LibSecretKey []) (LibPublicKey [])"
  by (simp add: secp_law_def sample_ext_def)

lemma sample_hex_value_digit: "n < 16 \<Longrightarrow> sample_hex_value (sample_hex_digit n) = Some n"
  by (auto simp: sample_hex_value_def sample_hex_digit_def Let_def)

lemma sample_hex_round_trip: "sample_hex_decode (sample_hex_encode bs) = Inr bs"
proof (induction bs)
  case (Cons b bs)
  have "unat b < 256" by (rule unat_u8_less)
  then have "unat b div 16 < 16" "unat b mod 16 < 16" by auto
  moreover have "(word_of_nat (16 * (unat b div 16) + unat b mod 16) :: u8) = b"
    by (simp only: mult_div_mod_eq) simp
  ultimately show ?case
    using Cons by (simp add: sample_hex_encode_def sample_hex_value_digit)
qed (simp add: sample_hex_encode_def)

lemma sample_hex_law: "hex_law sample_ext"
  by (simp add: hex_law_def sample_ext_def sample_hex_round_trip)

end
