(* ===== verification/Schema_Lib.thy ===== *)
theory Schema_Lib
  imports Externals
begin

text \<open>
  The helpers of \<open>schema/src/lib.rs\<close>, \<open>schema/src/errors.rs\<close>,
  \<open>schema/src/constants.rs\<close> and \<open>schema/src/public_key.rs\<close> that every component
  uses: construction of errors (with the captured backtrace cut to its first
  lines and the task-local map copied into the details), access to optional
  fields, the byte accessors, and the network environments.
\<close>

section \<open>Constants\<close>

definition DECIMAL_MULTIPLIER :: i64 where "DECIMAL_MULTIPLIER = 100000000"
definition MAX_COIN_SUPPLY :: i64 where "MAX_COIN_SUPPLY = 10000000"
definition MAX_INPUTS_OUTPUTS :: u32 where "MAX_INPUTS_OUTPUTS = 5000"
definition MIN_FEE_RAW :: i64 where "MIN_FEE_RAW = 1000000"
definition MAX_TRANSACTION_MESSAGE_SIZE :: nat where "MAX_TRANSACTION_MESSAGE_SIZE = 40"

section \<open>Errors\<close>

definition slice_vec_eager :: "'a list \<Rightarrow> nat \<Rightarrow> nat \<Rightarrow> 'a list" where
  "slice_vec_eager vec start end' =
     map snd (filter (\<lambda>(i, v). start \<le> i \<and> i \<le> end') (zip [0..<length vec] vec))"

definition split_to_str :: "string \<Rightarrow> string \<Rightarrow> string list" where
  "split_to_str vec splitter = str_split splitter vec"

definition newline :: string where
  "newline = [CHR 0x0A]"

definition error_msg :: "externals \<Rightarrow> Error \<Rightarrow> string \<Rightarrow> string \<Rightarrow> ErrorInfo" where
  "error_msg x code message lib_message =
     (let stacktrace_abridged = split_to_str (backtrace x) newline;
          stack = join newline (slice_vec_eager stacktrace_abridged 0 50);
          details = map (\<lambda>(k, v). \<lparr> ed_detail_name = k, ed_detail = v \<rparr>) (task_local_vars x)
      in \<lparr> ei_code = error_i32 code, ei_description = [], ei_description_extended = [],
           ei_message = message, ei_details = details, ei_retriable = False,
           ei_stacktrace = stack, ei_lib_message = lib_message, ei_abort = False \<rparr>)"

definition error_message :: "externals \<Rightarrow> Error \<Rightarrow> string \<Rightarrow> ErrorInfo" where
  "error_message x code message = error_msg x code message []"

definition error_info :: "externals \<Rightarrow> string \<Rightarrow> ErrorInfo" where
  "error_info x message = error_message x UnknownError message"

definition error_code :: "externals \<Rightarrow> Error \<Rightarrow> ErrorInfo" where
  "error_code x code = error_message x code []"

text \<open>\<open>ErrorInfoContext\<close> on a library result: the context and the library's text.\<close>

definition result_error_info :: "externals \<Rightarrow> string \<Rightarrow> string + 'a \<Rightarrow> 'a rg_result" where
  "result_error_info x context r = lib_result (error_msg x UnknownError context) r"

definition result_error_msg :: "externals \<Rightarrow> Error \<Rightarrow> string \<Rightarrow> string + 'a \<Rightarrow> 'a rg_result" where
  "result_error_msg x code context r = lib_result (error_msg x code context) r"

text \<open>\<open>errors.rs\<close>\<close>

definition error_response_metadata :: "ErrorInfo \<Rightarrow> ResponseMetadata" where
  "error_response_metadata e = \<lparr> rm_success = False, rm_error_info = Some e,
     rm_task_local_details = [], rm_request_id = None, rm_trace_id = None \<rparr>"

definition enhance :: "string \<Rightarrow> ErrorInfo \<Rightarrow> ErrorInfo" where
  "enhance message e = e \<lparr> ei_message := ei_message e @ '' '' @ message @ '' '' \<rparr>"

definition error_with_detail :: "string \<Rightarrow> string \<Rightarrow> ErrorInfo \<Rightarrow> ErrorInfo" where
  "error_with_detail k v e =
     e \<lparr> ei_details := ei_details e @ [\<lparr> ed_detail_name = k, ed_detail = v \<rparr>] \<rparr>"

definition add :: "string \<Rightarrow> 'a rg_result \<Rightarrow> 'a rg_result" where
  "add message r = map_err (enhance message) r"

definition mark_abort :: "'a rg_result \<Rightarrow> 'a rg_result" where
  "mark_abort r = map_err (\<lambda>e. e \<lparr> ei_abort := True \<rparr>) r"

definition with_detail :: "string \<Rightarrow> string \<Rightarrow> 'a rg_result \<Rightarrow> 'a rg_result" where
  "with_detail k v r = map_err (error_with_detail k v) r"

definition response_metadata :: "ResponseMetadata option" where
  "response_metadata = Some \<lparr> rm_success = True, rm_error_info = None,
     rm_task_local_details = [], rm_request_id = None, rm_trace_id = None \<rparr>"

text \<open>JSON rendering with the fallback text of the source.\<close>

definition json :: "externals \<Rightarrow> string + string \<Rightarrow> string rg_result" where
  "json x r = lib_result (\<lambda>e. error_info x (''serde json ser error: '' @ e)) r"

definition json_or :: "externals \<Rightarrow> string + string \<Rightarrow> string" where
  "json_or x r = (case json x r of Ok s \<Rightarrow> s | _ \<Rightarrow> ''json ser failure of error'')"

section \<open>Optional fields\<close>

definition safe_get :: "externals \<Rightarrow> 'a option \<Rightarrow> 'a rg_result" where
  "safe_get x v = ok_or v (error_message x MissingField ''unspecified optional value'')"

definition safe_get_msg :: "externals \<Rightarrow> string \<Rightarrow> 'a option \<Rightarrow> 'a rg_result" where
  "safe_get_msg x msg v = ok_or v (error_message x MissingField (msg @ '' option empty''))"

definition ok_msg :: "externals \<Rightarrow> string \<Rightarrow> 'a option \<Rightarrow> 'a rg_result" where
  "ok_msg x err v = (case v of Some a \<Rightarrow> Ok a | None \<Rightarrow> Err (error_info x err))"

section \<open>Bytes\<close>

definition bytes_data_from :: "bytes \<Rightarrow> BytesData" where
  "bytes_data_from data = \<lparr> bd_value = data, bd_decoder = bytes_decoder_standard, bd_version = 0 \<rparr>"

definition bytes_data :: "bytes \<Rightarrow> BytesData option" where
  "bytes_data data = Some (bytes_data_from data)"

definition safe_bytes :: "externals \<Rightarrow> BytesData option \<Rightarrow> bytes rg_result" where
  "safe_bytes x b = and_then (ok_or b (error_message x MissingField ''bytes data'')) (\<lambda>d. Ok (bd_value d))"

definition hash_safe_bytes :: "externals \<Rightarrow> Hash \<Rightarrow> bytes rg_result" where
  "hash_safe_bytes x h = safe_bytes x (h_bytes h)"

definition opt_hash_safe_bytes :: "externals \<Rightarrow> Hash option \<Rightarrow> bytes rg_result" where
  "opt_hash_safe_bytes x h =
     and_then (ok_or h (error_message x MissingField ''Missing safe bytes field'')) (hash_safe_bytes x)"

definition opt_address_safe_bytes :: "externals \<Rightarrow> Address option \<Rightarrow> bytes rg_result" where
  "opt_address_safe_bytes x a =
     and_then (ok_or a (error_message x MissingField ''address'')) (\<lambda>v. safe_bytes x (a_address v))"

definition opt_public_key_safe_bytes :: "externals \<Rightarrow> PublicKey option \<Rightarrow> bytes rg_result" where
  "opt_public_key_safe_bytes x p =
     and_then (ok_or p (error_message x MissingField ''Missing public key'')) (\<lambda>v. safe_bytes x (pk_bytes v))"

definition opt_peer_id_safe_bytes :: "externals \<Rightarrow> PeerId option \<Rightarrow> bytes rg_result" where
  "opt_peer_id_safe_bytes x p =
     and_then (ok_or p (error_message x MissingField ''Missing peerid''))
       (\<lambda>v. opt_public_key_safe_bytes x (pid_peer_id v))"

definition from_hex :: "externals \<Rightarrow> string \<Rightarrow> bytes rg_result" where
  "from_hex x hex_value = lib_result (\<lambda>e. error_message x HexDecodeFailure
     (''Error decoding hex string value to bytes: '' @ hex_value @ '' '' @ e)) (hex_decode x hex_value)"

definition hash_display :: "externals \<Rightarrow> Hash \<Rightarrow> string" where
  "hash_display x h = (case hash_safe_bytes x h of Ok b \<Rightarrow> hex_encode x b
                       | _ \<Rightarrow> ''missing hash bytes field'')"

definition proto_deserialize :: "externals \<Rightarrow> (bytes \<Rightarrow> string + 'a) \<Rightarrow> bytes \<Rightarrow> 'a rg_result" where
  "proto_deserialize x dec bs = lib_result (error_message x ProtoDecoderFailure) (dec bs)"

definition signature_data :: "bytes \<Rightarrow> Signature option" where
  "signature_data data = Some \<lparr> sig_bytes = bytes_data data,
     sig_signature_type = signature_type_ecdsa, sig_rsv = None \<rparr>"

text \<open>The last six bytes of a string; slicing inside a multi-byte character panics.\<close>

definition is_char_boundary :: "string \<Rightarrow> nat \<Rightarrow> bool" where
  "is_char_boundary s i \<longleftrightarrow> i = 0 \<or> i = length s \<or>
     (i < length s \<and> \<not> cont (word_of_nat (of_char (s ! i))))"

definition short_string :: "externals \<Rightarrow> string \<Rightarrow> string rg_result" where
  "short_string x s =
     (let start = (word_of_nat (length s) :: i32) - 6 in
      if sint start < 0 then Err (error_info x ''string too short to short_string'')
      else let start = unat start in
        if is_char_boundary s start then Ok (drop start s)
        else Panic ''byte index is not a char boundary'')"

section \<open>Struct metadata\<close>

definition struct_metadata :: "i64 \<Rightarrow> StructMetadata option" where
  "struct_metadata time = Some \<lparr> sm_time = Some time, sm_version = 0, sm_hash = None,
     sm_signable_hash = None, sm_signed_hash = None, sm_counter_party_hash = None,
     sm_confirmation_hash = None \<rparr>"

definition struct_metadata_hash_clear :: "StructMetadata \<Rightarrow> StructMetadata" where
  "struct_metadata_hash_clear s = s \<lparr> sm_hash := None, sm_signable_hash := None,
     sm_signed_hash := None, sm_counter_party_hash := None, sm_confirmation_hash := None \<rparr>"

section \<open>Public keys and peers\<close>

definition public_key_from_bytes :: "bytes \<Rightarrow> PublicKey" where
  "public_key_from_bytes bs = \<lparr> pk_bytes = bytes_data bs, pk_key_type = public_key_type_secp256k1 \<rparr>"

definition public_key_bytes :: "externals \<Rightarrow> PublicKey \<Rightarrow> bytes rg_result" where
  "public_key_bytes x p = safe_bytes x (pk_bytes p)"

definition public_key_hex :: "externals \<Rightarrow> PublicKey \<Rightarrow> string rg_result" where
  "public_key_hex x p = and_then (safe_bytes x (pk_bytes p)) (\<lambda>b. Ok (hex_encode x b))"

definition public_key_hex_or :: "externals \<Rightarrow> PublicKey \<Rightarrow> string" where
  "public_key_hex_or x p = (case public_key_hex x p of Ok s \<Rightarrow> s | _ \<Rightarrow> ''hex error'')"

definition public_key_short_id :: "externals \<Rightarrow> PublicKey \<Rightarrow> string rg_result" where
  "public_key_short_id x p =
     and_then (expect ''hex'' (public_key_hex x p)) (\<lambda>h. expect ''worked'' (short_string x h))"

definition public_key_from_hex :: "externals \<Rightarrow> string \<Rightarrow> PublicKey rg_result" where
  "public_key_from_hex x hex = and_then (from_hex x hex) (\<lambda>b. Ok (public_key_from_bytes b))"

definition public_key_vec :: "externals \<Rightarrow> PublicKey \<Rightarrow> bytes rg_result" where
  "public_key_vec x p = expect [] (public_key_bytes x p)"

definition peer_id_from_bytes :: "bytes \<Rightarrow> PeerId" where
  "peer_id_from_bytes bs = \<lparr> pid_peer_id = Some (public_key_from_bytes bs), pid_known_proof = [] \<rparr>"

definition peer_id_from_hex :: "externals \<Rightarrow> string \<Rightarrow> PeerId rg_result" where
  "peer_id_from_hex x hex = and_then (from_hex x hex) (\<lambda>b. Ok (peer_id_from_bytes b))"

definition peer_id_from_pk :: "PublicKey \<Rightarrow> PeerId" where
  "peer_id_from_pk pk = \<lparr> pid_peer_id = Some pk, pid_known_proof = [] \<rparr>"

definition peer_id_hex_or :: "externals \<Rightarrow> PeerId \<Rightarrow> string" where
  "peer_id_hex_or x p = (case map_option (public_key_hex_or x) (pid_peer_id p) of
     Some s \<Rightarrow> s | None \<Rightarrow> ''missing peer id'')"

definition contract_request :: "Address \<Rightarrow> StateSelector option \<Rightarrow> ContentionKey" where
  "contract_request address selector = \<lparr> ck_utxo_id = None, ck_address = Some address,
     ck_selector = selector, ck_transaction_hash = None \<rparr>"

section \<open>Network environments\<close>

definition network_from_i32 :: "i32 \<Rightarrow> NetworkEnvironment option" where
  "network_from_i32 v = find (\<lambda>n. network_i32 n = v)
     [Main, Test, Dev, Staging, Perf, Integration, Local, Debug, All, Predev]"

definition status_networks :: "NetworkEnvironment list" where
  "status_networks = [Main, Test, Staging, Dev, Predev]"

definition gui_networks :: "NetworkEnvironment list" where
  "gui_networks = [Main, Test, Staging, Dev, Predev]"

definition is_local_debug :: "NetworkEnvironment \<Rightarrow> bool" where
  "is_local_debug n \<longleftrightarrow> n \<in> set [Debug, Local]"

definition is_main_stage_network :: "NetworkEnvironment \<Rightarrow> bool" where
  "is_main_stage_network n \<longleftrightarrow> n \<in> set status_networks"

definition is_all :: "NetworkEnvironment \<Rightarrow> bool" where
  "is_all n \<longleftrightarrow> n = All"

definition is_main :: "NetworkEnvironment \<Rightarrow> bool" where
  "is_main n \<longleftrightarrow> n = Main"

definition default_port_offset :: "NetworkEnvironment \<Rightarrow> 16 word" where
  "default_port_offset n = (case n of
     Main \<Rightarrow> 16180 | Test \<Rightarrow> 16280 | Staging \<Rightarrow> 16380 | Dev \<Rightarrow> 16480 | Predev \<Rightarrow> 16580
   | Perf \<Rightarrow> 16680 | Integration \<Rightarrow> 16780 | Local \<Rightarrow> 16880 | Debug \<Rightarrow> 16980 | All \<Rightarrow> 17080)"

section \<open>Facts\<close>

lemma safe_get_eq_Ok [result_simps]: "safe_get x v = Ok a \<longleftrightarrow> v = Some a"
  by (simp add: safe_get_def result_simps)

lemma safe_get_msg_eq_Ok [result_simps]: "safe_get_msg x m v = Ok a \<longleftrightarrow> v = Some a"
  by (simp add: safe_get_msg_def result_simps)

lemma safe_get_msg_Some [simp]: "safe_get_msg x m (Some a) = Ok a"
  by (simp add: safe_get_msg_def)

lemma safe_get_msg_None [simp]:
  "safe_get_msg x m None = Err (error_message x MissingField (m @ '' option empty''))"
  by (simp add: safe_get_msg_def)

lemma safe_get_Some [simp]: "safe_get x (Some a) = Ok a"
  by (simp add: safe_get_def)

lemma ok_msg_eq_Ok [result_simps]: "ok_msg x m v = Ok a \<longleftrightarrow> v = Some a"
  by (simp add: ok_msg_def split: option.splits)

lemma safe_get_not_panic [simp]:
  "\<not> is_panic (safe_get x v)" "\<not> is_panic (safe_get_msg x m v)" "\<not> is_panic (ok_msg x m v)"
  by (cases v; simp add: safe_get_def safe_get_msg_def ok_msg_def)+

lemma safe_bytes_eq_Ok [result_simps]: "safe_bytes x b = Ok v \<longleftrightarrow> (\<exists>d. b = Some d \<and> v = bd_value d)"
  by (auto simp: safe_bytes_def result_simps)

lemma safe_bytes_not_panic [simp]:
  "\<not> is_panic (safe_bytes x b)" "\<not> is_panic (hash_safe_bytes x h)" "\<not> is_panic (opt_hash_safe_bytes x oh)"
  "\<not> is_panic (opt_address_safe_bytes x a)"
  by (cases b; cases oh; cases a;
      auto simp: safe_bytes_def hash_safe_bytes_def opt_hash_safe_bytes_def opt_address_safe_bytes_def
        result_simps is_panic_iff)+

lemma safe_bytes_bytes_data [simp]: "safe_bytes x (bytes_data bs) = Ok bs"
  by (simp add: safe_bytes_def bytes_data_def bytes_data_from_def)

lemma from_hex_eq_Ok [result_simps]: "from_hex x s = Ok bs \<longleftrightarrow> hex_decode x s = Inr bs"
  by (simp add: from_hex_def result_simps)

lemma hash_clear_metadata_idem [simp]:
  "struct_metadata_hash_clear (struct_metadata_hash_clear s) = struct_metadata_hash_clear s"
  by (simp add: struct_metadata_hash_clear_def)

lemma ei_code_error_message [simp]: "ei_code (error_message x c m) = error_i32 c"
  by (simp add: error_message_def error_msg_def Let_def)

lemma ei_message_error_message [simp]: "ei_message (error_message x c m) = m"
  by (simp add: error_message_def error_msg_def Let_def)

lemma network_from_i32_eq: "network_from_i32 v = Some n \<longleftrightarrow> v = network_i32 n"
  by (cases n; auto simp: network_from_i32_def)

text \<open>The eager slice is the list of the elements at the positions from \<open>start\<close> to \<open>end\<close>.\<close>

lemma filter_enum_from:
  "map snd (filter (\<lambda>(i, v). a \<le> i \<and> i \<le> b) (zip [k..<k + length xs] xs)) =
   take (Suc b - max k a) (drop (a - k) xs)"
proof (induction xs arbitrary: k)
  case (Cons y ys)
  have "[k..<k + length (y # ys)] = k # [Suc k..<Suc k + length ys]"
    by (simp add: upt_rec)
  with Cons [of "Suc k"] show ?case
    by (cases "a \<le> k"; cases "k \<le> b")
       (auto simp: Suc_diff_le max_def take_Cons' drop_Cons' not_le intro!: arg_cong2 [of _ _ _ _ take])
qed simp

lemma slice_vec_eager_take_drop:
  "slice_vec_eager xs a b = take (Suc b - a) (drop a xs)"
  using filter_enum_from [of a b 0 xs] by (simp add: slice_vec_eager_def)

lemma error_i32_inj: "error_i32 a = error_i32 b \<longleftrightarrow> a = b"
  by (cases a; cases b; simp)

end
