(* ===== verification/Hash_Address.thy ===== *)
theory Hash_Address
  imports Schema_Lib "HOL-Library.Signed_Division"
begin

unbundle bit_operations_syntax

text \<open>
  Content hashes (\<open>schema/src/hash.rs\<close>), addresses (\<open>schema/src/address.rs\<close>),
  proofs as data (\<open>schema/src/proof.rs\<close>, \<open>schema/src/input.rs\<close>) and UTXO
  identifiers (\<open>schema/src/transaction.rs\<close>, \<open>schema/src/utxo_id.rs\<close>).  An address
  is the 28-byte SHA3-224 digest of its preimage followed by the first four
  bytes of the SHA3-256 digest of those 28 bytes; a UTXO identifier is the
  transaction hash followed by the output index in eight little-endian bytes.
\<close>

section \<open>Hashes\<close>

definition hash_new :: "bytes \<Rightarrow> Hash" where
  "hash_new vec = \<lparr> h_bytes = bytes_data vec, h_hash_format_type = hash_format_sha3256,
     h_hash_type = hash_type_i32 HT_Transaction \<rparr>"

definition hash_vec :: "externals \<Rightarrow> Hash \<Rightarrow> bytes rg_result" where
  "hash_vec x h = expect ''a'' (hash_safe_bytes x h)"

definition hash_hex :: "externals \<Rightarrow> Hash \<Rightarrow> string rg_result" where
  "hash_hex x h = and_then (hash_vec x h) (\<lambda>v. Ok (hex_encode x v))"

definition validate_size :: "externals \<Rightarrow> Hash \<Rightarrow> Hash rg_result" where
  "validate_size x h = and_then (hash_safe_bytes x h) (\<lambda>b.
     if length b = 32 then Ok h else Err (error_info x ''Invalid hash size''))"

definition hash_from_hex :: "externals \<Rightarrow> string \<Rightarrow> Hash rg_result" where
  "hash_from_hex x s = and_then (from_hex x s) (\<lambda>b.
     let hash = hash_new b in and_then (validate_size x hash) (\<lambda>_. Ok hash))"

definition digest :: "externals \<Rightarrow> bytes \<Rightarrow> Hash" where
  "digest x s = hash_new (digest_to_vec 32 (sha3_256 x s))"

definition from_string_calculate :: "externals \<Rightarrow> string \<Rightarrow> Hash" where
  "from_string_calculate x s = digest x (into_bytes s)"

definition div_mod :: "externals \<Rightarrow> Hash \<Rightarrow> nat \<Rightarrow> i64 rg_result" where
  "div_mod x h bucket = and_then (hash_vec x h) (\<lambda>v.
     let s = sum_list (map (\<lambda>i. (ucast i :: i64)) v); b = (word_of_nat bucket :: i64) in
     if b = 0 then Panic ''attempt to calculate the remainder with a divisor of zero''
     else Ok (word_of_int (sint s smod sint b)))"

definition merkle_combine :: "externals \<Rightarrow> Hash \<Rightarrow> Hash \<Rightarrow> Hash rg_result" where
  "merkle_combine x left right =
     and_then (hash_vec x left) (\<lambda>vec. and_then (hash_vec x right) (\<lambda>r. Ok (digest x (vec @ r))))"

definition checksum :: "externals \<Rightarrow> Hash \<Rightarrow> bytes rg_result" where
  "checksum x h = and_then (hash_safe_bytes x h) (\<lambda>b. slice b 0 4)"

definition checksum_hex :: "externals \<Rightarrow> Hash \<Rightarrow> string rg_result" where
  "checksum_hex x h = and_then (checksum x h) (\<lambda>c. Ok (hex_encode x c))"

definition xor_vec :: "externals \<Rightarrow> Hash \<Rightarrow> Hash \<Rightarrow> bytes rg_result" where
  "xor_vec x h other = and_then (hash_safe_bytes x h) (\<lambda>v1. and_then (hash_safe_bytes x other) (\<lambda>v2.
     Ok (map (\<lambda>(x1, x2). x1 XOR x2) (zip v1 v2))))"

definition xor_distance :: "externals \<Rightarrow> Hash \<Rightarrow> Hash \<Rightarrow> u64 rg_result" where
  "xor_distance x h other = and_then (xor_vec x h other) (\<lambda>xor_value.
     Ok (sum_list (map (\<lambda>byte. (ucast byte :: u64)) xor_value)))"

definition new_checksum :: "externals \<Rightarrow> bytes \<Rightarrow> string rg_result" where
  "new_checksum x s = checksum_hex x (digest x s)"

subsection \<open>Facts about hashes\<close>

lemma hash_safe_bytes_new [simp]: "hash_safe_bytes x (hash_new v) = Ok v"
  by (simp add: hash_safe_bytes_def hash_new_def)

lemma hash_vec_new [simp]: "hash_vec x (hash_new v) = Ok v"
  by (simp add: hash_vec_def)

lemma hash_vec_digest [simp]: "hash_vec x (digest x s) = Ok (digest_to_vec 32 (sha3_256 x s))"
  by (simp add: digest_def)

lemma hash_new_inj [simp]: "hash_new a = hash_new b \<longleftrightarrow> a = b"
  by (simp add: hash_new_def bytes_data_def bytes_data_from_def)

text \<open>The bytes of a hash that has them.\<close>

definition vb :: "Hash \<Rightarrow> bytes" where
  "vb h = (case h_bytes h of Some d \<Rightarrow> bd_value d | None \<Rightarrow> [])"

definition has_bytes :: "Hash \<Rightarrow> bool" where
  "has_bytes h \<longleftrightarrow> h_bytes h \<noteq> None"

lemma hash_vec_eq_Ok [result_simps]: "hash_vec x h = Ok v \<longleftrightarrow> has_bytes h \<and> v = vb h"
  by (auto simp: hash_vec_def hash_safe_bytes_def result_simps has_bytes_def vb_def)

lemma hash_vec_vb: "has_bytes h \<Longrightarrow> hash_vec x h = Ok (vb h)"
  by (simp add: result_simps)

lemma has_bytes_new [simp]: "has_bytes (hash_new s)" "has_bytes (digest x s)"
  by (simp_all add: has_bytes_def digest_def hash_new_def bytes_data_def)

lemma vb_new [simp]: "vb (hash_new s) = s"
  by (simp add: vb_def hash_new_def bytes_data_def bytes_data_from_def)

lemma vb_digest [simp]: "vb (digest x s) = digest_to_vec 32 (sha3_256 x s)"
  by (simp add: digest_def)

lemma hash_vec_not_Err [simp]: "hash_vec x h \<noteq> Err e"
  by (simp add: hash_vec_def)

section \<open>Addresses\<close>

definition with_checksum :: "externals \<Rightarrow> bytes \<Rightarrow> bytes rg_result" where
  "with_checksum x bs = and_then (hash_vec x (digest x bs)) (\<lambda>checksum_bytes.
     and_then (slice checksum_bytes 0 4) (\<lambda>c. Ok (bs @ c)))"

definition address_hash :: "externals \<Rightarrow> bytes \<Rightarrow> bytes rg_result" where
  "address_hash x buf = with_checksum x (digest_to_vec 28 (sha3_224 x buf))"

definition new_raw :: "bytes \<Rightarrow> Address" where
  "new_raw address = \<lparr> a_address = bytes_data address,
     a_address_type = address_type_i32 Sha3224ChecksumPublic, a_currency = None \<rparr>"

definition address_data :: "bytes \<Rightarrow> Address option" where
  "address_data address = Some (new_raw address)"

definition verify_length :: "externals \<Rightarrow> Address \<Rightarrow> unit rg_result" where
  "verify_length x a = and_then (safe_bytes x (a_address a)) (\<lambda>b.
     let i = length b in
     if i \<noteq> 32 then Err (error_info x (''Invalid address length: '' @ show_nat i)) else Ok ())"

definition verify_checksum :: "externals \<Rightarrow> Address \<Rightarrow> unit rg_result" where
  "verify_checksum x a = and_then (verify_length x a) (\<lambda>_.
     and_then (safe_bytes x (a_address a)) (\<lambda>bs.
     and_then (slice bs 0 28) (\<lambda>p. and_then (with_checksum x p) (\<lambda>w.
     if w \<noteq> bs then Err (error_info x ''Invalid address checksum bytes'') else Ok ()))))"

definition address_from_bytes :: "externals \<Rightarrow> bytes \<Rightarrow> Address rg_result" where
  "address_from_bytes x bs =
     (let addr = new_raw bs in and_then (verify_checksum x addr) (\<lambda>_. Ok addr))"

definition address_from_hex :: "externals \<Rightarrow> string \<Rightarrow> Address rg_result" where
  "address_from_hex x p0 = and_then (from_hex x p0) (address_from_bytes x)"

definition address_parse :: "externals \<Rightarrow> string \<Rightarrow> Address rg_result" where
  "address_parse x addr = address_from_hex x addr"

definition script_hash :: "externals \<Rightarrow> bytes \<Rightarrow> Address rg_result" where
  "script_hash x input = and_then (address_hash x input) (\<lambda>h. and_then (address_from_bytes x h)
     (\<lambda>new. Ok (new \<lparr> a_address_type := address_type_i32 ScriptHash \<rparr>)))"

definition from_bitcoin :: "string \<Rightarrow> Address" where
  "from_bitcoin address = \<lparr> a_address = bytes_data (into_bytes address),
     a_address_type = address_type_i32 BitcoinExternalString,
     a_currency = Some (currency_i32 Bitcoin) \<rparr>"

definition from_eth :: "string \<Rightarrow> Address" where
  "from_eth address = \<lparr> a_address = bytes_data (into_bytes address),
     a_address_type = address_type_i32 EthereumExternalString,
     a_currency = Some (currency_i32 Ethereum) \<rparr>"

definition is_bitcoin :: "Address \<Rightarrow> bool" where
  "is_bitcoin a \<longleftrightarrow> a_address_type a = address_type_i32 BitcoinExternalString"

definition address_to_str :: "externals \<Rightarrow> bytes \<Rightarrow> string" where
  "address_to_str x a = hex_encode x a"

definition str_to_address :: "externals \<Rightarrow> string \<Rightarrow> bytes rg_result" where
  "str_to_address x s = expect ''hex'' (lib_result (error_info x) (hex_decode x s))"

definition render_string :: "externals \<Rightarrow> Address \<Rightarrow> string rg_result" where
  "render_string x a = and_then (safe_bytes x (a_address a)) (\<lambda>result.
     if a_address_type a = address_type_i32 BitcoinExternalString then
       (case from_utf8 result of
          Some s \<Rightarrow> Ok s
        | None \<Rightarrow> Err (error_msg x UnknownError
            ''Unable to convert bitcoin address bytes to utf8 string'' (utf8_error_text result)))
     else Ok (address_to_str x result))"

definition from_struct_public :: "externals \<Rightarrow> PublicKey \<Rightarrow> Address rg_result" where
  "from_struct_public x pk = and_then (safe_bytes x (pk_bytes pk)) (\<lambda>b.
     and_then (address_hash x b) (address_from_bytes x))"

definition public_key_address :: "externals \<Rightarrow> PublicKey \<Rightarrow> Address rg_result" where
  "public_key_address x pk = from_struct_public x pk"

definition from_utxo_entries :: "Address \<Rightarrow> UtxoEntry list \<Rightarrow> AddressInfo" where
  "from_utxo_entries address entries =
     (let bal = foldl (\<lambda>bal r. case ue_output r of None \<Rightarrow> bal | Some o1 \<Rightarrow>
            (case o_data o1 of None \<Rightarrow> bal | Some d \<Rightarrow>
              (case sd_amount d of None \<Rightarrow> bal | Some a \<Rightarrow> bal + ca_amount a))) 0 entries
      in \<lparr> ai_address = Some address, ai_utxo_entries = entries, ai_balance = bal,
           ai_recent_transactions = [] \<rparr>)"

subsection \<open>Facts about addresses\<close>

lemma with_checksum_eq:
  "with_checksum x bs = Ok (bs @ take 4 (digest_to_vec 32 (sha3_256 x bs)))"
  by (simp add: with_checksum_def slice_def)

lemma address_hash_eq:
  "\<exists>h. address_hash x buf = Ok (digest_to_vec 28 (sha3_224 x buf) @ h) \<and> length h = 4 \<and>
       with_checksum x (digest_to_vec 28 (sha3_224 x buf)) = Ok (digest_to_vec 28 (sha3_224 x buf) @ h)"
  by (simp add: address_hash_def with_checksum_eq)

lemma address_from_bytes_eq_Ok:
  "address_from_bytes x bs = Ok a \<longleftrightarrow>
     a = new_raw bs \<and> length bs = 32 \<and> with_checksum x (take 28 bs) = Ok bs"
  by (auto simp: address_from_bytes_def verify_checksum_def verify_length_def new_raw_def Let_def
      slice_def bytes_data_def bytes_data_from_def result_simps with_checksum_eq split: if_splits)

lemma address_from_bytes_not_panic: "\<not> is_panic (address_from_bytes x bs)"
  by (auto simp: address_from_bytes_def verify_checksum_def verify_length_def new_raw_def Let_def
      slice_def bytes_data_def bytes_data_from_def result_simps with_checksum_eq)

text \<open>Hashing a preimage always gives bytes that the checksum test accepts.\<close>

lemma address_of_hash:
  "and_then (address_hash x buf) (address_from_bytes x) =
     Ok (new_raw (digest_to_vec 28 (sha3_224 x buf) @
                  take 4 (digest_to_vec 32 (sha3_256 x (digest_to_vec 28 (sha3_224 x buf))))))"
  by (simp add: address_hash_def with_checksum_eq address_from_bytes_eq_Ok)

lemma script_hash_eq:
  "\<exists>a. script_hash x code = Ok a \<and> a_address_type a = address_type_i32 ScriptHash"
  using address_of_hash [of x code]
  by (auto simp: script_hash_def result_simps)

section \<open>Proofs as data\<close>

definition proof_public_key_bytes :: "externals \<Rightarrow> Proof \<Rightarrow> bytes rg_result" where
  "proof_public_key_bytes x p =
     and_then (ok_or (pr_public_key p) (error_message x MissingField ''public_key'')) (\<lambda>k.
     and_then (ok_or (pk_bytes k) (error_message x MissingField ''public_key bytes data'')) (\<lambda>b.
     Ok (bd_value b)))"

definition signature_bytes :: "externals \<Rightarrow> Proof \<Rightarrow> bytes rg_result" where
  "signature_bytes x p =
     and_then (ok_or (pr_signature p) (error_message x MissingField ''signature'')) (\<lambda>s.
     and_then (ok_or (sig_bytes s) (error_message x MissingField ''signature bytes data'')) (\<lambda>b.
     Ok (bd_value b)))"

definition signature_hex :: "externals \<Rightarrow> Proof \<Rightarrow> string rg_result" where
  "signature_hex x p = and_then (signature_bytes x p) (\<lambda>b. Ok (hex_encode x b))"

definition proofs_to_address :: "externals \<Rightarrow> Proof list \<Rightarrow> Address rg_result" where
  "proofs_to_address x proofs =
     and_then (try_fold (\<lambda>addresses proof. and_then (proof_public_key_bytes x proof)
                 (\<lambda>b. Ok (addresses @ b))) [] proofs) (\<lambda>addresses.
     and_then (address_hash x addresses) (\<lambda>vec. address_from_bytes x vec))"

definition proof_from :: "PublicKey \<Rightarrow> Signature \<Rightarrow> Proof" where
  "proof_from public_key signature = \<lparr> pr_signature = Some signature, pr_public_key = Some public_key \<rparr>"

definition input_address :: "externals \<Rightarrow> Input \<Rightarrow> Address rg_result" where
  "input_address x i = proofs_to_address x (i_proof i)"

definition input_default :: Input where
  "input_default = \<lparr> i_utxo_id = None, i_proof = [], i_product_id = None, i_output = None,
     i_floating_utxo_id = None, i_input_type = None \<rparr>"

definition predicate_filter :: "Address \<Rightarrow> Input" where
  "predicate_filter address =
     (let a = \<lparr> as_address = Some address, as_requires_output_contract_predicate_match = Some True \<rparr>;
          f = \<lparr> fu_address_selector = Some a \<rparr>
      in input_default \<lparr> i_floating_utxo_id := Some f \<rparr>)"

text \<open>One proof commits to the address of its own public key.\<close>

lemma proofs_to_address_single:
  "proofs_to_address x [p] = and_then (proof_public_key_bytes x p)
     (\<lambda>b. and_then (address_hash x b) (address_from_bytes x))"
  by (simp add: proofs_to_address_def and_then_assoc)

lemma try_fold_no_panic:
  "(\<And>s y. y \<in> set ys \<Longrightarrow> \<not> is_panic (f s y)) \<Longrightarrow> \<not> is_panic (try_fold f s ys)"
  by (induction ys arbitrary: s) (auto simp: result_simps)

lemma proof_public_key_bytes_not_panic [simp]: "\<not> is_panic (proof_public_key_bytes x p)"
  by (auto simp: proof_public_key_bytes_def result_simps is_panic_iff)

lemma proofs_to_address_not_panic [simp]: "\<not> is_panic (proofs_to_address x ps)"
  by (auto simp: proofs_to_address_def result_simps address_from_bytes_not_panic
      address_hash_def with_checksum_eq intro!: try_fold_no_panic)

section \<open>UTXO identifiers\<close>

definition utxo_id_new :: "Hash \<Rightarrow> i64 \<Rightarrow> UtxoId" where
  "utxo_id_new hash output_index = \<lparr> u_transaction_hash = Some hash, u_output_index = output_index \<rparr>"

definition utxo_id_from :: "bytes \<Rightarrow> UtxoId rg_result" where
  "utxo_id_from id' =
     (let len = length id' in
      if len < 8 then Panic ''attempt to subtract with overflow''
      else let split = len - 8 in
        and_then (slice id' split len) (\<lambda>output_id_vec.
        and_then (slice id' 0 split) (\<lambda>transaction_hash.
        Ok \<lparr> u_transaction_hash = Some (hash_new transaction_hash),
             u_output_index = from_le_bytes output_id_vec \<rparr>)))"

definition utxo_id_vec :: "externals \<Rightarrow> UtxoId \<Rightarrow> bytes rg_result" where
  "utxo_id_vec x u =
     (case u_transaction_hash u of
        None \<Rightarrow> Panic ''hash''
      | Some h \<Rightarrow> and_then (hash_vec x h) (\<lambda>v. Ok (v @ to_le_bytes (u_output_index u))))"

definition utxo_id_as_hash :: "externals \<Rightarrow> UtxoId \<Rightarrow> Hash rg_result" where
  "utxo_id_as_hash x u =
     and_then (utxo_id_vec x u) (\<lambda>v. Ok (hash_new v \<lparr> h_hash_type := hash_type_i32 HT_UtxoId \<rparr>))"

definition utxo_id_hex :: "externals \<Rightarrow> UtxoId \<Rightarrow> string rg_result" where
  "utxo_id_hex x u = and_then (utxo_id_vec x u) (\<lambda>v. Ok (hex_encode x v))"

definition utxo_id_format_str :: "externals \<Rightarrow> UtxoId \<Rightarrow> string rg_result" where
  "utxo_id_format_str x u =
     (case u_transaction_hash u of
        None \<Rightarrow> Panic []
      | Some h \<Rightarrow> and_then (hash_hex x h) (\<lambda>s.
          Ok (''UtxoId: '' @ s @ '' output: '' @ show_int (sint (u_output_index u)))))"

record OldUtxoId =
  ou_transaction_hash :: bytes
  ou_output_index :: i64

definition old_utxo_id_from :: "bytes \<Rightarrow> OldUtxoId rg_result" where
  "old_utxo_id_from id' =
     (let len = length id' in
      if len < 8 then Panic ''attempt to subtract with overflow''
      else let split = len - 8 in
        and_then (slice id' split len) (\<lambda>output_id_vec.
        and_then (slice id' 0 split) (\<lambda>transaction_hash.
        Ok \<lparr> ou_transaction_hash = transaction_hash, ou_output_index = from_le_bytes output_id_vec \<rparr>)))"

definition coin_id :: "OldUtxoId \<Rightarrow> bytes" where
  "coin_id u = ou_transaction_hash u @ to_le_bytes (ou_output_index u)"

lemma utxo_id_from_append:
  "length w = 8 \<Longrightarrow> utxo_id_from (v @ w) =
     Ok \<lparr> u_transaction_hash = Some (hash_new v), u_output_index = from_le_bytes w \<rparr>"
  by (simp add: utxo_id_from_def slice_def)

lemma utxo_id_vec_new: "utxo_id_vec x (utxo_id_new (hash_new v) i) = Ok (v @ to_le_bytes i)"
  by (simp add: utxo_id_vec_def utxo_id_new_def)

lemma utxo_id_from_Ok_iff: "is_ok (utxo_id_from bs) \<longleftrightarrow> 8 \<le> length bs"
  by (simp add: utxo_id_from_def slice_def Let_def)

lemma split_last_8:
  "8 \<le> length bs \<Longrightarrow> bs = take (length bs - 8) bs @ drop (length bs - 8) bs \<and>
     length (drop (length bs - 8) bs) = 8"
  by simp

section \<open>Properties\<close>

text \<open>C40: Addresses are well formed by construction: hashing any preimage gives 32 bytes that the
  checksum test accepts, so deriving an address from a public key or from contract code
  never fails, and a single proof yields the address of its public key.\<close>

theorem address_construction_total:
  "\<exists>bs. address_hash x buf = Ok bs \<and> length bs = 32 \<and> address_from_bytes x bs = Ok (new_raw bs) \<and>
     from_struct_public x (public_key_from_bytes buf) = Ok (new_raw bs) \<and>
     script_hash x buf = Ok ((new_raw bs) \<lparr> a_address_type := address_type_i32 ScriptHash \<rparr>) \<and>
     proofs_to_address x [\<lparr> pr_signature = s, pr_public_key = Some (public_key_from_bytes buf) \<rparr>] =
       Ok (new_raw bs)"
proof -
  let ?d = "digest_to_vec 28 (sha3_224 x buf)"
  define bs where "bs = ?d @ take 4 (digest_to_vec 32 (sha3_256 x ?d))"
  have h: "address_hash x buf = Ok bs" by (simp add: address_hash_def with_checksum_eq bs_def)
  have f: "address_from_bytes x bs = Ok (new_raw bs)"
    by (simp add: address_from_bytes_eq_Ok with_checksum_eq bs_def)
  have "proof_public_key_bytes x \<lparr> pr_signature = s, pr_public_key = Some (public_key_from_bytes buf) \<rparr> = Ok buf"
    by (simp add: proof_public_key_bytes_def public_key_from_bytes_def bytes_data_def bytes_data_from_def)
  with h f show ?thesis
    by (simp add: from_struct_public_def public_key_from_bytes_def script_hash_def
        proofs_to_address_single bs_def)
qed

text \<open>C25: Parsing inverts rendering: every address that the byte constructor accepts renders to a
  string which parses back to the same address, and parsing accepts only 32-byte values
  whose last four bytes are the checksum of the first 28.\<close>

theorem address_parse_render:
  assumes "hex_law x" "address_from_bytes x bs = Ok a"
  shows "(\<exists>s. render_string x a = Ok s \<and> address_parse x s = Ok a) \<and>
     length bs = 32 \<and> drop 28 bs = take 4 (digest_to_vec 32 (sha3_256 x (take 28 bs)))"
proof -
  from assms(2) have a: "a = new_raw bs" "length bs = 32" "with_checksum x (take 28 bs) = Ok bs"
    by (simp_all add: address_from_bytes_eq_Ok)
  have "render_string x a = Ok (hex_encode x bs)"
    by (simp add: a(1) render_string_def new_raw_def address_to_str_def)
  moreover have "address_parse x (hex_encode x bs) = Ok a"
    using assms by (simp add: address_parse_def address_from_hex_def from_hex_def hex_law_def)
  ultimately have 1: "\<exists>s. render_string x a = Ok s \<and> address_parse x s = Ok a" by blast
  have "bs = take 28 bs @ take 4 (digest_to_vec 32 (sha3_256 x (take 28 bs)))"
    using a(3) by (simp add: with_checksum_eq)
  then have "drop 28 bs = drop 28 (take 28 bs @ take 4 (digest_to_vec 32 (sha3_256 x (take 28 bs))))"
    by (rule arg_cong)
  with 1 a(2) show ?thesis by simp
qed

theorem address_parse_render_witness:
  "\<exists>bs a s. address_hash sample_ext [1, 2, 3] = Ok bs \<and> address_from_bytes sample_ext bs = Ok a \<and>
     render_string sample_ext a = Ok s \<and> address_parse sample_ext s = Ok a"
proof -
  obtain bs where "address_hash sample_ext [1, 2, 3] = Ok bs" "address_from_bytes sample_ext bs = Ok (new_raw bs)"
    using address_of_hash [of sample_ext "[1, 2, 3]"]
    by (auto simp: result_simps address_from_bytes_eq_Ok)
  with address_parse_render [OF sample_hex_law] show ?thesis by blast
qed

text \<open>UTXO identifiers and their byte form determine each other: encoding and decoding gives
  the identifier back for every hash and index, and every byte string of at least eight
  bytes is the encoding of the identifier it decodes to.\<close>

theorem utxo_id_round_trip:
  "and_then (utxo_id_vec x (utxo_id_new (hash_new v) i)) utxo_id_from = Ok (utxo_id_new (hash_new v) i) \<and>
   (8 \<le> length bs \<longrightarrow> and_then (utxo_id_from bs) (utxo_id_vec x) = Ok bs)"
proof (intro conjI impI)
  show "and_then (utxo_id_vec x (utxo_id_new (hash_new v) i)) utxo_id_from = Ok (utxo_id_new (hash_new v) i)"
    unfolding utxo_id_vec_new by (simp add: utxo_id_from_append utxo_id_new_def)
  assume "8 \<le> length bs"
  from split_last_8 [OF this] obtain v w where "bs = v @ w" "length w = 8" by blast
  then show "and_then (utxo_id_from bs) (utxo_id_vec x) = Ok bs"
    by (simp add: utxo_id_from_append utxo_id_vec_def to_from_le_bytes)
qed

theorem utxo_id_round_trip_witness:
  "and_then (utxo_id_from [1, 2, 0, 0, 0, 0, 0, 0, 0, 7]) (utxo_id_vec sample_ext) =
     Ok [1, 2, 0, 0, 0, 0, 0, 0, 0, 7]"
  using utxo_id_round_trip [of sample_ext _ _ "[1, 2, 0, 0, 0, 0, 0, 0, 0, 7]"] by simp

end
