(* ===== verification/Tx.thy ===== *)
theory Tx
  imports Hash_Address
begin

text \<open>
  Transactions as data: outputs (\<open>schema/src/output.rs\<close>), UTXO entries
  (\<open>schema/src/utxo_entry.rs\<close>), the hashes of a transaction (the generic hashing
  traits of \<open>schema/src/lib.rs\<close> at the type \<open>Transaction\<close>) and the queries of
  \<open>schema/src/transaction.rs\<close>.  Amounts are 64-bit words: the sums wrap, as the
  release build does, and the signed value of an amount is its \<open>sint\<close>.
\<close>

section \<open>Amounts and data\<close>

definition currency_amount_from :: "i64 \<Rightarrow> CurrencyAmount" where
  "currency_amount_from amount = \<lparr> ca_amount = amount, ca_bytes = None, ca_currency = None \<rparr>"

definition currency_amount_from_btc :: "i64 \<Rightarrow> CurrencyAmount" where
  "currency_amount_from_btc amount =
     (currency_amount_from amount) \<lparr> ca_currency := Some (currency_i32 Bitcoin) \<rparr>"

definition currency_amount_from_rdg :: "i64 \<Rightarrow> CurrencyAmount" where
  "currency_amount_from_rdg amount =
     (currency_amount_from amount) \<lparr> ca_currency := Some (currency_i32 Redgold) \<rparr>"

definition amount_to_raw_amount :: "u64 \<Rightarrow> u64 rg_result" where
  "amount_to_raw_amount redgold =
     (if redgold \<le> MAX_COIN_SUPPLY then Ok (redgold * DECIMAL_MULTIPLIER)
      else Panic ''assertion failed: redgold <= MAX_COIN_SUPPLY as u64'')"

definition standard_data_observation :: "Observation \<Rightarrow> StandardData" where
  "standard_data_observation o1 = set_sd_observation (Some o1) standard_data_default"

definition standard_data_peer_data :: "PeerMetadata \<Rightarrow> StandardData option" where
  "standard_data_peer_data pd = Some (set_sd_peer_data (Some pd) standard_data_default)"

definition amount_data :: "u64 \<Rightarrow> StandardData option" where
  "amount_data amount = Some (set_sd_amount (Some (currency_amount_from amount)) standard_data_default)"

section \<open>Outputs\<close>

definition output_default :: Output where
  "output_default = \<lparr> o_address = None, o_product_id = None, o_counter_party_proofs = [],
     o_data = None, o_contract = None, o_output_type = None, o_utxo_id = None \<rparr>"

definition output_new :: "Address \<Rightarrow> i64 \<Rightarrow> Output" where
  "output_new address amount = \<lparr> o_address = Some address, o_product_id = None,
     o_counter_party_proofs = [], o_data = amount_data amount, o_contract = None,
     o_output_type = None, o_utxo_id = None \<rparr>"

definition output_data :: "bytes \<Rightarrow> u64 \<Rightarrow> Output rg_result" where
  "output_data address amount =
     (case address_data address of Some a \<Rightarrow> Ok (output_new a amount) | None \<Rightarrow> Panic [])"

definition tx_output_data :: "Address \<Rightarrow> u64 \<Rightarrow> Output" where
  "tx_output_data address amount = output_new address amount"

definition output_from_data :: "StandardData \<Rightarrow> Output" where
  "output_from_data data = output_default \<lparr> o_data := Some data \<rparr>"

definition is_request :: "Output \<Rightarrow> bool" where
  "is_request o1 \<longleftrightarrow> o_output_type o1 = Some (output_type_i32 RequestCall)"

definition is_deploy :: "Output \<Rightarrow> bool" where
  "is_deploy o1 \<longleftrightarrow> o_output_type o1 = Some (output_type_i32 Deploy)"

definition code :: "Output \<Rightarrow> bytes option" where
  "code o1 = map_option bd_value
     (Option.bind (Option.bind (o_contract o1) oc_code_execution_contract) cec_code)"

definition validate_deploy_code :: "externals \<Rightarrow> Output \<Rightarrow> bytes rg_result" where
  "validate_deploy_code x o1 =
     (let not_deploy = Err (error_info x ''Not a deploy'') in
      if is_deploy o1 then
        (case code o1 of
           None \<Rightarrow> not_deploy
         | Some d \<Rightarrow>
             if d = [] then not_deploy
             else and_then (ok (script_hash x d)) (\<lambda>h. if h = o_address o1 then Ok d else not_deploy))
      else not_deploy)"

definition pay_update_descendents :: "Output \<Rightarrow> bool" where
  "pay_update_descendents o1 =
     (case o_contract o1 of Some c \<Rightarrow> oc_pay_update_descendents c | None \<Rightarrow> False)"

definition request_data :: "externals \<Rightarrow> Output \<Rightarrow> bytes rg_result" where
  "request_data x o1 =
     (if is_request o1 then
        (case Option.bind (o_data o1) sd_request of
           Some d \<Rightarrow> Ok (bd_value d)
         | None \<Rightarrow> Err (error_info x ''Not a request''))
      else Err (error_info x ''Not a request''))"

definition request_selector :: "externals \<Rightarrow> Output \<Rightarrow> StateSelector option rg_result" where
  "request_selector x o1 =
     (if is_request o1 then
        Ok (Option.bind (o_data o1) (\<lambda>d. Option.bind (sd_standard_request d) sr_selector))
      else Err (error_info x ''Not a request''))"

definition request_contention_key :: "externals \<Rightarrow> Output \<Rightarrow> ContentionKey rg_result" where
  "request_contention_key x o1 =
     and_then (safe_get_msg x ''Missing address'' (o_address o1)) (\<lambda>option.
     and_then (request_selector x o1) (\<lambda>sel. Ok (contract_request option sel)))"

definition is_swap :: "Output \<Rightarrow> bool" where
  "is_swap o1 \<longleftrightarrow>
     Option.bind (o_contract o1) oc_standard_contract_type = Some (standard_contract_i32 SC_Swap)"

definition is_peer_data :: "Output \<Rightarrow> bool" where
  "is_peer_data o1 \<longleftrightarrow> Option.bind (o_data o1) sd_peer_data \<noteq> None"

definition is_liquidity :: "Output \<Rightarrow> bool" where
  "is_liquidity o1 \<longleftrightarrow> Option.bind (o_data o1) sd_liquidity_request \<noteq> None"

definition amount_i64 :: "Output \<Rightarrow> i64 rg_result" where
  "amount_i64 o1 =
     (case o_data o1 of
        None \<Rightarrow> Panic ''called `Option::unwrap()` on a `None` value''
      | Some d \<Rightarrow>
          (case sd_amount d of
             None \<Rightarrow> Panic ''called `Option::unwrap()` on a `None` value''
           | Some a \<Rightarrow> Ok (ca_amount a)))"

definition amount :: "Output \<Rightarrow> u64 rg_result" where
  "amount o1 = amount_i64 o1"

definition safe_ensure_amount :: "externals \<Rightarrow> Output \<Rightarrow> i64 rg_result" where
  "safe_ensure_amount x o1 =
     and_then (safe_get_msg x ''Missing data field on output'' (o_data o1)) (\<lambda>d.
     and_then (safe_get_msg x ''Missing amount field on output'' (sd_amount d)) (\<lambda>a. Ok (ca_amount a)))"

definition output_observation :: "externals \<Rightarrow> Output \<Rightarrow> Observation rg_result" where
  "output_observation x o1 =
     and_then (safe_get_msg x ''Missing data field on output'' (o_data o1)) (\<lambda>d.
     safe_get_msg x ''Missing observation field on output'' (sd_observation d))"

definition opt_amount :: "Output \<Rightarrow> i64 option" where
  "opt_amount o1 = map_option ca_amount (Option.bind (o_data o1) sd_amount)"

definition opt_amount_typed :: "Output \<Rightarrow> CurrencyAmount option" where
  "opt_amount_typed o1 = Option.bind (o_data o1) sd_amount"

section \<open>Hashes of a transaction\<close>

definition tx_hash_clear :: "Transaction \<Rightarrow> Transaction" where
  "tx_hash_clear t = t \<lparr> t_inputs := map (\<lambda>i. i \<lparr> i_output := None \<rparr>) (t_inputs t),
     t_struct_metadata := map_option struct_metadata_hash_clear (t_struct_metadata t) \<rparr>"

definition calculate_hash :: "externals \<Rightarrow> Transaction \<Rightarrow> Hash" where
  "calculate_hash x t = digest x (enc_transaction x (tx_hash_clear t))"

definition tx_struct_metadata :: "externals \<Rightarrow> Transaction \<Rightarrow> StructMetadata rg_result" where
  "tx_struct_metadata x t = ok_or (t_struct_metadata t) (error_message x MissingField ''struct_metadata'')"

definition version :: "externals \<Rightarrow> Transaction \<Rightarrow> i32 rg_result" where
  "version x t = and_then (tx_struct_metadata x t) (\<lambda>s. Ok (sm_version s))"

definition time :: "externals \<Rightarrow> Transaction \<Rightarrow> i64 rg_result" where
  "time x t = and_then (safe_get x (t_struct_metadata t)) (\<lambda>s. safe_get x (sm_time s))"

definition hash_or :: "externals \<Rightarrow> Transaction \<Rightarrow> Hash" where
  "hash_or x t = (case Option.bind (t_struct_metadata t) sm_hash of
     Some h \<Rightarrow> h | None \<Rightarrow> calculate_hash x t)"

definition tx_hash_bytes :: "externals \<Rightarrow> Transaction \<Rightarrow> bytes rg_result" where
  "tx_hash_bytes x t = safe_bytes x (h_bytes (hash_or x t))"

definition tx_hash_vec :: "externals \<Rightarrow> Transaction \<Rightarrow> bytes rg_result" where
  "tx_hash_vec x t = expect ''hash bytes missing'' (tx_hash_bytes x t)"

definition tx_hash_hex :: "externals \<Rightarrow> Transaction \<Rightarrow> string rg_result" where
  "tx_hash_hex x t = and_then (safe_bytes x (h_bytes (hash_or x t))) (\<lambda>b. Ok (hex_encode x b))"

definition hash_hex_or_missing :: "externals \<Rightarrow> Transaction \<Rightarrow> string" where
  "hash_hex_or_missing x t = (case tx_hash_hex x t of Ok s \<Rightarrow> s | _ \<Rightarrow> ''missing hash'')"

definition set_hash :: "externals \<Rightarrow> Hash \<Rightarrow> Transaction \<Rightarrow> Transaction rg_result" where
  "set_hash x h t = and_then (tx_struct_metadata x t) (\<lambda>met.
     Ok (t \<lparr> t_struct_metadata := Some (met \<lparr> sm_hash := Some h \<rparr>) \<rparr>))"

definition with_hash :: "externals \<Rightarrow> Transaction \<Rightarrow> Transaction rg_result" where
  "with_hash x t = (let hash = calculate_hash x t in expect ''set'' (set_hash x hash t))"

definition clear_input_proofs :: "Transaction \<Rightarrow> Transaction" where
  "clear_input_proofs t = t \<lparr> t_inputs := map (\<lambda>i. i \<lparr> i_proof := [] \<rparr>) (t_inputs t) \<rparr>"

definition clear_counter_party_proofs :: "Transaction \<Rightarrow> Transaction" where
  "clear_counter_party_proofs t =
     t \<lparr> t_outputs := map (\<lambda>o1. o1 \<lparr> o_counter_party_proofs := [] \<rparr>) (t_outputs t) \<rparr>"

definition clear_confirmation_proofs :: "Transaction \<Rightarrow> Transaction" where
  "clear_confirmation_proofs t = t \<lparr> t_options := map_option (\<lambda>o1.
     o1 \<lparr> to_contract := map_option (\<lambda>c. c \<lparr> tc_confirmation_proofs := [] \<rparr>) (to_contract o1) \<rparr>)
     (t_options t) \<rparr>"

definition signable_hash :: "externals \<Rightarrow> Transaction \<Rightarrow> Hash" where
  "signable_hash x t =
     calculate_hash x (clear_confirmation_proofs (clear_counter_party_proofs (clear_input_proofs t)))"

definition counter_party_hash :: "externals \<Rightarrow> Transaction \<Rightarrow> Hash" where
  "counter_party_hash x t = calculate_hash x (clear_confirmation_proofs (clear_counter_party_proofs t))"

definition confirmation_hash :: "externals \<Rightarrow> Transaction \<Rightarrow> Hash" where
  "confirmation_hash x t = calculate_hash x (clear_confirmation_proofs t)"

definition with_signable_hash :: "externals \<Rightarrow> Transaction \<Rightarrow> Transaction rg_result" where
  "with_signable_hash x t = and_then (tx_struct_metadata x t) (\<lambda>met.
     Ok (t \<lparr> t_struct_metadata := Some (met \<lparr> sm_signable_hash := Some (signable_hash x t) \<rparr>) \<rparr>))"

definition with_hashes :: "externals \<Rightarrow> Transaction \<Rightarrow> Transaction rg_result" where
  "with_hashes x t = and_then (with_hash x t) (\<lambda>t. expect ''signable hash'' (with_signable_hash x t))"

definition add_proof_per_input :: "Proof \<Rightarrow> Transaction \<Rightarrow> Transaction" where
  "add_proof_per_input proof t = t \<lparr> t_inputs := map (\<lambda>i. i \<lparr> i_proof := i_proof i @ [proof] \<rparr>) (t_inputs t) \<rparr>"

section \<open>UTXO entries\<close>

definition from_output_new :: "Output \<Rightarrow> Hash \<Rightarrow> i64 \<Rightarrow> i64 \<Rightarrow> UtxoEntry" where
  "from_output_new output transaction_hash output_index tm =
     \<lparr> ue_utxo_id = Some (utxo_id_new transaction_hash output_index), ue_output = Some output,
       ue_time = tm \<rparr>"

definition output_utxo_entry :: "Output \<Rightarrow> Hash \<Rightarrow> i64 \<Rightarrow> i64 \<Rightarrow> UtxoEntry" where
  "output_utxo_entry output transaction_hash output_index tm =
     from_output_new output transaction_hash output_index tm"

definition from_transaction :: "externals \<Rightarrow> Transaction \<Rightarrow> i64 \<Rightarrow> UtxoEntry list" where
  "from_transaction x t tm = map (\<lambda>(i, output). from_output_new output (hash_or x t) (word_of_nat i) tm)
     (enumerate 0 (t_outputs t))"

definition utxo_entry_address :: "externals \<Rightarrow> UtxoEntry \<Rightarrow> Address rg_result" where
  "utxo_entry_address x u =
     and_then (safe_get_msg x ''Missing address from utxo entry'' (ue_output u)) (\<lambda>o1.
     safe_get_msg x ''Missing address from utxo entry'' (o_address o1))"

definition utxo_entry_utxo_id :: "externals \<Rightarrow> UtxoEntry \<Rightarrow> UtxoId rg_result" where
  "utxo_entry_utxo_id x u = safe_get_msg x ''Missing id from utxo entry'' (ue_utxo_id u)"

definition to_old_utxo_id :: "externals \<Rightarrow> UtxoEntry \<Rightarrow> OldUtxoId rg_result" where
  "to_old_utxo_id x u =
     (case ue_utxo_id u of
        None \<Rightarrow> Panic []
      | Some i \<Rightarrow> and_then (expect [] (opt_hash_safe_bytes x (u_transaction_hash i))) (\<lambda>b.
          Ok \<lparr> ou_transaction_hash = b, ou_output_index = u_output_index i \<rparr>))"

definition utxo_entry_amount :: "UtxoEntry \<Rightarrow> u64 rg_result" where
  "utxo_entry_amount u =
     (case ue_output u of
        None \<Rightarrow> Panic ''called `Option::unwrap()` on a `None` value''
      | Some o1 \<Rightarrow> amount o1)"

definition utxo_entry_opt_amount :: "UtxoEntry \<Rightarrow> CurrencyAmount option" where
  "utxo_entry_opt_amount u = Option.bind (ue_output u) opt_amount_typed"

definition utxo_entry_height :: "externals \<Rightarrow> UtxoEntry \<Rightarrow> i64 rg_result" where
  "utxo_entry_height x u = safe_get_msg x ''Missing height on utxo output''
     (Option.bind (Option.bind (ue_output u) o_data) sd_height)"

definition to_input :: "UtxoEntry \<Rightarrow> Input" where
  "to_input u = input_default \<lparr> i_utxo_id := ue_utxo_id u, i_output := ue_output u \<rparr>"

section \<open>Queries of a transaction\<close>

definition tx_default :: Transaction where
  "tx_default = \<lparr> t_inputs = [], t_outputs = [], t_struct_metadata = None, t_options = None \<rparr>"

definition tx_options_default :: TransactionOptions where
  "tx_options_default = \<lparr> to_salt = None, to_network_type = None, to_key_value_options = [],
     to_data = None, to_contract = None, to_time_sponsor = None, to_is_test = None \<rparr>"

text \<open>The clock and the random salt are arguments.\<close>

definition new_blank :: "i64 \<Rightarrow> i64 \<Rightarrow> Transaction" where
  "new_blank now rnd = tx_default \<lparr> t_struct_metadata := struct_metadata now,
     t_options := Some (tx_options_default \<lparr> to_salt := Some rnd \<rparr>) \<rparr>"

definition tx_options :: "externals \<Rightarrow> Transaction \<Rightarrow> TransactionOptions rg_result" where
  "tx_options x t = safe_get_msg x ''Missing options'' (t_options t)"

definition validate_network :: "externals \<Rightarrow> NetworkEnvironment \<Rightarrow> Transaction \<Rightarrow> unit rg_result" where
  "validate_network x network t =
     and_then (tx_options x t) (\<lambda>opts.
     and_then (safe_get_msg x ''Missing network type'' (to_network_type opts)) (\<lambda>net.
     and_then (safe_get_msg x ''Invalid network type'' (network_from_i32 net)) (\<lambda>net.
     if net \<noteq> network then Err (error_info x ''Invalid network type'') else Ok ())))"

definition is_test :: "Transaction \<Rightarrow> bool" where
  "is_test t = (case Option.bind (t_options t) to_is_test of Some b \<Rightarrow> b | None \<Rightarrow> False)"

definition salt :: "externals \<Rightarrow> Transaction \<Rightarrow> i64 rg_result" where
  "salt x t = and_then (tx_options x t) (\<lambda>o1. safe_get_msg x ''Missing salt'' (to_salt o1))"

definition height :: "externals \<Rightarrow> Transaction \<Rightarrow> i64 rg_result" where
  "height x t = safe_get_msg x ''Missing height''
     (Option.bind (Option.bind (Option.bind (t_options t) to_data) tdat_standard_data) sd_height)"

definition input_of :: "UtxoId \<Rightarrow> Transaction \<Rightarrow> Input option" where
  "input_of f t = find (\<lambda>i. i_utxo_id i = Some f) (t_inputs t)"

definition observation_output_index :: "externals \<Rightarrow> Transaction \<Rightarrow> i64 rg_result" where
  "observation_output_index x t =
     ok_or (map_option (\<lambda>o1. word_of_nat (fst o1))
              (find (\<lambda>(i, o1). is_ok (output_observation x o1)) (enumerate 0 (t_outputs t))))
       (error_info x ''Missing observation output'')"

definition observation_as_utxo_id :: "externals \<Rightarrow> Transaction \<Rightarrow> UtxoId rg_result" where
  "observation_as_utxo_id x t = and_then (observation_output_index x t) (\<lambda>o1.
     Ok \<lparr> u_transaction_hash = Some (hash_or x t), u_output_index = o1 \<rparr>)"

definition get :: "'a list \<Rightarrow> nat \<Rightarrow> 'a option" where
  "get xs i = (if i < length xs then Some (xs ! i) else None)"

definition observation_output :: "externals \<Rightarrow> Transaction \<Rightarrow> Output rg_result" where
  "observation_output x t = and_then (observation_output_index x t) (\<lambda>o1.
     safe_get_msg x ''Missing observation output'' (get (t_outputs t) (unat o1)))"

definition observation_output_as :: "externals \<Rightarrow> Transaction \<Rightarrow> UtxoEntry rg_result" where
  "observation_output_as x t =
     and_then (observation_output_index x t) (\<lambda>idx.
     and_then (observation_output x t) (\<lambda>o1.
     and_then (time x t) (\<lambda>tm. Ok (output_utxo_entry o1 (hash_or x t) idx tm))))"

definition observation :: "externals \<Rightarrow> Transaction \<Rightarrow> Observation rg_result" where
  "observation x t =
     ok_or (case List.map_filter (\<lambda>o1. case output_observation x o1 of Ok b \<Rightarrow> Some b | _ \<Rightarrow> None) (t_outputs t)
            of [] \<Rightarrow> None | b # _ \<Rightarrow> Some b)
       (error_info x ''Missing observation'')"

definition observation_proof :: "externals \<Rightarrow> Transaction \<Rightarrow> Proof rg_result" where
  "observation_proof x t =
     and_then (observation x t) (\<lambda>o1.
     and_then (safe_get_msg x ''Missing parent id'' (ob_parent_id o1)) (\<lambda>p.
     and_then (safe_get_msg x ''Missing input'' (input_of p t)) (\<lambda>input.
     safe_get_msg x ''Missing input proof'' (get (i_proof input) 0))))"

definition observation_public_key :: "externals \<Rightarrow> Transaction \<Rightarrow> PublicKey rg_result" where
  "observation_public_key x t = and_then (observation_proof x t) (\<lambda>p.
     safe_get_msg x ''Missing public key'' (pr_public_key p))"

definition iter_utxo_outputs :: "externals \<Rightarrow> Transaction \<Rightarrow> (bytes \<times> i64) list rg_result" where
  "iter_utxo_outputs x t =
     try_map (\<lambda>(i, _). and_then (tx_hash_vec x t) (\<lambda>h. Ok (h, word_of_nat i))) (enumerate 0 (t_outputs t))"

definition iter_utxo_inputs :: "externals \<Rightarrow> Transaction \<Rightarrow> (bytes \<times> i64) list rg_result" where
  "iter_utxo_inputs x t =
     try_map (\<lambda>y. and_then (expect ''a'' (opt_hash_safe_bytes x (u_transaction_hash y)))
                   (\<lambda>h. Ok (h, u_output_index y))) (List.map_filter i_utxo_id (t_inputs t))"

definition fixed_utxo_ids_of_inputs :: "Transaction \<Rightarrow> UtxoId list rg_result" where
  "fixed_utxo_ids_of_inputs t = Ok (foldl (\<lambda>utxo_ids input.
     case i_utxo_id input of Some f \<Rightarrow> utxo_ids @ [f] | None \<Rightarrow> utxo_ids) [] (t_inputs t))"

definition input_addresses :: "externals \<Rightarrow> Transaction \<Rightarrow> Address list" where
  "input_addresses x t =
     List.map_filter (\<lambda>i. case input_address x i of Ok a \<Rightarrow> Some a | _ \<Rightarrow> None) (t_inputs t)"

definition input_address_set :: "externals \<Rightarrow> Transaction \<Rightarrow> Address set" where
  "input_address_set x t = set (input_addresses x t)"

definition output_amount_map :: "Transaction \<Rightarrow> (Address \<rightharpoonup> i64)" where
  "output_amount_map t = foldl (\<lambda>acc (ad, a). acc(ad \<mapsto> (case acc ad of Some v \<Rightarrow> v | None \<Rightarrow> 0) + a))
     Map.empty
     (List.map_filter (\<lambda>o1. Option.bind (o_address o1) (\<lambda>ad. map_option (\<lambda>a. (ad, a)) (opt_amount o1)))
       (t_outputs t))"

definition non_remainder_amount :: "externals \<Rightarrow> Transaction \<Rightarrow> i64" where
  "non_remainder_amount x t = (let inputs = input_address_set x t in
     sum_list (List.map_filter (\<lambda>o1. case o_address o1 of
         None \<Rightarrow> None | Some a \<Rightarrow> if a \<notin> inputs then opt_amount o1 else None) (t_outputs t)))"

definition output_external_txids :: "Transaction \<Rightarrow> ExternalTransactionId list" where
  "output_external_txids t =
     List.map_filter sd_external_transaction_id (List.map_filter o_data (t_outputs t))"

definition first_output_external_txid :: "Transaction \<Rightarrow> ExternalTransactionId option" where
  "first_output_external_txid t = (case output_external_txids t of [] \<Rightarrow> None | e # _ \<Rightarrow> Some e)"

definition output_amount_of :: "Address \<Rightarrow> Transaction \<Rightarrow> i64" where
  "output_amount_of address t = sum_list (List.map_filter (\<lambda>o1. case o_address o1 of
       None \<Rightarrow> None | Some a \<Rightarrow> if a = address then opt_amount o1 else None) (t_outputs t))"

definition output_of :: "Address \<Rightarrow> Transaction \<Rightarrow> Output list" where
  "output_of address t = filter (\<lambda>o1. o_address o1 = Some address) (t_outputs t)"

definition output_swap_amount_of :: "Address \<Rightarrow> Transaction \<Rightarrow> i64" where
  "output_swap_amount_of address t = sum_list (List.map_filter (\<lambda>o1.
     if is_swap o1 then (case o_address o1 of
       None \<Rightarrow> None | Some a \<Rightarrow> if a = address then opt_amount o1 else None) else None) (t_outputs t))"

definition has_swap_to :: "Address \<Rightarrow> Transaction \<Rightarrow> bool" where
  "has_swap_to address t \<longleftrightarrow> sint (output_swap_amount_of address t) > 0"

definition output_bitcoin_address_of :: "externals \<Rightarrow> Address \<Rightarrow> Transaction \<Rightarrow> Address option" where
  "output_bitcoin_address_of x address t =
     (case render_string x address of
        Ok s \<Rightarrow>
          (case List.map_filter (\<lambda>o1. Option.bind (o_data o1) sd_address)
             (filter (\<lambda>o1. is_swap o1 \<and> (case o_address o1 of
                  Some a \<Rightarrow> render_string x a = Ok s | None \<Rightarrow> False)) (t_outputs t))
           of [] \<Rightarrow> None | a # _ \<Rightarrow> Some a)
      | _ \<Rightarrow> None)"

definition liquidity_of :: "Address \<Rightarrow> Transaction \<Rightarrow> (CurrencyAmount \<times> LiquidityRequest) option" where
  "liquidity_of a t =
     (let output_contract = (case output_of a t of [] \<Rightarrow> None | o1 # _ \<Rightarrow> Some o1);
          amt = Option.bind output_contract (\<lambda>o1. Option.bind (o_data o1) sd_amount);
          liq = find is_liquidity (t_outputs t)
      in Option.bind (Option.bind liq (\<lambda>o1. Option.bind (o_data o1) sd_liquidity_request))
           (\<lambda>r. map_option (\<lambda>v. (v, r)) amt))"

definition total_output_amount :: "Transaction \<Rightarrow> i64" where
  "total_output_amount t =
     foldl (\<lambda>total o1. case opt_amount o1 of Some a \<Rightarrow> total + a | None \<Rightarrow> total) 0 (t_outputs t)"

definition floating_inputs :: "Transaction \<Rightarrow> FloatingUtxoId list" where
  "floating_inputs t = List.map_filter i_floating_utxo_id (t_inputs t)"

definition total_input_amount :: "Transaction \<Rightarrow> i64" where
  "total_input_amount t =
     sum_list (List.map_filter opt_amount (List.map_filter i_output (t_inputs t)))"

definition output_amounts_by_product :: "Transaction \<Rightarrow> (ProductId \<rightharpoonup> CurrencyAmount)" where
  "output_amounts_by_product t = foldl (\<lambda>map output.
     case o_product_id output of None \<Rightarrow> map | Some product_id \<Rightarrow>
       (case opt_amount output of None \<Rightarrow> map | Some a \<Rightarrow>
          let aa = (case map product_id of Some v \<Rightarrow> ca_amount v + a | None \<Rightarrow> a) in
          map(product_id \<mapsto> currency_amount_from aa))) Map.empty (t_outputs t)"

definition to_utxo_entries :: "externals \<Rightarrow> Transaction \<Rightarrow> u64 \<Rightarrow> UtxoEntry list" where
  "to_utxo_entries x t tm = from_transaction x t tm"

definition utxo_outputs :: "externals \<Rightarrow> Transaction \<Rightarrow> UtxoEntry list rg_result" where
  "utxo_outputs x t = and_then (time x t) (\<lambda>tm. Ok (from_transaction x t tm))"

definition head_utxo :: "externals \<Rightarrow> Transaction \<Rightarrow> UtxoEntry rg_result" where
  "head_utxo x t = and_then (utxo_outputs x t) (\<lambda>utxos.
     safe_get_msg x ''Missing UTXO output for node metadata'' (get utxos 0))"

definition first_peer_utxo :: "externals \<Rightarrow> Transaction \<Rightarrow> UtxoEntry rg_result" where
  "first_peer_utxo x t = and_then (utxo_outputs x t) (\<lambda>vec.
     ok_or (find (\<lambda>f. case ue_output f of Some o1 \<Rightarrow> is_peer_data o1 | None \<Rightarrow> False) vec)
       (error_info x ''Missing peer utxo''))"

definition peer_data :: "externals \<Rightarrow> Transaction \<Rightarrow> PeerMetadata rg_result" where
  "peer_data x t =
     (let res = List.map_filter (\<lambda>o1. Option.bind (o_data o1) sd_peer_data) (t_outputs t) in
      if length res = 1 then index res 0
      else Err (error_info x ''Missing peer data in transaction''))"

definition node_metadata :: "externals \<Rightarrow> Transaction \<Rightarrow> NodeMetadata rg_result" where
  "node_metadata x t =
     (let res = List.map_filter (\<lambda>o1. Option.bind (o_data o1) sd_node_metadata) (t_outputs t) in
      if length res = 1 then index res 0
      else Err (error_info x ''Missing node metadata in transaction''))"

definition addresses :: "Transaction \<Rightarrow> Address list" where
  "addresses t = List.map_filter o_address (t_outputs t)"

definition first_input_address :: "externals \<Rightarrow> Transaction \<Rightarrow> Address option" where
  "first_input_address x t = (case t_inputs t of
     [] \<Rightarrow> None | i # _ \<Rightarrow> (case input_address x i of Ok a \<Rightarrow> Some a | _ \<Rightarrow> None))"

definition first_input_proof_public_key :: "Transaction \<Rightarrow> PublicKey option" where
  "first_input_proof_public_key t = (case t_inputs t of
     [] \<Rightarrow> None | i # _ \<Rightarrow> Option.bind (get (i_proof i) 0) pr_public_key)"

definition first_output_address :: "Transaction \<Rightarrow> Address option" where
  "first_output_address t = (case t_outputs t of [] \<Rightarrow> None | o1 # _ \<Rightarrow> o_address o1)"

section \<open>Facts\<close>

lemma tx_hash_clear_idem [simp]: "tx_hash_clear (tx_hash_clear t) = tx_hash_clear t"
  by (simp add: tx_hash_clear_def option.map_comp comp_def)

lemma set_hash_eq_Ok [result_simps]:
  "set_hash x h t = Ok t' \<longleftrightarrow> (\<exists>met. t_struct_metadata t = Some met \<and>
     t' = t \<lparr> t_struct_metadata := Some (met \<lparr> sm_hash := Some h \<rparr>) \<rparr>)"
  by (auto simp: set_hash_def tx_struct_metadata_def result_simps)

lemma with_hash_eq_Ok [result_simps]:
  "with_hash x t = Ok t' \<longleftrightarrow> set_hash x (calculate_hash x t) t = Ok t'"
  by (simp add: with_hash_def result_simps)

lemma with_hash_not_Err [simp]: "with_hash x t \<noteq> Err e"
  by (simp add: with_hash_def)

lemma struct_metadata_hash_clear_set [simp]:
  "struct_metadata_hash_clear (m \<lparr> sm_hash := h \<rparr>) = struct_metadata_hash_clear m"
  "struct_metadata_hash_clear (m \<lparr> sm_signable_hash := h \<rparr>) = struct_metadata_hash_clear m"
  "struct_metadata_hash_clear (m \<lparr> sm_signed_hash := h \<rparr>) = struct_metadata_hash_clear m"
  by (simp_all add: struct_metadata_hash_clear_def)

lemma get_eq_Some [simp]: "get xs i = Some y \<longleftrightarrow> i < length xs \<and> y = xs ! i"
  by (auto simp: get_def)

subsection \<open>What a transaction's hashes depend on\<close>

text \<open>
  The part of a transaction that a signature covers: everything but the
  witnesses (input, counter-party and confirmation proofs), the hydrated
  outputs of the inputs and the hash fields.
\<close>

definition signed_input :: "Input \<Rightarrow> Input" where
  "signed_input i = i \<lparr> i_proof := [], i_output := None \<rparr>"

definition signed_content :: "Transaction \<Rightarrow> Transaction" where
  "signed_content t = \<lparr> t_inputs = map signed_input (t_inputs t),
     t_outputs = map (\<lambda>o1. o1 \<lparr> o_counter_party_proofs := [] \<rparr>) (t_outputs t),
     t_struct_metadata = map_option struct_metadata_hash_clear (t_struct_metadata t),
     t_options = map_option (\<lambda>o1. o1 \<lparr> to_contract :=
       map_option (\<lambda>c. c \<lparr> tc_confirmation_proofs := [] \<rparr>) (to_contract o1) \<rparr>) (t_options t) \<rparr>"

lemma signable_hash_content: "signable_hash x t = digest x (enc_transaction x (signed_content t))"
proof -
  have "tx_hash_clear (clear_confirmation_proofs (clear_counter_party_proofs (clear_input_proofs t)))
      = signed_content t"
    by (simp add: tx_hash_clear_def clear_confirmation_proofs_def clear_counter_party_proofs_def
        clear_input_proofs_def signed_content_def signed_input_def)
  then show ?thesis by (simp add: signable_hash_def calculate_hash_def)
qed

lemma signable_hash_cong: "signed_content t = signed_content t' \<Longrightarrow> signable_hash x t = signable_hash x t'"
  by (simp add: signable_hash_content)

lemma signed_content_add_proof: "signed_content (add_proof_per_input p t) = signed_content t"
  by (simp add: signed_content_def add_proof_per_input_def signed_input_def)

lemma calculate_hash_metadata:
  "struct_metadata_hash_clear m = struct_metadata_hash_clear m' \<Longrightarrow> t_struct_metadata t = Some m' \<Longrightarrow>
     calculate_hash x (t \<lparr> t_struct_metadata := Some m \<rparr>) = calculate_hash x t"
  by (simp add: calculate_hash_def tx_hash_clear_def)

lemma signed_content_metadata:
  "struct_metadata_hash_clear m = struct_metadata_hash_clear m' \<Longrightarrow> t_struct_metadata t = Some m' \<Longrightarrow>
     signed_content (t \<lparr> t_struct_metadata := Some m \<rparr>) = signed_content t"
  by (simp add: signed_content_def)

text \<open>Storing the computed hash in a transaction (\<open>with_hash\<close>) does not change the hash it
  computes to, nor the hash that is signed, and \<open>hash_or\<close> then returns the stored hash;
  it can only fail, by a panic, when the transaction has no struct metadata.\<close>

theorem with_hash_stable:
  assumes "t_struct_metadata t = Some m"
  shows "\<exists>t'. with_hash x t = Ok t' \<and> calculate_hash x t' = calculate_hash x t \<and>
     hash_or x t' = calculate_hash x t \<and> signable_hash x t' = signable_hash x t \<and>
     with_hash x t' = Ok t'"
proof -
  let ?t' = "t \<lparr> t_struct_metadata := Some (m \<lparr> sm_hash := Some (calculate_hash x t) \<rparr>) \<rparr>"
  have w: "with_hash x t = Ok ?t'" using assms by (simp add: result_simps)
  have c: "calculate_hash x ?t' = calculate_hash x t"
    using assms by (intro calculate_hash_metadata) simp_all
  have "signable_hash x ?t' = signable_hash x t"
    using assms by (intro signable_hash_cong signed_content_metadata) simp_all
  moreover have "with_hash x ?t' = Ok ?t'" using c by (simp add: result_simps)
  ultimately show ?thesis using w c by (simp add: hash_or_def)
qed

theorem with_hash_stable_witness:
  "\<exists>t'. with_hash sample_ext (new_blank 5 7) = Ok t' \<and>
     hash_or sample_ext t' = calculate_hash sample_ext (new_blank 5 7)"
  using with_hash_stable [of "new_blank 5 7" _ sample_ext]
  by (auto simp: new_blank_def struct_metadata_def)

text \<open>C23: The signed hash of a transaction is a function of its signed content only: replacing
  the input proofs, the counter-party proofs of the outputs, the confirmation proofs of the
  contract, the hydrated outputs of the inputs and the stored hashes, all at once, never
  changes it.\<close>

theorem signable_hash_ignores_witnesses:
  assumes "list_all2 (\<lambda>i j. signed_input i = signed_input j) (t_inputs t) is"
    and "list_all2 (\<lambda>p q. p \<lparr> o_counter_party_proofs := [] \<rparr> = q \<lparr> o_counter_party_proofs := [] \<rparr>)
           (t_outputs t) os"
    and "t_struct_metadata t = Some m" "sm_time m' = sm_time m" "sm_version m' = sm_version m"
    and "t_options t = Some (opts \<lparr> to_contract := map_option (\<lambda>c. c \<lparr> tc_confirmation_proofs := ps \<rparr>) (to_contract opts) \<rparr>)"
  shows "signable_hash x (t \<lparr> t_inputs := is, t_outputs := os, t_struct_metadata := Some m',
           t_options := Some (opts \<lparr> to_contract := map_option (\<lambda>c. c \<lparr> tc_confirmation_proofs := qs \<rparr>) (to_contract opts) \<rparr>) \<rparr>) =
         signable_hash x t"
proof (rule signable_hash_cong)
  have "map signed_input is = map signed_input (t_inputs t)"
    using assms(1) by (induction rule: list_all2_induct) auto
  moreover have "map (\<lambda>o1. o1 \<lparr> o_counter_party_proofs := [] \<rparr>) os =
      map (\<lambda>o1. o1 \<lparr> o_counter_party_proofs := [] \<rparr>) (t_outputs t)"
    using assms(2) by (induction rule: list_all2_induct) auto
  moreover have "struct_metadata_hash_clear m' = struct_metadata_hash_clear m"
    using assms(4,5) by (cases m; cases m') (simp add: struct_metadata_hash_clear_def)
  ultimately show "signed_content (t \<lparr> t_inputs := is, t_outputs := os, t_struct_metadata := Some m',
      t_options := Some (opts \<lparr> to_contract := map_option (\<lambda>c. c \<lparr> tc_confirmation_proofs := qs \<rparr>) (to_contract opts) \<rparr>) \<rparr>)
      = signed_content t"
    using assms(3,6) by (simp add: signed_content_def option.map_comp comp_def)
qed

text \<open>A transaction on which every kind of witness can be replaced: one input, one output and a contract, with
  the proofs \<open>ps\<close> in all three places, a hydrated output and a stored hash.\<close>

definition witnessed_input :: "Proof list \<Rightarrow> Output option \<Rightarrow> Input" where
  "witnessed_input ps out = input_default \<lparr> i_utxo_id := Some (utxo_id_new (hash_new [1]) 0), i_proof := ps, i_output := out \<rparr>"

definition witnessed_output :: "Proof list \<Rightarrow> Output" where
  "witnessed_output ps = (output_new (new_raw [4]) 10) \<lparr> o_counter_party_proofs := ps \<rparr>"

definition witnessed_contract :: "Proof list \<Rightarrow> TransactionContract" where
  "witnessed_contract ps = \<lparr> tc_confirmation = Some True, tc_confirmation_proofs = ps, tc_finalize_window = None, tc_lock_period = None,
     tc_network_reversible = None, tc_time_lock_window = None, tc_options = [], tc_pow_proof = None \<rparr>"

definition witnessed_tx :: "Proof list \<Rightarrow> Output option \<Rightarrow> Hash option \<Rightarrow> Transaction" where
  "witnessed_tx ps out h = (new_blank 5 7) \<lparr> t_inputs := [witnessed_input ps out], t_outputs := [witnessed_output ps],
     t_struct_metadata := map_option (\<lambda>m. m \<lparr> sm_hash := h \<rparr>) (struct_metadata 5),
     t_options := Some (tx_options_default \<lparr> to_contract := Some (witnessed_contract ps) \<rparr>) \<rparr>"

theorem signable_hash_ignores_witnesses_witness:
  "signable_hash sample_ext (witnessed_tx [\<lparr> pr_signature = None, pr_public_key = None \<rparr>] (Some (output_new (new_raw [9]) 3)) (Some (hash_new [2])))
     = signable_hash sample_ext (witnessed_tx [] None None)"
proof -
  let ?p = "[\<lparr> pr_signature = None, pr_public_key = None \<rparr>]"
  let ?m = "the (struct_metadata 5)" and ?o = "tx_options_default \<lparr> to_contract := Some (witnessed_contract []) \<rparr>"
  have "t_options (witnessed_tx [] None None) =
      Some (?o \<lparr> to_contract := map_option (\<lambda>c. c \<lparr> tc_confirmation_proofs := [] \<rparr>) (to_contract ?o) \<rparr>)"
    by (simp add: witnessed_tx_def witnessed_contract_def)
  from signable_hash_ignores_witnesses [where m = "?m \<lparr> sm_hash := None \<rparr>" and m' = "?m \<lparr> sm_hash := Some (hash_new [2]) \<rparr>",
      of "witnessed_tx [] None None" "[witnessed_input ?p (Some (output_new (new_raw [9]) 3))]" "[witnessed_output ?p]", OF _ _ _ _ _ this]
  show ?thesis by (simp add: witnessed_tx_def witnessed_input_def witnessed_output_def witnessed_contract_def signed_input_def
        struct_metadata_def)
qed

subsection \<open>Amounts\<close>

lemma foldl_opt_sum:
  "foldl (\<lambda>total o1. case f o1 of Some a \<Rightarrow> total + a | None \<Rightarrow> total) (s :: 'b::comm_monoid_add) xs =
     s + sum_list (List.map_filter f xs)"
  by (induction xs arbitrary: s) (auto simp: List.map_filter_simps add.assoc split: option.splits)

lemma total_output_amount_sum: "total_output_amount t = sum_list (List.map_filter opt_amount (t_outputs t))"
  by (simp add: total_output_amount_def foldl_opt_sum)

lemma output_map_fold:
  fixes ps :: "(Address \<times> i64) list"
  shows "foldl (\<lambda>acc (ad, a). acc(ad \<mapsto> (case acc ad of Some v \<Rightarrow> v | None \<Rightarrow> 0) + a)) m ps k =
     (if k \<in> fst ` set ps \<or> m k \<noteq> None
      then Some ((case m k of Some v \<Rightarrow> v | None \<Rightarrow> 0) + sum_list (map snd (filter (\<lambda>p. fst p = k) ps)))
      else None)"
  by (induction ps arbitrary: m) (auto simp: add.assoc split: option.splits)

lemma map_filter_output_pairs:
  "map snd (filter (\<lambda>p. fst p = k) (List.map_filter (\<lambda>o1. Option.bind (o_address o1)
       (\<lambda>ad. map_option (\<lambda>a. (ad, a)) (opt_amount o1))) os)) =
   List.map_filter (\<lambda>o1. case o_address o1 of
       None \<Rightarrow> None | Some a \<Rightarrow> if a = k then opt_amount o1 else None) os"
  by (induction os) (auto simp: List.map_filter_simps split: option.splits)

text \<open>The per-address balance map of a transaction agrees with the per-address sum: an
  address has an entry exactly when some output with an amount pays it, and the entry
  is the sum of all of them.\<close>

theorem output_amount_map_correct:
  "output_amount_map t a =
     (if \<exists>o1 \<in> set (t_outputs t). o_address o1 = Some a \<and> opt_amount o1 \<noteq> None
      then Some (output_amount_of a t) else None)"
proof -
  have "a \<in> fst ` set (List.map_filter (\<lambda>o1. Option.bind (o_address o1)
       (\<lambda>ad. map_option (\<lambda>v. (ad, v)) (opt_amount o1))) os) \<longleftrightarrow>
     (\<exists>o1 \<in> set os. o_address o1 = Some a \<and> opt_amount o1 \<noteq> None)" for os
    by (induction os) (auto simp: List.map_filter_simps bind_eq_Some_conv split: option.splits)
  then show ?thesis
    by (simp add: output_amount_map_def output_map_fold map_filter_output_pairs output_amount_of_def)
qed

subsection \<open>UTXO entries of a transaction\<close>

lemma opt_amount_output_new [simp]: "opt_amount (output_new a v) = Some v"
  by (simp add: opt_amount_def output_new_def amount_data_def currency_amount_from_def
      standard_data_default_def)

lemma from_transaction_nth:
  "i < length (t_outputs t) \<Longrightarrow> from_transaction x t tm ! i =
     from_output_new (t_outputs t ! i) (hash_or x t) (word_of_nat i) tm"
  by (simp add: from_transaction_def nth_enumerate_eq)

lemma length_from_transaction [simp]: "length (from_transaction x t tm) = length (t_outputs t)"
  by (simp add: from_transaction_def)

lemma word_of_nat_inj_small:
  "i < 2 ^ 64 \<Longrightarrow> j < 2 ^ 64 \<Longrightarrow> (word_of_nat i :: 64 word) = word_of_nat j \<longleftrightarrow> i = j"
  by (simp add: word_of_nat_eq_iff take_bit_nat_eq_self)

lemma from_transaction_ids_distinct:
  assumes "length (t_outputs t) < 2 ^ 64"
  shows "distinct (map ue_utxo_id (from_transaction x t tm))"
  unfolding distinct_conv_nth using assms
  by (auto simp: from_transaction_nth from_output_new_def utxo_id_new_def word_of_nat_inj_small
      simp del: of_nat_eq_iff)

lemma validate_deploy_code_Ok:
  "validate_deploy_code x o1 = Ok d \<longleftrightarrow>
     is_deploy o1 \<and> code o1 = Some d \<and> d \<noteq> [] \<and>
     (\<exists>a. script_hash x d = Ok a \<and> o_address o1 = Some a)"
proof (cases "code o1")
  case (Some d')
  obtain a where "script_hash x d' = Ok a" using script_hash_eq by blast
  with Some show ?thesis by (auto simp: validate_deploy_code_def Let_def)
qed (simp add: validate_deploy_code_def Let_def)

end
