(* ===== verification/Keys.thy ===== *)
theory Keys
  imports Tx
begin

text \<open>
  Signing and stateless validation: \<open>keys/src/util/mod.rs\<close> (the calls into
  \<open>secp256k1\<close>), \<open>keys/src/proof_support.rs\<close>, \<open>keys/src/lib.rs\<close> (key pairs),
  \<open>keys/src/address_external.rs\<close> and \<open>keys/src/transaction_support.rs\<close>.
  \<open>prevalidate\<close> is the first gate of the transaction processor; its
  characterisation says exactly which transactions pass it.
\<close>

section \<open>Signatures over the library\<close>

definition util_sign :: "externals \<Rightarrow> bytes \<Rightarrow> lib_secret_key \<Rightarrow> bytes rg_result" where
  "util_sign x hash key =
     and_then (slice hash 0 32) (\<lambda>ret.
     and_then (lib_result (\<lambda>e. error_message x IncorrectSignature
                  (''Signature message construction failure '' @ e)) (lib_msg_from_slice x ret)) (\<lambda>message.
     Ok (digest_to_vec 64 (lib_sig_serialize_compact x (lib_sign x message key)))))"

definition sign_hash :: "externals \<Rightarrow> Hash \<Rightarrow> lib_secret_key \<Rightarrow> bytes rg_result" where
  "sign_hash x hash key = and_then (expect ''bytes'' (hash_safe_bytes x hash)) (\<lambda>b. util_sign x b key)"

definition util_verify :: "externals \<Rightarrow> bytes \<Rightarrow> bytes \<Rightarrow> bytes \<Rightarrow> unit rg_result" where
  "util_verify x hash signature public_key =
     and_then (slice hash 0 32) (\<lambda>ret.
     and_then (result_error_msg x IncorrectSignature ''Signature message construction failure''
                 (lib_msg_from_slice x ret)) (\<lambda>message.
     and_then (result_error_msg x IncorrectSignature ''Decoded signature construction failure''
                 (lib_sig_from_compact x signature)) (\<lambda>decoded_signature.
     and_then (result_error_msg x IncorrectSignature ''Public key construction failure''
                 (lib_pk_from_slice x public_key)) (\<lambda>pk.
     and_then (result_error_msg x IncorrectSignature ''Signature verification failure''
                 (lib_verify x message decoded_signature pk)) (\<lambda>_. Ok ())))))"

definition public_key_ser :: "externals \<Rightarrow> lib_public_key \<Rightarrow> PublicKey option" where
  "public_key_ser x pk = Some \<lparr> pk_bytes = bytes_data (digest_to_vec 33 (lib_pk_serialize x pk)),
     pk_key_type = public_key_type_secp256k1 \<rparr>"

definition to_lib_public_key :: "externals \<Rightarrow> PublicKey \<Rightarrow> lib_public_key rg_result" where
  "to_lib_public_key x pk = and_then (safe_bytes x (pk_bytes pk)) (\<lambda>b.
     lib_result (error_info x) (lib_pk_from_slice x b))"

definition to_struct_public_key :: "externals \<Rightarrow> lib_public_key \<Rightarrow> PublicKey" where
  "to_struct_public_key x pk = public_key_from_bytes (digest_to_vec 33 (lib_pk_serialize x pk))"

definition prepare_message :: "string \<Rightarrow> string" where
  "prepare_message msg = (''Redgold: '' @ newline) @ msg"

definition prepare_message_sign :: "externals \<Rightarrow> string \<Rightarrow> bytes" where
  "prepare_message_sign x msg = digest_to_vec 32 (btc_signed_msg_hash x (prepare_message msg))"

definition message_from_hash :: "externals \<Rightarrow> Hash \<Rightarrow> string rg_result" where
  "message_from_hash x hash = and_then (hash_hex x hash) (\<lambda>msg. Ok (prepare_message msg))"

definition public_key_validate :: "externals \<Rightarrow> PublicKey \<Rightarrow> PublicKey rg_result" where
  "public_key_validate x pk = and_then (to_lib_public_key x pk) (\<lambda>_. Ok pk)"

definition public_key_from_hex_validated :: "externals \<Rightarrow> string \<Rightarrow> PublicKey rg_result" where
  "public_key_from_hex_validated x hex = and_then (from_hex x hex) (\<lambda>bs.
     let key = public_key_from_bytes bs in and_then (public_key_validate x key) (\<lambda>_. Ok key))"

section \<open>Key pairs\<close>

record KeyPair =
  kp_secret_key :: lib_secret_key
  kp_public_key :: lib_public_key

definition key_pair_address_typed :: "externals \<Rightarrow> KeyPair \<Rightarrow> Address rg_result" where
  "key_pair_address_typed x kp = expect [] (public_key_address x (to_struct_public_key x (kp_public_key kp)))"

definition key_pair_address :: "externals \<Rightarrow> KeyPair \<Rightarrow> bytes rg_result" where
  "key_pair_address x kp =
     and_then (expect [] (from_struct_public x (to_struct_public_key x (kp_public_key kp)))) (\<lambda>a.
     expect [] (safe_bytes x (a_address a)))"

definition key_pair_public_key_vec :: "externals \<Rightarrow> KeyPair \<Rightarrow> bytes" where
  "key_pair_public_key_vec x kp = digest_to_vec 33 (lib_pk_serialize x (kp_public_key kp))"

definition key_pair_public_key :: "externals \<Rightarrow> KeyPair \<Rightarrow> PublicKey" where
  "key_pair_public_key x kp = to_struct_public_key x (kp_public_key kp)"

section \<open>Proofs\<close>

definition proof_verify :: "externals \<Rightarrow> Hash \<Rightarrow> Proof \<Rightarrow> unit rg_result" where
  "proof_verify x hash p =
     and_then (safe_get x (pr_signature p)) (\<lambda>sig.
     and_then (if sig_signature_type sig = signature_type_ecdsa then hash_safe_bytes x hash
               else if sig_signature_type sig = signature_type_ecdsa_bitcoin_sign_message_hardware then
                 and_then (hash_hex x hash) (\<lambda>h. Ok (prepare_message_sign x h))
               else Err (error_info x ''Invalid signature type'')) (\<lambda>verify_hash.
     and_then (signature_bytes x p) (\<lambda>sb. and_then (proof_public_key_bytes x p) (\<lambda>pb.
     util_verify x verify_hash sb pb))))"

definition proof_new :: "externals \<Rightarrow> Hash \<Rightarrow> lib_secret_key \<Rightarrow> lib_public_key \<Rightarrow> Proof rg_result" where
  "proof_new x hash secret public = and_then (expect ''signature works'' (sign_hash x hash secret)) (\<lambda>signature.
     Ok \<lparr> pr_signature = signature_data signature, pr_public_key = public_key_ser x public \<rparr>)"

definition from_keypair :: "externals \<Rightarrow> bytes \<Rightarrow> KeyPair \<Rightarrow> Proof rg_result" where
  "from_keypair x hash keypair = proof_new x (hash_new hash) (kp_secret_key keypair) (kp_public_key keypair)"

definition from_keypair_hash :: "externals \<Rightarrow> Hash \<Rightarrow> KeyPair \<Rightarrow> Proof rg_result" where
  "from_keypair_hash x hash keypair = proof_new x hash (kp_secret_key keypair) (kp_public_key keypair)"

definition verify_proofs :: "externals \<Rightarrow> Proof list \<Rightarrow> Hash \<Rightarrow> Address \<Rightarrow> unit rg_result" where
  "verify_proofs x proofs hash address =
     and_then (proofs_to_address x proofs) (\<lambda>addr.
     if address \<noteq> addr then
       Err (error_message x AddressPublicKeyProofMismatch ''address mismatch in Proof::verify_proofs'')
     else for_each (proof_verify x hash) proofs)"

definition input_verify_proof :: "externals \<Rightarrow> Address \<Rightarrow> Hash \<Rightarrow> Input \<Rightarrow> unit rg_result" where
  "input_verify_proof x address hash i = verify_proofs x (i_proof i) hash address"

definition verify_signatures_only :: "externals \<Rightarrow> Hash \<Rightarrow> Input \<Rightarrow> unit rg_result" where
  "verify_signatures_only x hash i = for_each (proof_verify x hash) (i_proof i)"

definition input_verify :: "externals \<Rightarrow> Hash \<Rightarrow> Input \<Rightarrow> unit rg_result" where
  "input_verify x hash i =
     and_then (safe_get_msg x ''Missing enriched output on input for transaction verification'' (i_output i)) (\<lambda>o1.
     and_then (safe_get_msg x ''Missing address on enriched output for transaction verification'' (o_address o1)) (\<lambda>address.
     input_verify_proof x address hash i))"

section \<open>Transactions\<close>

text \<open>The clock of \<open>time_sponsor\<close> is an argument; without options the sponsor is written to a temporary.\<close>

definition time_sponsor :: "externals \<Rightarrow> i64 \<Rightarrow> KeyPair \<Rightarrow> Transaction \<Rightarrow> Transaction rg_result" where
  "time_sponsor x now key_pair t =
     and_then (with_hash x t) (\<lambda>t.
     let hash = hash_or x t;
         opts = (case t_options t of Some o1 \<Rightarrow> o1 | None \<Rightarrow> tx_options_default) in
     if to_time_sponsor opts = None then
       and_then (from_keypair_hash x hash key_pair) (\<lambda>proof.
       let ot = \<lparr> tsp_time = now, tsp_proof = Some proof \<rparr> in
       with_hash x (t \<lparr> t_options := map_option (\<lambda>o1. o1 \<lparr> to_time_sponsor := Some ot \<rparr>) (t_options t) \<rparr>))
     else Ok t)"

definition sign_input ::
    "externals \<Rightarrow> Hash \<Rightarrow> Address \<Rightarrow> KeyPair \<Rightarrow> Input list \<times> bool \<Rightarrow> Input \<Rightarrow> (Input list \<times> bool) rg_result" where
  "sign_input x hash addr key_pair st i =
     (case i_output i of
        None \<Rightarrow> Ok (fst st @ [i], snd st)
      | Some o1 \<Rightarrow>
          and_then (safe_get_msg x ''Missing address on enriched output during signing'' (o_address o1)) (\<lambda>input_addr.
          if addr = input_addr then
            and_then (from_keypair_hash x hash key_pair) (\<lambda>proof.
            Ok (fst st @ [i \<lparr> i_proof := i_proof i @ [proof] \<rparr>], True))
          else Ok (fst st @ [i], snd st)))"

definition sign :: "externals \<Rightarrow> KeyPair \<Rightarrow> Transaction \<Rightarrow> Transaction rg_result" where
  "sign x key_pair t =
     (let hash = signable_hash x t in
      and_then (key_pair_address_typed x key_pair) (\<lambda>addr.
      and_then (try_fold (sign_input x hash addr key_pair) ([], False) (t_inputs t)) (\<lambda>(inputs, signed).
      if \<not> signed then Err (error_info x ''Couldn't find appropriate input address to sign'')
      else and_then (with_hash x (t \<lparr> t_inputs := inputs \<rparr>)) (\<lambda>t'.
        case t_struct_metadata t' of
          None \<Rightarrow> Panic ''sm''
        | Some m \<Rightarrow> Ok (t' \<lparr> t_struct_metadata := Some (m \<lparr> sm_signed_hash := Some (hash_or x t') \<rparr>) \<rparr>)))))"

definition verify_utxo_entry_proof :: "externals \<Rightarrow> UtxoEntry \<Rightarrow> Transaction \<Rightarrow> unit rg_result" where
  "verify_utxo_entry_proof x utxo_entry t =
     and_then (safe_get_msg x ''Missing utxo id during verify_utxo_entry_proof'' (ue_utxo_id utxo_entry)) (\<lambda>uid.
     and_then (ok_or (get (t_inputs t) (unat (u_output_index uid))) (error_message x MissingInputs
        (''missing input index: '' @ show_int (sint (u_output_index uid))))) (\<lambda>input.
     and_then (utxo_entry_address x utxo_entry) (\<lambda>address.
     verify_proofs x (i_proof input) (signable_hash x t) address)))"

definition check_input_ids :: "externals \<Rightarrow> UtxoId set \<Rightarrow> Input \<Rightarrow> UtxoId set rg_result" where
  "check_input_ids x hs i =
     (case i_utxo_id i of
        None \<Rightarrow> Ok hs
      | Some f \<Rightarrow> if f \<in> hs then Err (error_info x ''Duplicate input UTXO consumption'')
                  else Ok (insert f hs))"

definition check_message :: "externals \<Rightarrow> Transaction \<Rightarrow> unit rg_result" where
  "check_message x t =
     (case Option.bind (Option.bind (t_options t) to_data) tdat_message of
        None \<Rightarrow> Ok ()
      | Some m \<Rightarrow> let i = length m in
          if MAX_TRANSACTION_MESSAGE_SIZE < i then
            Err (error_info x (''Message length: '' @ show_nat i @ '' too large, expected '' @
              show_nat MAX_TRANSACTION_MESSAGE_SIZE))
          else Ok ())"

definition check_input :: "externals \<Rightarrow> Transaction \<Rightarrow> Input \<Rightarrow> unit rg_result" where
  "check_input x t input =
     and_then (case i_utxo_id input of
         None \<Rightarrow> Ok ()
       | Some utxo \<Rightarrow> if uint MAX_INPUTS_OUTPUTS < sint (u_output_index utxo)
                      then Err (error_code x InvalidAddressInputIndex) else Ok ()) (\<lambda>_.
     and_then (if i_proof input = [] then
          let floating_non_consume_input = i_utxo_id input = None \<and> i_floating_utxo_id input \<noteq> None in
          if \<not> floating_non_consume_input then
            Err (error_message x MissingProof
              (''Input proof is missing on input '' @ json_or x (json_input x input)))
          else Ok ()
        else Ok ()) (\<lambda>_.
     verify_signatures_only x (signable_hash x t) input))"

definition prevalidate :: "externals \<Rightarrow> Transaction \<Rightarrow> unit rg_result" where
  "prevalidate x t =
     (let size_bytes = length (enc_transaction x t) in
      and_then (if 10000 < size_bytes then
          Err (error_with_detail ''size_bytes'' (show_nat size_bytes)
            (error_info x (''Transaction size: '' @ show_nat size_bytes @ '' too large, expected 10000'')))
        else Ok ()) (\<lambda>_.
      and_then (safe_get_msg x ''Missing options on transaction'' (t_options t)) (\<lambda>options.
      and_then (safe_get_msg x ''Missing network type on transaction'' (to_network_type options)) (\<lambda>net_i32.
      and_then (ok_msg x ''Invalid network type on transaction'' (network_from_i32 net_i32)) (\<lambda>network.
      and_then (if to_contract options \<noteq> None \<and> is_main network then
          Err (error_info x ''Contract transactions not yet supported'') else Ok ()) (\<lambda>_.
      and_then (try_fold (check_input_ids x) {} (t_inputs t)) (\<lambda>_.
      and_then (if t_inputs t = [] then Err (error_code x MissingInputs) else Ok ()) (\<lambda>_.
      and_then (if t_outputs t = [] then Err (error_code x MissingOutputs) else Ok ()) (\<lambda>_.
      and_then (check_message x t) (\<lambda>_.
      for_each (check_input x t) (t_inputs t)))))))))))"

section \<open>Bitcoin addresses of public keys\<close>

definition to_bitcoin_address :: "externals \<Rightarrow> NetworkEnvironment \<Rightarrow> PublicKey \<Rightarrow> string rg_result" where
  "to_bitcoin_address x network pk =
     and_then (public_key_bytes x pk) (\<lambda>b.
     and_then (result_error_info x ''public key conversion'' (btc_key_from_slice x b)) (\<lambda>k.
     result_error_info x ''bitcoin address conversion'' (btc_p2wpkh x k (network = Main))))"

definition address_to_bitcoin_address :: "externals \<Rightarrow> Address \<Rightarrow> string rg_result" where
  "address_to_bitcoin_address x a =
     (if is_bitcoin a then render_string x a
      else Err (error_info x ''Address is not a bitcoin address''))"

definition input_bitcoin_address :: "externals \<Rightarrow> NetworkEnvironment \<Rightarrow> string \<Rightarrow> Transaction \<Rightarrow> bool" where
  "input_bitcoin_address x network other_address t \<longleftrightarrow>
     0 < length (filter (\<lambda>a. a = other_address)
       (List.map_filter (\<lambda>pk. case to_bitcoin_address x network pk of Ok a \<Rightarrow> Some a | _ \<Rightarrow> None)
       (List.map_filter pr_public_key (concat (map i_proof (t_inputs t))))))"

definition pays_multi :: "externals \<Rightarrow> Address \<Rightarrow> string \<Rightarrow> Output \<Rightarrow> i64 option" where
  "pays_multi x address btc_address o1 = (case o_address o1 of
     None \<Rightarrow> None
   | Some a \<Rightarrow> if a = address \<or> render_string x a = Ok btc_address then opt_amount o1 else None)"

definition output_swap_amount_of_multi ::
    "externals \<Rightarrow> PublicKey \<Rightarrow> NetworkEnvironment \<Rightarrow> Transaction \<Rightarrow> i64 rg_result" where
  "output_swap_amount_of_multi x pk_address network t =
     and_then (to_bitcoin_address x network pk_address) (\<lambda>btc_address.
     and_then (public_key_address x pk_address) (\<lambda>address.
     Ok (sum_list (List.map_filter (\<lambda>o1. if is_swap o1 then pays_multi x address btc_address o1 else None)
           (t_outputs t)))))"

definition output_amount_of_multi ::
    "externals \<Rightarrow> PublicKey \<Rightarrow> NetworkEnvironment \<Rightarrow> Transaction \<Rightarrow> i64 rg_result" where
  "output_amount_of_multi x pk_address network t =
     and_then (to_bitcoin_address x network pk_address) (\<lambda>btc_address.
     and_then (public_key_address x pk_address) (\<lambda>address.
     Ok (sum_list (List.map_filter (pays_multi x address btc_address) (t_outputs t)))))"

definition has_swap_to_multi :: "externals \<Rightarrow> PublicKey \<Rightarrow> NetworkEnvironment \<Rightarrow> Transaction \<Rightarrow> bool" where
  "has_swap_to_multi x pk_address network t \<longleftrightarrow>
     (case output_swap_amount_of_multi x pk_address network t of Ok b \<Rightarrow> 0 < sint b | _ \<Rightarrow> False)"

definition first_input_address_to_btc_address ::
    "externals \<Rightarrow> NetworkEnvironment \<Rightarrow> Transaction \<Rightarrow> string option" where
  "first_input_address_to_btc_address x network t =
     (case List.map_filter pr_public_key (concat (map i_proof (t_inputs t))) of
        [] \<Rightarrow> None
      | pk # _ \<Rightarrow> (case to_bitcoin_address x network pk of Ok a \<Rightarrow> Some a | _ \<Rightarrow> None))"

section \<open>Validation facts\<close>

lemma result_error_msg_eq_Ok [result_simps]:
  "result_error_msg x c m r = Ok v \<longleftrightarrow> r = Inr v" "result_error_info x m r = Ok v \<longleftrightarrow> r = Inr v"
  by (simp_all add: result_error_msg_def result_error_info_def result_simps)

lemma check_input_ids_fold_Ok:
  "(\<exists>hs'. try_fold (check_input_ids x) hs is = Ok hs') \<longleftrightarrow>
     distinct (List.map_filter i_utxo_id is) \<and> set (List.map_filter i_utxo_id is) \<inter> hs = {}"
  by (induction "is" arbitrary: hs)
     (auto simp: check_input_ids_def List.map_filter_simps result_simps split: option.splits)

lemma check_message_Ok:
  "check_message x t = Ok () \<longleftrightarrow>
     (\<forall>o1 d m. t_options t = Some o1 \<and> to_data o1 = Some d \<and> tdat_message d = Some m \<longrightarrow>
        length m \<le> MAX_TRANSACTION_MESSAGE_SIZE)"
  by (auto simp: check_message_def Let_def bind_eq_Some_conv split: option.splits if_splits)

lemma check_input_Ok:
  "check_input x t i = Ok () \<longleftrightarrow>
     (\<forall>u. i_utxo_id i = Some u \<longrightarrow> sint (u_output_index u) \<le> uint MAX_INPUTS_OUTPUTS) \<and>
     (i_proof i = [] \<longrightarrow> i_utxo_id i = None \<and> i_floating_utxo_id i \<noteq> None) \<and>
     (\<forall>p \<in> set (i_proof i). proof_verify x (signable_hash x t) p = Ok ())"
  by (auto simp: check_input_def verify_signatures_only_def result_simps Let_def
      split: option.splits if_splits)

text \<open>C7: Exactly which transactions pass the stateless gate: the encoding has at most 10000
  bytes, the options name a valid network (and carry no contract on the main network),
  no UTXO is consumed twice, there are inputs and outputs, the message is at most 40
  bytes long, and every input has an output index of at most 5000, carries a proof
  unless it is a floating input, and all its proofs verify over the signed hash.\<close>

theorem prevalidate_iff:
  "prevalidate x t = Ok () \<longleftrightarrow>
     length (enc_transaction x t) \<le> 10000 \<and>
     (\<exists>o1 n. t_options t = Some o1 \<and> to_network_type o1 = Some (network_i32 n) \<and>
        (to_contract o1 \<noteq> None \<longrightarrow> n \<noteq> Main)) \<and>
     distinct (List.map_filter i_utxo_id (t_inputs t)) \<and>
     t_inputs t \<noteq> [] \<and> t_outputs t \<noteq> [] \<and>
     (\<forall>o1 d m. t_options t = Some o1 \<and> to_data o1 = Some d \<and> tdat_message d = Some m \<longrightarrow>
        length m \<le> MAX_TRANSACTION_MESSAGE_SIZE) \<and>
     (\<forall>i \<in> set (t_inputs t).
        (\<forall>u. i_utxo_id i = Some u \<longrightarrow> sint (u_output_index u) \<le> uint MAX_INPUTS_OUTPUTS) \<and>
        (i_proof i = [] \<longrightarrow> i_utxo_id i = None \<and> i_floating_utxo_id i \<noteq> None) \<and>
        (\<forall>p \<in> set (i_proof i). proof_verify x (signable_hash x t) p = Ok ()))"
proof -
  have ids: "(\<exists>hs. try_fold (check_input_ids x) {} (t_inputs t) = Ok hs) \<longleftrightarrow>
      distinct (List.map_filter i_utxo_id (t_inputs t))"
    using check_input_ids_fold_Ok [of x "{}"] by simp
  have net: "network_from_i32 v = Some n \<longleftrightarrow> v = network_i32 n" for v n
    by (rule network_from_i32_eq)
  have "prevalidate x t = Ok () \<longleftrightarrow>
      length (enc_transaction x t) \<le> 10000 \<and>
      (\<exists>o1 n. t_options t = Some o1 \<and> to_network_type o1 = Some (network_i32 n) \<and>
        (to_contract o1 \<noteq> None \<longrightarrow> \<not> is_main n)) \<and>
      (\<exists>hs. try_fold (check_input_ids x) {} (t_inputs t) = Ok hs) \<and>
      t_inputs t \<noteq> [] \<and> t_outputs t \<noteq> [] \<and> check_message x t = Ok () \<and>
      (\<forall>i \<in> set (t_inputs t). check_input x t i = Ok ())"
    by (auto simp: prevalidate_def Let_def result_simps net)
  then show ?thesis
    unfolding ids check_message_Ok check_input_Ok is_main_def .
qed

section \<open>Signing\<close>

lemma sign_hash_digest_Ok:
  assumes "secp_law x (kp_secret_key kp) pk"
  shows "\<exists>m. lib_msg_from_slice x (digest_to_vec 32 (sha3_256 x s)) = Inr m \<and>
     sign_hash x (digest x s) (kp_secret_key kp) =
       Ok (digest_to_vec 64 (lib_sig_serialize_compact x (lib_sign x m (kp_secret_key kp))))"
proof -
  obtain m where "lib_msg_from_slice x (digest_to_vec 32 (sha3_256 x s)) = Inr m"
    using assms unfolding secp_law_def by (metis length_digest_to_vec)
  then show ?thesis
    by (simp add: sign_hash_def digest_def util_sign_def slice_def)
qed

text \<open>A proof made with a key pair over a digest verifies over that digest and carries the key.\<close>

lemma from_keypair_hash_verifies:
  assumes "secp_law x (kp_secret_key kp) (kp_public_key kp)"
  shows "\<exists>p. from_keypair_hash x (digest x s) kp = Ok p \<and> proof_verify x (digest x s) p = Ok () \<and>
     proof_public_key_bytes x p = Ok (key_pair_public_key_vec x kp)"
proof -
  obtain m where m: "lib_msg_from_slice x (digest_to_vec 32 (sha3_256 x s)) = Inr m"
    "sign_hash x (digest x s) (kp_secret_key kp) =
       Ok (digest_to_vec 64 (lib_sig_serialize_compact x (lib_sign x m (kp_secret_key kp))))"
    using sign_hash_digest_Ok [OF assms] by blast
  define p where "p = \<lparr> pr_signature = signature_data (digest_to_vec 64
      (lib_sig_serialize_compact x (lib_sign x m (kp_secret_key kp)))),
      pr_public_key = public_key_ser x (kp_public_key kp) \<rparr>"
  have 1: "from_keypair_hash x (digest x s) kp = Ok p"
    by (simp add: from_keypair_hash_def proof_new_def m(2) p_def)
  have 2: "proof_public_key_bytes x p = Ok (key_pair_public_key_vec x kp)"
    by (simp add: proof_public_key_bytes_def p_def public_key_ser_def bytes_data_def bytes_data_from_def
        key_pair_public_key_vec_def)
  have 3: "signature_bytes x p =
      Ok (digest_to_vec 64 (lib_sig_serialize_compact x (lib_sign x m (kp_secret_key kp))))"
    by (simp add: signature_bytes_def p_def signature_data_def bytes_data_def bytes_data_from_def)
  have "util_verify x (digest_to_vec 32 (sha3_256 x s))
      (digest_to_vec 64 (lib_sig_serialize_compact x (lib_sign x m (kp_secret_key kp))))
      (key_pair_public_key_vec x kp) = Ok ()"
    using assms m(1) by (simp add: util_verify_def slice_def secp_law_def key_pair_public_key_vec_def
        result_error_msg_def)
  moreover have "proof_verify x (digest x s) p =
      and_then (signature_bytes x p) (\<lambda>sb. and_then (proof_public_key_bytes x p) (\<lambda>pb.
      util_verify x (digest_to_vec 32 (sha3_256 x s)) sb pb))"
    by (simp add: proof_verify_def p_def signature_data_def digest_def)
  ultimately show ?thesis using 1 2 3 by simp
qed

lemma key_pair_address_typed_eq:
  "\<exists>a. key_pair_address_typed x kp = Ok a \<and>
     and_then (address_hash x (key_pair_public_key_vec x kp)) (address_from_bytes x) = Ok a"
  using address_of_hash [of x "key_pair_public_key_vec x kp"]
  by (simp add: key_pair_address_typed_def public_key_address_def from_struct_public_def
      to_struct_public_key_def public_key_from_bytes_def key_pair_public_key_vec_def)

text \<open>The effect of the signing loop on one input.\<close>

definition signed_by :: "Address \<Rightarrow> Proof \<Rightarrow> Input \<Rightarrow> Input" where
  "signed_by addr p i = (case i_output i of
     Some o1 \<Rightarrow> if o_address o1 = Some addr then i \<lparr> i_proof := i_proof i @ [p] \<rparr> else i
   | None \<Rightarrow> i)"

definition pays_to :: "Address \<Rightarrow> Input \<Rightarrow> bool" where
  "pays_to addr i \<longleftrightarrow> (\<exists>o1. i_output i = Some o1 \<and> o_address o1 = Some addr)"

lemma sign_input_fold:
  assumes "from_keypair_hash x h kp = Ok p"
    and "\<forall>i \<in> set is. \<forall>o1. i_output i = Some o1 \<longrightarrow> o_address o1 \<noteq> None"
  shows "try_fold (sign_input x h addr kp) (js, b) is =
     Ok (js @ map (signed_by addr p) is, b \<or> (\<exists>i \<in> set is. pays_to addr i))"
  using assms(2)
proof (induction "is" arbitrary: js b)
  case (Cons i "is")
  have "sign_input x h addr kp (js, b) i = Ok (js @ [signed_by addr p i], b \<or> pays_to addr i)"
    using Cons.prems assms(1)
    by (auto simp: sign_input_def signed_by_def pays_to_def split: option.splits)
  with Cons show ?case by auto
qed simp

lemma signed_input_signed_by [simp]: "signed_input (signed_by addr p i) = signed_input i"
  by (simp add: signed_by_def signed_input_def split: option.splits)

lemma signed_by_output [simp]: "i_output (signed_by addr p i) = i_output i"
  by (simp add: signed_by_def split: option.splits)

lemma signed_by_verifies:
  assumes "proof_verify x h p = Ok ()" "proof_public_key_bytes x p = Ok b"
    "and_then (address_hash x b) (address_from_bytes x) = Ok addr"
    "pays_to addr i" "i_proof i = []"
  shows "input_verify x h (signed_by addr p i) = Ok ()"
proof -
  obtain o1 where o: "i_output i = Some o1" "o_address o1 = Some addr"
    using assms(4) by (auto simp: pays_to_def)
  then have pr: "i_proof (signed_by addr p i) = [p]" using assms(5) by (simp add: signed_by_def)
  have "proofs_to_address x [p] = Ok addr"
    by (simp only: proofs_to_address_single assms(2,3) and_then.simps)
  with o pr assms(1) show ?thesis
    by (simp add: input_verify_def input_verify_proof_def verify_proofs_def)
qed

text \<open>The transaction that signing returns, with the proof it attaches.\<close>

definition signed_tx :: "externals \<Rightarrow> Address \<Rightarrow> Proof \<Rightarrow> StructMetadata \<Rightarrow> Transaction \<Rightarrow> Transaction" where
  "signed_tx x addr p m t =
     (let t1 = t \<lparr> t_inputs := map (signed_by addr p) (t_inputs t) \<rparr> in
      t1 \<lparr> t_struct_metadata := Some (m \<lparr> sm_hash := Some (calculate_hash x t1),
        sm_signed_hash := Some (calculate_hash x t1) \<rparr>) \<rparr>)"

lemma signed_tx_sel [simp]:
  "t_outputs (signed_tx x addr p m t) = t_outputs t"
  "t_options (signed_tx x addr p m t) = t_options t"
  "t_inputs (signed_tx x addr p m t) = map (signed_by addr p) (t_inputs t)"
  "map_option sm_time (t_struct_metadata (signed_tx x addr p m t)) = Some (sm_time m)"
  by (simp_all add: signed_tx_def Let_def)

lemma sign_Ok:
  assumes law: "secp_law x (kp_secret_key kp) (kp_public_key kp)"
    and md: "t_struct_metadata t = Some m"
    and hyd: "\<forall>i \<in> set (t_inputs t). \<exists>o1 a. i_output i = Some o1 \<and> o_address o1 = Some a"
    and addr: "key_pair_address_typed x kp = Ok addr"
    and some: "\<exists>i \<in> set (t_inputs t). pays_to addr i"
  shows "\<exists>p. sign x kp t = Ok (signed_tx x addr p m t) \<and>
     proof_verify x (signable_hash x t) p = Ok () \<and>
     proof_public_key_bytes x p = Ok (key_pair_public_key_vec x kp)"
proof -
  define s where "s = enc_transaction x (signed_content t)"
  have h: "signable_hash x t = digest x s" by (simp add: signable_hash_content s_def)
  obtain p where p: "from_keypair_hash x (digest x s) kp = Ok p" "proof_verify x (digest x s) p = Ok ()"
    "proof_public_key_bytes x p = Ok (key_pair_public_key_vec x kp)"
    using from_keypair_hash_verifies [OF law] by blast
  have fold: "try_fold (sign_input x (digest x s) addr kp) ([], False) (t_inputs t) =
      Ok (map (signed_by addr p) (t_inputs t), True)"
    using sign_input_fold [OF p(1), of "t_inputs t" addr "[]" False] hyd some by fastforce
  have "sign x kp t = Ok (signed_tx x addr p m t)"
    using md by (simp add: sign_def h addr fold with_hash_def set_hash_def tx_struct_metadata_def
        signed_tx_def Let_def) (simp add: hash_or_def)
  with p h show ?thesis by auto
qed

text \<open>C18: Signing works: for a key pair whose signatures verify, signing a transaction that has
  struct metadata, hydrated inputs with addresses and at least one input locked to the
  key's address succeeds, keeps the signed hash, the outputs and the number of inputs,
  and every previously unsigned input locked to that address then verifies.\<close>

theorem sign_then_verify:
  assumes law: "secp_law x (kp_secret_key kp) (kp_public_key kp)"
    and md: "t_struct_metadata t = Some m"
    and hyd: "\<forall>i \<in> set (t_inputs t). \<exists>o1 a. i_output i = Some o1 \<and> o_address o1 = Some a"
    and addr: "key_pair_address_typed x kp = Ok addr"
    and some: "\<exists>i \<in> set (t_inputs t). pays_to addr i"
  shows "\<exists>t'. sign x kp t = Ok t' \<and> signable_hash x t' = signable_hash x t \<and>
     t_outputs t' = t_outputs t \<and> length (t_inputs t') = length (t_inputs t) \<and>
     (\<forall>k < length (t_inputs t). i_proof (t_inputs t ! k) = [] \<longrightarrow> pays_to addr (t_inputs t ! k) \<longrightarrow>
        input_verify x (signable_hash x t') (t_inputs t' ! k) = Ok ())"
proof -
  obtain p where p: "sign x kp t = Ok (signed_tx x addr p m t)" "proof_verify x (signable_hash x t) p = Ok ()"
    "proof_public_key_bytes x p = Ok (key_pair_public_key_vec x kp)"
    using sign_Ok [OF assms] by blast
  have ah: "and_then (address_hash x (key_pair_public_key_vec x kp)) (address_from_bytes x) = Ok addr"
    using key_pair_address_typed_eq [of x kp] addr by auto
  have sc: "signable_hash x (signed_tx x addr p m t) = signable_hash x t"
    using md by (intro signable_hash_cong)
      (simp add: signed_content_def signed_tx_def Let_def comp_def struct_metadata_hash_clear_def)
  have "input_verify x (signable_hash x t) (signed_by addr p (t_inputs t ! k)) = Ok ()"
    if "i_proof (t_inputs t ! k) = []" "pays_to addr (t_inputs t ! k)" for k
    using signed_by_verifies [OF p(2,3) ah that(2,1)] .
  then show ?thesis using p(1) sc by auto
qed

definition sample_kp :: KeyPair where
  "sample_kp = \<lparr> kp_secret_key = LibSecretKey [], kp_public_key = LibPublicKey [] \<rparr>"

definition sample_spend :: "Address \<Rightarrow> Transaction" where
  "sample_spend a = (new_blank 5 7) \<lparr>
     t_inputs := [input_default \<lparr> i_utxo_id := Some (utxo_id_new (hash_new [1]) 0),
                                  i_output := Some (output_new a 10) \<rparr>],
     t_outputs := [output_new a 10] \<rparr>"

theorem sign_then_verify_witness:
  "\<exists>a t'. key_pair_address_typed sample_ext sample_kp = Ok a \<and>
     sign sample_ext sample_kp (sample_spend a) = Ok t' \<and>
     input_verify sample_ext (signable_hash sample_ext t') (t_inputs t' ! 0) = Ok ()"
proof -
  obtain a where a: "key_pair_address_typed sample_ext sample_kp = Ok a"
    using key_pair_address_typed_eq by blast
  have "\<exists>t'. sign sample_ext sample_kp (sample_spend a) = Ok t' \<and>
     input_verify sample_ext (signable_hash sample_ext t') (t_inputs t' ! 0) = Ok ()"
    using sign_then_verify [of sample_ext sample_kp "sample_spend a" "the (struct_metadata 5)" a]
      sample_secp_law a
    by (auto simp: sample_kp_def sample_spend_def new_blank_def struct_metadata_def input_default_def
        output_new_def pays_to_def)
  with a show ?thesis by blast
qed

definition sample_floating :: Transaction where
  "sample_floating = (new_blank 5 7) \<lparr> t_inputs := [predicate_filter (new_raw [])],
     t_outputs := [output_new (new_raw []) 10],
     t_options := Some (tx_options_default \<lparr> to_network_type := Some (network_i32 Test) \<rparr>) \<rparr>"

theorem prevalidate_iff_witness: "prevalidate sample_ext sample_floating = Ok ()"
  unfolding prevalidate_iff
  by (auto simp: sample_floating_def sample_ext_def predicate_filter_def input_default_def
      tx_options_default_def List.map_filter_simps Let_def intro: exI [of _ Test])

end
