(* ===== verification/Tx_Builder.thy ===== *)
theory Tx_Builder
  imports Keys "HOL-Library.Multiset"
begin

text \<open>
  The transaction builder (\<open>src/core/transact/tx_builder_supports.rs\<close>).  Each
  method is a function on the builder record; the handles to the data store and
  to the API client, which the builder only stores, and the method that takes
  floating point bounds are left out.  The main results say that a built
  transaction always balances and that building succeeds exactly when the
  collected UTXOs cover the outputs.
\<close>

record TransactionBuilder =
  tb_transaction :: Transaction
  tb_utxos :: "UtxoEntry list"
  tb_used_utxos :: "UtxoEntry list"
  tb_network :: "NetworkEnvironment option"

definition push_output :: "Output \<Rightarrow> TransactionBuilder \<Rightarrow> TransactionBuilder" where
  "push_output o1 b = b \<lparr> tb_transaction := (tb_transaction b) \<lparr> t_outputs := t_outputs (tb_transaction b) @ [o1] \<rparr> \<rparr>"

definition push_input :: "Input \<Rightarrow> TransactionBuilder \<Rightarrow> TransactionBuilder" where
  "push_input i b = b \<lparr> tb_transaction := (tb_transaction b) \<lparr> t_inputs := t_inputs (tb_transaction b) @ [i] \<rparr> \<rparr>"

definition opts_or_default :: "TransactionBuilder \<Rightarrow> TransactionOptions" where
  "opts_or_default b = (case t_options (tb_transaction b) of Some o1 \<Rightarrow> o1 | None \<Rightarrow> tx_options_default)"

definition set_opts :: "TransactionOptions \<Rightarrow> TransactionBuilder \<Rightarrow> TransactionBuilder" where
  "set_opts o1 b = b \<lparr> tb_transaction := (tb_transaction b) \<lparr> t_options := Some o1 \<rparr> \<rparr>"

definition update_last :: "('a \<Rightarrow> 'a) \<Rightarrow> 'a list \<Rightarrow> 'a list" where
  "update_last f xs = (if xs = [] then [] else butlast xs @ [f (last xs)])"

definition update_last_output :: "(Output \<Rightarrow> Output) \<Rightarrow> TransactionBuilder \<Rightarrow> TransactionBuilder" where
  "update_last_output f b = b \<lparr> tb_transaction :=
     (tb_transaction b) \<lparr> t_outputs := update_last f (t_outputs (tb_transaction b)) \<rparr> \<rparr>"

definition with_network :: "NetworkEnvironment \<Rightarrow> TransactionBuilder \<Rightarrow> TransactionBuilder" where
  "with_network network b =
     set_opts ((opts_or_default b) \<lparr> to_network_type := Some (network_i32 network) \<rparr>)
       (b \<lparr> tb_network := Some network \<rparr>)"

definition builder_new :: "i64 \<Rightarrow> i64 \<Rightarrow> NetworkEnvironment \<Rightarrow> TransactionBuilder" where
  "builder_new now rnd network =
     with_network network \<lparr> tb_transaction = new_blank now rnd, tb_utxos = [], tb_used_utxos = [],
       tb_network = Some network \<rparr>"

definition tx_data_default :: TransactionData where
  "tx_data_default = \<lparr> tdat_message = None, tdat_time = None, tdat_standard_data = None \<rparr>"

definition with_options_height :: "i64 \<Rightarrow> TransactionBuilder \<Rightarrow> TransactionBuilder" where
  "with_options_height h b =
     (let options = opts_or_default b;
          data = (case to_data options of Some d \<Rightarrow> d | None \<Rightarrow> tx_data_default);
          sd = (case tdat_standard_data data of Some s \<Rightarrow> s | None \<Rightarrow> standard_data_default);
          sd = set_sd_height (Some h) sd;
          data = data \<lparr> tdat_standard_data := Some sd \<rparr>
      in set_opts (options \<lparr> to_data := Some data \<rparr>) b)"

definition with_is_test :: "TransactionBuilder \<Rightarrow> TransactionBuilder" where
  "with_is_test b = set_opts ((opts_or_default b) \<lparr> to_is_test := Some True \<rparr>) b"

definition with_input :: "Input \<Rightarrow> TransactionBuilder \<Rightarrow> TransactionBuilder" where
  "with_input input b = push_input input b"

definition with_observation :: "Observation \<Rightarrow> i64 \<Rightarrow> Address \<Rightarrow> TransactionBuilder \<Rightarrow> TransactionBuilder" where
  "with_observation ob h address b =
     (let b = with_options_height h b;
          output = (output_from_data (standard_data_observation ob)) \<lparr> o_address := Some address \<rparr>
      in push_output output b)"

definition with_no_salt :: "TransactionBuilder \<Rightarrow> TransactionBuilder" where
  "with_no_salt b = b \<lparr> tb_transaction := (tb_transaction b)
     \<lparr> t_options := map_option (\<lambda>o1. o1 \<lparr> to_salt := None \<rparr>) (t_options (tb_transaction b)) \<rparr> \<rparr>"

definition with_time :: "i64 option \<Rightarrow> TransactionBuilder \<Rightarrow> TransactionBuilder" where
  "with_time tm b = b \<lparr> tb_transaction := (tb_transaction b)
     \<lparr> t_struct_metadata := map_option (\<lambda>s. s \<lparr> sm_time := tm \<rparr>) (t_struct_metadata (tb_transaction b)) \<rparr> \<rparr>"

definition with_output :: "Address \<Rightarrow> CurrencyAmount \<Rightarrow> TransactionBuilder \<Rightarrow> TransactionBuilder" where
  "with_output destination amt b = push_output (output_new destination (ca_amount amt)) b"

definition with_fee :: "externals \<Rightarrow> Address \<Rightarrow> CurrencyAmount \<Rightarrow> TransactionBuilder \<Rightarrow> TransactionBuilder rg_result" where
  "with_fee x destination amt b =
     (let b = with_output destination amt b in
      if t_outputs (tb_transaction b) = [] then Err (error_info x ''Missing output'')
      else Ok (update_last_output (\<lambda>o1. o1 \<lparr> o_output_type := Some (output_type_i32 Fee) \<rparr>) b))"

definition with_utxo :: "externals \<Rightarrow> UtxoEntry \<Rightarrow> TransactionBuilder \<Rightarrow> TransactionBuilder rg_result" where
  "with_utxo x utxo_entry b =
     and_then (safe_get_msg x ''Missing output'' (ue_output utxo_entry)) (\<lambda>o1.
     and_then (safe_get_msg x ''Missing address'' (o_address o1)) (\<lambda>_.
     and_then (safe_ensure_amount x o1) (\<lambda>_.
     Ok (b \<lparr> tb_utxos := tb_utxos b @ [utxo_entry] \<rparr>))))"

definition with_maybe_currency_utxo ::
    "externals \<Rightarrow> UtxoEntry \<Rightarrow> TransactionBuilder \<Rightarrow> TransactionBuilder rg_result" where
  "with_maybe_currency_utxo x utxo_entry b =
     and_then (safe_get_msg x ''Missing output'' (ue_output utxo_entry)) (\<lambda>o1.
     if is_ok (safe_ensure_amount x o1) then with_utxo x utxo_entry b else Ok b)"

definition with_utxos :: "externals \<Rightarrow> UtxoEntry list \<Rightarrow> TransactionBuilder \<Rightarrow> TransactionBuilder rg_result" where
  "with_utxos x us b = try_fold (\<lambda>b u. with_maybe_currency_utxo x u b) b us"

definition with_address_info :: "externals \<Rightarrow> AddressInfo \<Rightarrow> TransactionBuilder \<Rightarrow> TransactionBuilder rg_result" where
  "with_address_info x ai b = try_fold (\<lambda>b u. with_utxo x u b) b (ai_utxo_entries ai)"

definition with_message :: "string \<Rightarrow> TransactionBuilder \<Rightarrow> TransactionBuilder rg_result" where
  "with_message msg b =
     (case t_options (tb_transaction b) of
        None \<Rightarrow> Panic []
      | Some o1 \<Rightarrow>
          let data = (case to_data o1 of
                None \<Rightarrow> tx_data_default \<lparr> tdat_message := Some msg \<rparr>
              | Some d \<Rightarrow> d \<lparr> tdat_message := Some msg \<rparr>)
          in Ok (set_opts (o1 \<lparr> to_data := Some data \<rparr>) b))"

definition output_contract_default :: OutputContract where
  "output_contract_default = \<lparr> oc_standard_contract_type = None, oc_code_execution_contract = None,
     oc_threshold = None, oc_weights = [], oc_pay_update_descendents = False, oc_consumable = False \<rparr>"

definition with_contract_request_output ::
    "Address \<Rightarrow> bytes \<Rightarrow> TransactionBuilder \<Rightarrow> TransactionBuilder rg_result" where
  "with_contract_request_output destination serialized_request b =
     Ok (push_output (output_default \<lparr> o_address := Some destination,
       o_contract := Some (output_contract_default \<lparr> oc_pay_update_descendents := True \<rparr>),
       o_data := Some (set_sd_request (bytes_data serialized_request) standard_data_default),
       o_output_type := Some (output_type_i32 RequestCall) \<rparr>) b)"

definition deploy_output :: "Address \<Rightarrow> bytes \<Rightarrow> CurrencyAmount \<Rightarrow> Output" where
  "deploy_output destination cd c_amount =
     (let code_exec = \<lparr> cec_address = None, cec_code = bytes_data cd,
                        cec_executor = Some executor_backend_extism \<rparr>;
          contract = output_contract_default \<lparr> oc_code_execution_contract := Some code_exec \<rparr>
      in output_default \<lparr> o_address := Some destination,
           o_output_type := Some (output_type_i32 Deploy), o_contract := Some contract,
           o_data := amount_data (ca_amount c_amount) \<rparr>)"

definition with_contract_deploy_output_and_predicate_input ::
    "externals \<Rightarrow> bytes \<Rightarrow> CurrencyAmount \<Rightarrow> bool \<Rightarrow> TransactionBuilder \<Rightarrow> TransactionBuilder rg_result" where
  "with_contract_deploy_output_and_predicate_input x cd c_amount use_predicate_input b =
     and_then (script_hash x cd) (\<lambda>destination.
     let b = push_output (deploy_output destination cd c_amount) b in
     if use_predicate_input then Ok (push_input (predicate_filter destination) b) else Ok b)"

definition with_last_output_deposit_swap_fulfillment :: "string \<Rightarrow> TransactionBuilder \<Rightarrow> TransactionBuilder" where
  "with_last_output_deposit_swap_fulfillment btc_txid b =
     update_last_output (\<lambda>o1. o1 \<lparr> o_data := map_option
       (set_sd_external_transaction_id (Some \<lparr> eti_identifier = btc_txid \<rparr>)) (o_data o1) \<rparr>) b"

definition with_last_output_contract_type ::
    "StandardContractType \<Rightarrow> TransactionBuilder \<Rightarrow> TransactionBuilder" where
  "with_last_output_contract_type contract_type b =
     update_last_output (\<lambda>o1. o1 \<lparr> o_contract := Some (output_contract_default
       \<lparr> oc_standard_contract_type := Some (standard_contract_i32 contract_type) \<rparr>) \<rparr>) b"

definition with_last_output_withdrawal_swap :: "TransactionBuilder \<Rightarrow> TransactionBuilder rg_result" where
  "with_last_output_withdrawal_swap b =
     (let b' = update_last_output (\<lambda>o1. o1 \<lparr> o_contract := Some (output_contract_default
          \<lparr> oc_standard_contract_type := Some (standard_contract_i32 SC_Swap) \<rparr>) \<rparr>) b in
      if t_outputs (tb_transaction b) \<noteq> [] \<and> \<not> is_swap (last (t_outputs (tb_transaction b'))) then
        Panic ''assertion failed: o.is_swap()''
      else Ok b')"

definition with_last_output_stake :: "TransactionBuilder \<Rightarrow> TransactionBuilder" where
  "with_last_output_stake b = with_last_output_contract_type SC_Stake b"

definition with_unsigned_input :: "externals \<Rightarrow> UtxoEntry \<Rightarrow> TransactionBuilder \<Rightarrow> TransactionBuilder rg_result" where
  "with_unsigned_input x utxo b =
     (let input = to_input utxo in
      and_then (safe_get x (ue_output utxo)) (\<lambda>output.
      and_then (safe_get x (o_data output)) (\<lambda>_.
      Ok (push_input input (b \<lparr> tb_used_utxos := tb_used_utxos b @ [utxo] \<rparr>)))))"

definition balance :: "TransactionBuilder \<Rightarrow> i64" where
  "balance b = total_input_amount (tb_transaction b) - total_output_amount (tb_transaction b)"

definition with_remainder :: "TransactionBuilder \<Rightarrow> TransactionBuilder rg_result" where
  "with_remainder b =
     (case t_inputs (tb_transaction b) of
        [] \<Rightarrow> Panic ''missing head''
      | i # _ \<Rightarrow>
          (case i_output i of
             None \<Rightarrow> Panic ''o''
           | Some o1 \<Rightarrow>
               (case o_address o1 of
                  None \<Rightarrow> Panic ''address''
                | Some address \<Rightarrow> Ok (push_output (output_new address (balance b)) b))))"

text \<open>The unsigned sort key of the UTXOs; a comparison panics on a missing amount.\<close>

definition sort_utxos :: "UtxoEntry list \<Rightarrow> UtxoEntry list rg_result" where
  "sort_utxos us =
     (if 2 \<le> length us \<and> \<not> list_all (\<lambda>u. is_ok (utxo_entry_amount u)) us
      then Panic ''called `Option::unwrap()` on a `None` value''
      else Ok (sort_key (\<lambda>u. case utxo_entry_amount u of Ok a \<Rightarrow> a | _ \<Rightarrow> 0) us))"

fun add_inputs :: "externals \<Rightarrow> UtxoEntry list \<Rightarrow> TransactionBuilder \<Rightarrow> TransactionBuilder rg_result" where
  "add_inputs x [] b = Ok b"
| "add_inputs x (u # us) b = and_then (with_unsigned_input x u b) (\<lambda>b.
     if 0 < sint (balance b) then Ok b else add_inputs x us b)"

definition build :: "externals \<Rightarrow> TransactionBuilder \<Rightarrow> (TransactionBuilder \<times> Transaction) rg_result" where
  "build x b =
     and_then (sort_utxos (tb_utxos b)) (\<lambda>us.
     let b = b \<lparr> tb_utxos := us \<rparr> in
     and_then (add_inputs x us b) (\<lambda>b.
     if sint (balance b) < 0 then Err (error_info x ''Insufficient funds'')
     else if 0 < sint (balance b) then
       and_then (with_remainder b) (\<lambda>b. Ok (b, tb_transaction b))
     else Ok (b, tb_transaction b)))"

definition with_output_peer_data :: "Address \<Rightarrow> PeerMetadata \<Rightarrow> i64 \<Rightarrow> TransactionBuilder \<Rightarrow> TransactionBuilder" where
  "with_output_peer_data destination pd h b =
     (let option = set_sd_height (Some h) (set_sd_peer_data (Some pd) standard_data_default);
          b = with_options_height h b
      in push_output (output_default \<lparr> o_address := Some destination, o_data := Some option \<rparr>) b)"

definition with_output_node_metadata :: "Address \<Rightarrow> NodeMetadata \<Rightarrow> i64 \<Rightarrow> TransactionBuilder \<Rightarrow> TransactionBuilder" where
  "with_output_node_metadata destination pd h b =
     push_output (output_default \<lparr> o_address := Some destination,
       o_data := Some (set_sd_height (Some h) (set_sd_node_metadata (Some pd) standard_data_default)) \<rparr>) b"

definition genesis_peer_data :: "externals \<Rightarrow> TransactionBuilder \<Rightarrow> TransactionBuilder rg_result" where
  "genesis_peer_data x b =
     (if t_outputs (tb_transaction b) = [] then Panic ''o''
      else and_then (expect [] (time x (tb_transaction b))) (\<lambda>_. Ok b))"

definition with_genesis_input :: "Address \<Rightarrow> TransactionBuilder \<Rightarrow> TransactionBuilder" where
  "with_genesis_input address b =
     push_input (input_default \<lparr> i_input_type := Some input_type_genesis,
       i_output := Some (output_default \<lparr> o_address := Some address \<rparr>) \<rparr>) b"

text \<open>The one-shot constructor; the scaled amount of the source is computed and never used.\<close>

definition transaction_new ::
    "externals \<Rightarrow> i64 \<Rightarrow> i64 \<Rightarrow> UtxoEntry \<Rightarrow> bytes \<Rightarrow> u64 \<Rightarrow> KeyPair \<Rightarrow> Transaction rg_result" where
  "transaction_new x now rnd source destination amt key_pair =
     (let amount_actual = (if amt < MAX_COIN_SUPPLY then amt * DECIMAL_MULTIPLIER else amt);
          c_amount = currency_amount_from amt in
      and_then (expect ''called `Result::unwrap()` on an `Err` value'' (address_from_bytes x destination)) (\<lambda>d.
      and_then (expect [] (with_utxo x source (builder_new now rnd Debug))) (\<lambda>b.
      and_then (expect [] (build x (with_output d c_amount b))) (\<lambda>(_, t).
      expect [] (sign x key_pair t)))))"

section \<open>Balances\<close>

text \<open>What an input or an output contributes to the totals.\<close>

definition out_amt :: "Output \<Rightarrow> i64" where
  "out_amt o1 = (case opt_amount o1 of Some a \<Rightarrow> a | None \<Rightarrow> 0)"

definition in_amt :: "Input \<Rightarrow> i64" where
  "in_amt i = (case i_output i of Some o1 \<Rightarrow> out_amt o1 | None \<Rightarrow> 0)"

lemma sum_map_filter:
  "sum_list (List.map_filter f xs) = sum_list (map (\<lambda>y. case f y of Some a \<Rightarrow> a | None \<Rightarrow> (0 :: 'b::comm_monoid_add)) xs)"
  by (induction xs) (auto simp: List.map_filter_simps split: option.splits)

lemma total_output_amount_out_amt: "total_output_amount t = sum_list (map out_amt (t_outputs t))"
  unfolding total_output_amount_sum sum_map_filter out_amt_def ..

lemma total_input_amount_in_amt: "total_input_amount t = sum_list (map in_amt (t_inputs t))"
proof -
  have "sum_list (List.map_filter opt_amount (List.map_filter i_output is)) = sum_list (map in_amt is)" for "is"
    by (induction "is") (auto simp: List.map_filter_simps in_amt_def out_amt_def split: option.splits)
  then show ?thesis by (simp add: total_input_amount_def)
qed

lemma out_amt_output_new [simp]: "out_amt (output_new a v) = v"
  by (simp add: out_amt_def opt_amount_def output_new_def amount_data_def currency_amount_from_def
      standard_data_default_def)

lemma push_simps [simp]:
  "t_outputs (tb_transaction (push_input i b)) = t_outputs (tb_transaction b)"
  "t_inputs (tb_transaction (push_input i b)) = t_inputs (tb_transaction b) @ [i]"
  "t_inputs (tb_transaction (push_output o1 b)) = t_inputs (tb_transaction b)"
  "t_outputs (tb_transaction (push_output o1 b)) = t_outputs (tb_transaction b) @ [o1]"
  by (simp_all add: push_input_def push_output_def)

lemma balance_push_output: "balance (push_output o1 b) = balance b - out_amt o1"
  by (simp add: balance_def total_output_amount_out_amt total_input_amount_in_amt algebra_simps)

lemma with_remainder_Ok:
  "with_remainder b = Ok b' \<longleftrightarrow>
     (\<exists>i is o1 a. t_inputs (tb_transaction b) = i # is \<and> i_output i = Some o1 \<and> o_address o1 = Some a \<and>
        b' = push_output (output_new a (balance b)) b)"
  by (auto simp: with_remainder_def split: list.splits option.splits)

lemma with_unsigned_input_Ok:
  "with_unsigned_input x u b = Ok b' \<longleftrightarrow>
     (\<exists>o1 d. ue_output u = Some o1 \<and> o_data o1 = Some d \<and>
        b' = push_input (to_input u) (b \<lparr> tb_used_utxos := tb_used_utxos b @ [u] \<rparr>))"
  by (auto simp: with_unsigned_input_def Let_def result_simps)

lemma add_inputs_shape:
  "add_inputs x us b = Ok b' \<Longrightarrow> \<exists>k \<le> length us.
     t_inputs (tb_transaction b') = t_inputs (tb_transaction b) @ map to_input (take k us) \<and>
     t_outputs (tb_transaction b') = t_outputs (tb_transaction b) \<and>
     (k = length us \<or> 0 < sint (balance b'))"
proof (induction x us b rule: add_inputs.induct)
  case (2 x u us b)
  from "2.prems" obtain b1 where b1: "with_unsigned_input x u b = Ok b1"
    "(if 0 < sint (balance b1) then Ok b1 else add_inputs x us b1) = Ok b'"
    by (auto simp: result_simps)
  have sh: "t_inputs (tb_transaction b1) = t_inputs (tb_transaction b) @ [to_input u]"
    "t_outputs (tb_transaction b1) = t_outputs (tb_transaction b)"
    using b1(1) by (auto simp: with_unsigned_input_Ok)
  show ?case
  proof (cases "0 < sint (balance b1)")
    case True
    with b1(2) sh show ?thesis by (intro exI [of _ 1]) auto
  next
    case False
    with "2.IH" [OF b1(1) False] b1(2) obtain k where "k \<le> length us"
      "t_inputs (tb_transaction b') = t_inputs (tb_transaction b1) @ map to_input (take k us)"
      "t_outputs (tb_transaction b') = t_outputs (tb_transaction b1)"
      "k = length us \<or> 0 < sint (balance b')" by auto
    with sh show ?thesis by (intro exI [of _ "Suc k"]) auto
  qed
qed auto

lemma build_eq_Ok:
  "build x b = Ok (b', t) \<longleftrightarrow>
     (\<exists>us b1. sort_utxos (tb_utxos b) = Ok us \<and> add_inputs x us (b \<lparr> tb_utxos := us \<rparr>) = Ok b1 \<and>
        \<not> sint (balance b1) < 0 \<and> t = tb_transaction b' \<and>
        (if 0 < sint (balance b1) then with_remainder b1 = Ok b' else b' = b1))"
  by (auto simp: build_def Let_def result_simps split: if_splits)

text \<open>C8: Whatever \<open>build\<close> returns balances: the hydrated inputs and the outputs have the same
  total (modulo 2^64).  Its inputs are those the builder had, followed by a prefix of the
  UTXOs in ascending order of amount, and its outputs those the builder had, followed by
  at most one change output with a positive amount.\<close>

theorem build_balances:
  assumes "build x b = Ok (b', t)"
  shows "total_input_amount t = total_output_amount t \<and>
     (\<exists>us k. sort_utxos (tb_utxos b) = Ok us \<and>
        t_inputs t = t_inputs (tb_transaction b) @ map to_input (take k us)) \<and>
     (t_outputs t = t_outputs (tb_transaction b) \<or>
      (\<exists>a r. 0 < sint r \<and> t_outputs t = t_outputs (tb_transaction b) @ [output_new a r]))"
proof -
  obtain us b1 where b1: "sort_utxos (tb_utxos b) = Ok us" "add_inputs x us (b \<lparr> tb_utxos := us \<rparr>) = Ok b1"
    "\<not> sint (balance b1) < 0" "t = tb_transaction b'"
    "if 0 < sint (balance b1) then with_remainder b1 = Ok b' else b' = b1"
    using assms by (auto simp: build_eq_Ok)
  obtain k where k: "t_inputs (tb_transaction b1) = t_inputs (tb_transaction b) @ map to_input (take k us)"
    "t_outputs (tb_transaction b1) = t_outputs (tb_transaction b)"
    using add_inputs_shape [OF b1(2)] by auto
  show ?thesis
  proof (cases "0 < sint (balance b1)")
    case True
    with b1(5) obtain a where b': "b' = push_output (output_new a (balance b1)) b1"
      by (auto simp: with_remainder_Ok)
    then have "balance b' = 0" by (simp add: balance_push_output)
    with b' k b1 True show ?thesis by (auto simp: balance_def)
  next
    case False
    with b1(3) have "sint (balance b1) = 0" by simp
    then have "balance b1 = 0" by (metis signed_eq_0_iff)
    with False k b1 show ?thesis by (auto simp: balance_def)
  qed
qed

section \<open>When building succeeds\<close>

lemma sum_list_map_nonneg: "\<forall>u \<in> set us. 0 \<le> f u \<Longrightarrow> 0 \<le> (sum_list (map f us) :: int)"
  by (induction us) auto

lemma sint_sum_list:
  fixes ws :: "i64 list"
  assumes "\<forall>w \<in> set ws. 0 \<le> sint w" "sum_list (map sint ws) < 2 ^ 63"
  shows "sint (sum_list ws) = sum_list (map sint ws)"
  using assms
proof (induction ws)
  case (Cons w ws)
  have nn: "0 \<le> sum_list (map sint ws)" using Cons.prems(1) by (intro sum_list_map_nonneg) simp
  then have IH: "sint (sum_list ws) = sum_list (map sint ws)" using Cons by auto
  have "sint (w + sum_list ws) = signed_take_bit 63 (sint w + sum_list (map sint ws))"
    by (simp add: sint_word_ariths IH)
  also have "\<dots> = sint w + sum_list (map sint ws)"
    using Cons.prems nn by (intro signed_take_bit_int_eq_self) auto
  finally show ?case by simp
qed simp

lemma sint_diff_nonneg:
  fixes a c :: i64
  assumes "0 \<le> sint a" "0 \<le> sint c"
  shows "sint (a - c) = sint a - sint c"
proof -
  have "sint a < 2 ^ 63" "sint c < 2 ^ 63" using sint_lt [of a] sint_lt [of c] by simp_all
  then show ?thesis
    using assms by (simp add: sint_word_ariths signed_take_bit_int_eq_self)
qed

text \<open>A spendable UTXO: it has an address and a non-negative amount.\<close>

definition spendable :: "UtxoEntry \<Rightarrow> bool" where
  "spendable u \<longleftrightarrow> (\<exists>o1 a v. ue_output u = Some o1 \<and> o_address o1 = Some a \<and> opt_amount o1 = Some v \<and> 0 \<le> sint v)"

definition utxo_amt :: "UtxoEntry \<Rightarrow> int" where
  "utxo_amt u = sint (in_amt (to_input u))"

lemma spendable_to_input:
  "spendable u \<Longrightarrow> \<exists>o1 a. i_output (to_input u) = Some o1 \<and> o_address o1 = Some a \<and> 0 \<le> utxo_amt u"
  by (auto simp: spendable_def to_input_def utxo_amt_def in_amt_def out_amt_def)

lemma add_inputs_Ok: "\<forall>u \<in> set us. spendable u \<Longrightarrow> \<exists>b'. add_inputs x us b = Ok b'"
proof (induction us arbitrary: b)
  case (Cons u us)
  then obtain b1 where "with_unsigned_input x u b = Ok b1"
    by (auto simp: with_unsigned_input_Ok spendable_def opt_amount_def bind_eq_Some_conv)
  with Cons show ?case by (cases "0 < sint (balance b1)") auto
qed simp

lemma spendable_amount_ok: "spendable u \<Longrightarrow> is_ok (utxo_entry_amount u)"
  by (auto simp: spendable_def utxo_entry_amount_def amount_def amount_i64_def opt_amount_def
      bind_eq_Some_conv)

lemma sort_utxos_Ok:
  assumes "\<forall>u \<in> set us. spendable u"
  shows "\<exists>us'. sort_utxos us = Ok us' \<and> mset us' = mset us"
  using assms spendable_amount_ok by (auto simp: sort_utxos_def list_all_iff)

lemma sum_take_le:
  "\<forall>u \<in> set us. 0 \<le> f u \<Longrightarrow> sum_list (map f (take k us)) \<le> (sum_list (map f us) :: int)"
proof (induction us arbitrary: k)
  case (Cons u us)
  then show ?case using sum_list_map_nonneg [of us f] by (cases k) auto
qed simp

lemma sint_balance:
  assumes "t_inputs (tb_transaction b) = map to_input us" "\<forall>u \<in> set us. spendable u"
    "sum_list (map utxo_amt us) < 2 ^ 63"
    "\<forall>o1 \<in> set (t_outputs (tb_transaction b)). 0 \<le> sint (out_amt o1)"
    "sum_list (map (\<lambda>o1. sint (out_amt o1)) (t_outputs (tb_transaction b))) < 2 ^ 63"
  shows "sint (balance b) = sum_list (map utxo_amt us) -
     sum_list (map (\<lambda>o1. sint (out_amt o1)) (t_outputs (tb_transaction b)))"
proof -
  let ?ins = "map in_amt (map to_input us)" and ?outs = "map out_amt (t_outputs (tb_transaction b))"
  have nn: "\<forall>u \<in> set us. 0 \<le> utxo_amt u" using assms(2) spendable_to_input by blast
  have m: "map sint ?ins = map utxo_amt us"
    "map sint ?outs = map (\<lambda>o1. sint (out_amt o1)) (t_outputs (tb_transaction b))"
    by (simp_all add: utxo_amt_def)
  have 1: "sint (total_input_amount (tb_transaction b)) = sum_list (map utxo_amt us)"
    unfolding total_input_amount_in_amt assms(1) m(1) [symmetric]
    using nn assms(3) by (intro sint_sum_list) (simp_all only: m, simp_all add: utxo_amt_def)
  have 2: "sint (total_output_amount (tb_transaction b)) =
      sum_list (map (\<lambda>o1. sint (out_amt o1)) (t_outputs (tb_transaction b)))"
    unfolding total_output_amount_out_amt m(2) [symmetric]
    using assms(4,5) by (intro sint_sum_list) (simp_all only: m, simp_all)
  have "0 \<le> sum_list (map utxo_amt us)" using nn by (rule sum_list_map_nonneg)
  moreover have "0 \<le> sum_list (map (\<lambda>o1. sint (out_amt o1)) (t_outputs (tb_transaction b)))"
    using assms(4) by (rule sum_list_map_nonneg)
  ultimately show ?thesis
    unfolding balance_def by (subst sint_diff_nonneg) (simp_all add: 1 2)
qed

text \<open>C22: Building succeeds exactly when the funds suffice: for a builder with no inputs yet,
  spendable UTXOs and non-negative outputs whose sums do not overflow, \<open>build\<close> returns a
  transaction when the UTXOs are worth at least the outputs and otherwise fails with the
  insufficient-funds error; it never panics.\<close>

theorem build_succeeds_iff_funded:
  assumes "t_inputs (tb_transaction b) = []"
    and sp: "\<forall>u \<in> set (tb_utxos b). spendable u"
    and "sum_list (map utxo_amt (tb_utxos b)) < 2 ^ 63"
    and outs: "\<forall>o1 \<in> set (t_outputs (tb_transaction b)). 0 \<le> sint (out_amt o1)"
    and "sum_list (map (\<lambda>o1. sint (out_amt o1)) (t_outputs (tb_transaction b))) < 2 ^ 63"
  shows "if sum_list (map (\<lambda>o1. sint (out_amt o1)) (t_outputs (tb_transaction b)))
            \<le> sum_list (map utxo_amt (tb_utxos b))
         then \<exists>b' t. build x b = Ok (b', t)
         else build x b = Err (error_info x ''Insufficient funds'')"
proof -
  let ?out = "sum_list (map (\<lambda>o1. sint (out_amt o1)) (t_outputs (tb_transaction b)))"
  obtain us where us: "sort_utxos (tb_utxos b) = Ok us" "mset us = mset (tb_utxos b)"
    using sort_utxos_Ok [OF sp] by blast
  have sp': "\<forall>u \<in> set us. spendable u" using sp us(2) mset_eq_setD by blast
  have nn: "\<forall>u \<in> set us. 0 \<le> utxo_amt u" using sp' spendable_to_input by blast
  have tot: "sum_list (map utxo_amt us) = sum_list (map utxo_amt (tb_utxos b))"
    using us(2) by (metis mset_map sum_mset_sum_list)
  obtain b1 where b1: "add_inputs x us (b \<lparr> tb_utxos := us \<rparr>) = Ok b1"
    using add_inputs_Ok [OF sp'] by blast
  obtain k where k: "t_inputs (tb_transaction b1) = map to_input (take k us)"
    "t_outputs (tb_transaction b1) = t_outputs (tb_transaction b)"
    "k = length us \<or> 0 < sint (balance b1)"
    using add_inputs_shape [OF b1] assms(1) by auto
  have le: "sum_list (map utxo_amt (take k us)) \<le> sum_list (map utxo_amt us)"
    by (rule sum_take_le [OF nn])
  have bal: "sint (balance b1) = sum_list (map utxo_amt (take k us)) - ?out"
    using sint_balance [OF k(1)] sp' le tot assms(3-5) k(2) by (auto dest: in_set_takeD)
  have unf: "build x b = (if sint (balance b1) < 0 then Err (error_info x ''Insufficient funds'')
     else if 0 < sint (balance b1) then and_then (with_remainder b1) (\<lambda>b. Ok (b, tb_transaction b))
     else Ok (b1, tb_transaction b1))"
    by (simp add: build_def us(1) b1)
  show ?thesis
  proof (cases "?out \<le> sum_list (map utxo_amt (tb_utxos b))")
    case True
    then have nneg: "\<not> sint (balance b1) < 0" using k(3) bal tot by auto
    show ?thesis
    proof (cases "0 < sint (balance b1)")
      case pos: True
      then have "take k us \<noteq> []" using bal sum_list_map_nonneg [OF outs] by (cases "take k us") auto
      then obtain u us' where "take k us = u # us'" by (cases "take k us") auto
      moreover from this have "spendable u" using sp' by (metis in_set_takeD list.set_intros(1))
      ultimately have "\<exists>b'. with_remainder b1 = Ok b'"
        using k(1) spendable_to_input [of u] by (auto simp: with_remainder_Ok)
      with pos nneg True unf show ?thesis by auto
    qed (use nneg True unf in auto)
  next
    case False
    then have "sint (balance b1) < 0" using bal le tot by linarith
    with False unf show ?thesis by simp
  qed
qed

definition sample_utxo :: "i64 \<Rightarrow> i64 \<Rightarrow> UtxoEntry" where
  "sample_utxo i v = \<lparr> ue_utxo_id = Some (utxo_id_new (hash_new [1]) i),
     ue_output = Some (output_new (new_raw [9]) v), ue_time = 0 \<rparr>"

definition sample_builder :: TransactionBuilder where
  "sample_builder = (with_output (new_raw [8]) (currency_amount_from 7) (builder_new 1 2 Debug))
     \<lparr> tb_utxos := [sample_utxo 0 6, sample_utxo 1 4] \<rparr>"

lemma sample_builder_parts:
  "tb_utxos sample_builder = [sample_utxo 0 6, sample_utxo 1 4]"
  "t_inputs (tb_transaction sample_builder) = []"
  "t_outputs (tb_transaction sample_builder) = [output_new (new_raw [8]) 7]"
  by (simp_all add: sample_builder_def with_output_def push_output_def builder_new_def with_network_def
      set_opts_def new_blank_def tx_default_def currency_amount_from_def)

lemma sample_utxo_facts:
  "0 \<le> sint v \<Longrightarrow> spendable (sample_utxo i v)" "utxo_amt (sample_utxo i v) = sint v"
  by (simp_all add: spendable_def sample_utxo_def output_new_def utxo_amt_def to_input_def in_amt_def
      out_amt_def opt_amount_def amount_data_def currency_amount_from_def standard_data_default_def)

theorem build_succeeds_iff_funded_witness: "\<exists>b' t. build sample_ext sample_builder = Ok (b', t)"
  using build_succeeds_iff_funded [of sample_builder sample_ext]
  by (simp add: sample_builder_parts sample_utxo_facts)

theorem build_balances_witness:
  "\<exists>b' t. build sample_ext sample_builder = Ok (b', t) \<and> total_input_amount t = total_output_amount t"
proof -
  have "is_ok (build sample_ext sample_builder)"
    by code_simp
  then obtain b' t where "build sample_ext sample_builder = Ok (b', t)" by (auto simp: is_ok_iff)
  with build_balances show ?thesis by blast
qed

text \<open>A deployed contract is recognised: for non-empty code the deploy output that the builder
  appends passes the deploy check, which returns the code, and the predicate input it
  may append selects the address of that output.\<close>

theorem deploy_output_valid:
  assumes "cd \<noteq> []"
  shows "\<exists>b' a. with_contract_deploy_output_and_predicate_input x cd amt pred b = Ok b' \<and>
     validate_deploy_code x (last (t_outputs (tb_transaction b'))) = Ok cd \<and>
     o_address (last (t_outputs (tb_transaction b'))) = Some a \<and>
     t_inputs (tb_transaction b') = t_inputs (tb_transaction b) @ (if pred then [predicate_filter a] else [])"
proof -
  obtain a where a: "script_hash x cd = Ok a" using script_hash_eq by blast
  have "validate_deploy_code x (deploy_output a cd amt) = Ok cd"
    using assms a by (simp add: validate_deploy_code_Ok is_deploy_def code_def deploy_output_def
        output_default_def bytes_data_def bytes_data_from_def Let_def)
  moreover have "o_address (deploy_output a cd amt) = Some a"
    by (simp add: deploy_output_def Let_def)
  ultimately show ?thesis
    using a by (simp add: with_contract_deploy_output_and_predicate_input_def Let_def)
qed

theorem deploy_output_valid_witness:
  "\<exists>b'. with_contract_deploy_output_and_predicate_input sample_ext [1] (currency_amount_from 5) True
      sample_builder = Ok b' \<and> validate_deploy_code sample_ext (last (t_outputs (tb_transaction b'))) = Ok [1]"
  using deploy_output_valid [of "[1]" sample_ext "currency_amount_from 5" True sample_builder] by auto

end
