(* ===== verification/Merkle.thy ===== *)
theory Merkle
  imports Hash_Address
begin

text \<open>
  Merkle trees over hashes (\<open>schema/src/util/merkle.rs\<close>) and the verification of
  inclusion proofs (\<open>schema/src/merkle_proof.rs\<close>).  The two unbounded loops of
  the source, the level-by-level construction and the walk from a leaf to the
  root, are partial functions; the lemmas show that both return on the trees
  the code builds, and that the proofs found there verify.
\<close>

section \<open>Trees\<close>

record MerkleEntry =
  me_parent :: Hash
  me_left :: Hash
  me_right :: Hash

record MerkleTree =
  mt_root :: Hash
  mt_entries :: "MerkleEntry list"
  mt_parent_lookup :: "bytes \<Rightarrow> MerkleEntry option"
  mt_child_to_parent :: "bytes \<Rightarrow> MerkleEntry option"

definition merkle_tree_insert ::
    "externals \<Rightarrow> (bytes \<rightharpoonup> MerkleEntry) \<times> (bytes \<rightharpoonup> MerkleEntry) \<Rightarrow> MerkleEntry \<Rightarrow>
     ((bytes \<rightharpoonup> MerkleEntry) \<times> (bytes \<rightharpoonup> MerkleEntry)) rg_result" where
  "merkle_tree_insert x maps entry =
     and_then (hash_vec x (me_parent entry)) (\<lambda>p.
     and_then (hash_vec x (me_left entry)) (\<lambda>l.
     and_then (hash_vec x (me_right entry)) (\<lambda>r.
     Ok ((fst maps)(p \<mapsto> entry), (snd maps)(l \<mapsto> entry, r \<mapsto> entry)))))"

definition merkle_tree_new :: "externals \<Rightarrow> MerkleEntry list \<Rightarrow> MerkleTree rg_result" where
  "merkle_tree_new x entries =
     and_then (try_fold (merkle_tree_insert x) (Map.empty, Map.empty) entries) (\<lambda>maps.
     if entries = [] then Panic ''Missing root''
     else Ok \<lparr> mt_root = me_parent (last entries), mt_entries = entries,
               mt_parent_lookup = fst maps, mt_child_to_parent = snd maps \<rparr>)"

definition pad :: "Hash list \<Rightarrow> Hash list" where
  "pad hashes = (if length hashes mod 2 = 1 then hashes @ [last hashes] else hashes)"

text \<open>One pass of the outer loop over the padded level: the next level and its entries.\<close>

fun build_level :: "externals \<Rightarrow> Hash list \<Rightarrow> (Hash list \<times> MerkleEntry list) rg_result" where
  "build_level x [] = Ok ([], [])"
| "build_level x [left] = Panic ''index out of bounds''"
| "build_level x (left # right # rest) =
    and_then (merkle_combine x left right) (\<lambda>parent.
    and_then (build_level x rest) (\<lambda>(new_leafs, entries).
    Ok (parent # new_leafs, \<lparr> me_parent = parent, me_left = left, me_right = right \<rparr> # entries)))"

partial_function (option) build_loop ::
    "externals \<Rightarrow> Hash list \<Rightarrow> MerkleEntry list \<Rightarrow> MerkleEntry list rg_result option" where
  "build_loop x leafs entries =
     (case build_level x (pad leafs) of
        Err e \<Rightarrow> Some (Err e)
      | Panic m \<Rightarrow> Some (Panic m)
      | Ok (new_leafs, es) \<Rightarrow>
          if length new_leafs = 1 then Some (Ok (entries @ es))
          else build_loop x new_leafs (entries @ es))"

declare build_loop.simps [code]

definition build_root :: "externals \<Rightarrow> Hash list \<Rightarrow> MerkleTree rg_result option" where
  "build_root x leafs =
     (if leafs = [] then Some (Err (error_info x ''Merkle tree build must have at least one leaf''))
      else map_option (\<lambda>r. and_then r (merkle_tree_new x)) (build_loop x leafs []))"

partial_function (option) proof_loop ::
    "externals \<Rightarrow> MerkleTree \<Rightarrow> Hash \<Rightarrow> Hash list \<Rightarrow> Hash list rg_result option" where
  "proof_loop x t active merkle_nodes =
     (case hash_vec x active of
        Err e \<Rightarrow> Some (Err e)
      | Panic m \<Rightarrow> Some (Panic m)
      | Ok k \<Rightarrow>
          (case mt_child_to_parent t k of
             Some e \<Rightarrow> proof_loop x t (me_parent e) (merkle_nodes @ [me_left e, me_right e])
           | None \<Rightarrow> Some (Ok merkle_nodes)))"

declare proof_loop.simps [code]

definition merkle_tree_proof :: "externals \<Rightarrow> MerkleTree \<Rightarrow> Hash \<Rightarrow> MerkleProof rg_result option" where
  "merkle_tree_proof x t leaf =
     map_option (\<lambda>r. and_then r (\<lambda>nodes.
       Ok \<lparr> mp_root = Some (mt_root t), mp_leaf = Some leaf, mp_nodes = nodes \<rparr>))
       (proof_loop x t leaf [])"

section \<open>Verification\<close>

definition check_leaf :: "externals \<Rightarrow> MerkleProof \<Rightarrow> Hash \<Rightarrow> Hash \<Rightarrow> unit rg_result" where
  "check_leaf x p left right =
     and_then (safe_get_msg x ''leaf missing'' (mp_leaf p)) (\<lambda>lf.
     and_then (hash_vec x lf) (\<lambda>leaf.
     and_then (hash_vec x left) (\<lambda>lv. and_then (hash_vec x right) (\<lambda>rv.
       if \<not> (leaf = lv \<or> leaf = rv) then Err (error_info x ''Leaf not found at proof start'')
       else Ok ()))))"

definition check_next ::
    "externals \<Rightarrow> MerkleProof \<Rightarrow> Hash \<Rightarrow> bytes \<Rightarrow> Hash list \<Rightarrow> unit rg_result" where
  "check_next x p parent parent_vec rest = (case rest of
       [] \<Rightarrow>
         and_then (safe_get_msg x ''Root'' (mp_root p)) (\<lambda>rt.
         and_then (hash_vec x rt) (\<lambda>root.
           if parent_vec \<noteq> root then
             Err (error_info x ''Last intermediate hash merge does not match root'')
           else Ok ()))
     | [next_left] \<Rightarrow> Panic ''index out of bounds''
     | next_left # next_right # _ \<Rightarrow>
         and_then (hash_vec x next_left) (\<lambda>nl. and_then (hash_vec x next_right) (\<lambda>nr.
           if parent_vec \<notin> set [nl, nr] then
             and_then (hash_hex x parent) (\<lambda>ph. and_then (hash_hex x next_left) (\<lambda>nlh.
             and_then (hash_hex x next_right) (\<lambda>nrh.
               Err (error_info x (''Intermediate hash mismatch on parent: '' @ ph @
                 '' with next_left: '' @ nlh @ '' next_right: '' @ nrh)))))
           else Ok ())))"

text \<open>The loop over \<open>i = 0, 2, ...\<close>, with the nodes from \<open>i\<close> on; \<open>first\<close> is \<open>i = 0\<close>.\<close>

fun verify_loop :: "externals \<Rightarrow> MerkleProof \<Rightarrow> bool \<Rightarrow> Hash list \<Rightarrow> unit rg_result" where
  "verify_loop x p first [] = Ok ()"
| "verify_loop x p first [left] = Panic ''index out of bounds''"
| "verify_loop x p first (left # right # rest) =
    and_then (merkle_combine x left right) (\<lambda>parent.
    and_then (hash_vec x parent) (\<lambda>parent_vec.
    and_then (if first then check_leaf x p left right else Ok ()) (\<lambda>_.
    and_then (check_next x p parent parent_vec rest) (\<lambda>_.
    verify_loop x p False rest))))"

definition verify :: "externals \<Rightarrow> MerkleProof \<Rightarrow> unit rg_result" where
  "verify x p = verify_loop x p True (mp_nodes p)"

section \<open>Entries\<close>

text \<open>The children of an entry, and the shape of the entries the construction makes.\<close>

definition childs :: "MerkleEntry \<Rightarrow> bytes set" where
  "childs e = {vb (me_left e), vb (me_right e)}"

definition entry_ok :: "externals \<Rightarrow> MerkleEntry \<Rightarrow> bool" where
  "entry_ok x e \<longleftrightarrow> has_bytes (me_left e) \<and> has_bytes (me_right e) \<and>
     me_parent e = digest x (vb (me_left e) @ vb (me_right e))"

lemma merkle_combine_eq_Ok [result_simps]:
  "merkle_combine x l r = Ok p \<longleftrightarrow> has_bytes l \<and> has_bytes r \<and> p = digest x (vb l @ vb r)"
  by (auto simp: merkle_combine_def result_simps)

lemma merkle_combine_Ok:
  "has_bytes l \<Longrightarrow> has_bytes r \<Longrightarrow> merkle_combine x l r = Ok (digest x (vb l @ vb r))"
  by (simp add: result_simps)

lemma entry_ok_parent [simp]: "entry_ok x e \<Longrightarrow> has_bytes (me_parent e)"
  by (simp add: entry_ok_def)

section \<open>Construction\<close>

lemma pad_props:
  assumes "hs \<noteq> []"
  shows "set (pad hs) = set hs" "length (pad hs) = length hs + length hs mod 2"
    "length (pad hs) mod 2 = 0"
proof -
  have "last hs \<in> set hs" using assms by simp
  then show "set (pad hs) = set hs" by (auto simp: pad_def)
  show "length (pad hs) = length hs + length hs mod 2" by (auto simp: pad_def)
  then show "length (pad hs) mod 2 = 0" by presburger
qed

lemma build_level_Ok:
  assumes "length hs mod 2 = 0" "\<forall>h \<in> set hs. has_bytes h"
  shows "\<exists>ns es. build_level x hs = Ok (ns, es) \<and> length ns = length hs div 2 \<and>
     ns = map me_parent es \<and> (\<forall>e \<in> set es. entry_ok x e) \<and>
     vb ` set hs = \<Union> (childs ` set es)"
  using assms
proof (induction x hs rule: build_level.induct)
  case (3 x left right rest)
  then obtain ns es where IH: "build_level x rest = Ok (ns, es)" "length ns = length rest div 2"
    "ns = map me_parent es" "\<forall>e \<in> set es. entry_ok x e" "vb ` set rest = \<Union> (childs ` set es)"
    by (auto simp: merkle_combine_Ok)
  with "3.prems" show ?case
    by (auto simp: merkle_combine_Ok entry_ok_def childs_def)
qed auto

text \<open>Every entry's parent is a child of a later entry or still waits in the current level.\<close>

definition linked :: "MerkleEntry list \<Rightarrow> Hash list \<Rightarrow> bool" where
  "linked es leafs \<longleftrightarrow> (\<forall>i < length es.
     (\<exists>j. i < j \<and> j < length es \<and> vb (me_parent (es ! i)) \<in> childs (es ! j)) \<or>
     vb (me_parent (es ! i)) \<in> vb ` set leafs)"

lemma linked_step:
  assumes "linked es leafs" "vb ` set leafs = \<Union> (childs ` set es')" "ns = map me_parent es'"
  shows "linked (es @ es') ns"
    and "\<forall>i < length es. \<exists>j. i < j \<and> j < length (es @ es') \<and>
           vb (me_parent ((es @ es') ! i)) \<in> childs ((es @ es') ! j)"
proof -
  show old: "\<forall>i < length es. \<exists>j. i < j \<and> j < length (es @ es') \<and>
           vb (me_parent ((es @ es') ! i)) \<in> childs ((es @ es') ! j)"
  proof (intro allI impI)
    fix i assume i: "i < length es"
    then consider (a) j where "i < j" "j < length es" "vb (me_parent (es ! i)) \<in> childs (es ! j)"
      | (b) "vb (me_parent (es ! i)) \<in> vb ` set leafs"
      using assms(1) by (auto simp: linked_def)
    then show "\<exists>j. i < j \<and> j < length (es @ es') \<and>
           vb (me_parent ((es @ es') ! i)) \<in> childs ((es @ es') ! j)"
    proof cases
      case a
      then show ?thesis using i by (intro exI [of _ j]) (auto simp: nth_append)
    next
      case b
      then obtain k where "k < length es'" "vb (me_parent (es ! i)) \<in> childs (es' ! k)"
        using assms(2) by (auto simp: in_set_conv_nth)
      then show ?thesis using i by (intro exI [of _ "length es + k"]) (auto simp: nth_append)
    qed
  qed
  show "linked (es @ es') ns"
    unfolding linked_def
  proof (intro allI impI)
    fix i assume i: "i < length (es @ es')"
    show "(\<exists>j>i. j < length (es @ es') \<and> vb (me_parent ((es @ es') ! i)) \<in> childs ((es @ es') ! j)) \<or>
          vb (me_parent ((es @ es') ! i)) \<in> vb ` set ns"
    proof (cases "i < length es")
      case True
      with old show ?thesis by blast
    next
      case False
      with i have "es' ! (i - length es) \<in> set es'" by (auto intro!: nth_mem)
      with False show ?thesis using assms(3) by (auto simp: nth_append)
    qed
  qed
qed

text \<open>A finished entry list: every entry but the last has its parent below a later entry.\<close>

definition tree_ok :: "externals \<Rightarrow> MerkleEntry list \<Rightarrow> bool" where
  "tree_ok x es \<longleftrightarrow> es \<noteq> [] \<and> (\<forall>e \<in> set es. entry_ok x e) \<and>
     (\<forall>i < length es - 1. \<exists>j. i < j \<and> j < length es \<and> vb (me_parent (es ! i)) \<in> childs (es ! j))"

lemma build_loop_Ok:
  assumes "leafs \<noteq> []" "\<forall>h \<in> set leafs. has_bytes h" "linked es leafs" "\<forall>e \<in> set es. entry_ok x e"
  shows "\<exists>es'. build_loop x leafs es = Some (Ok (es @ es')) \<and> tree_ok x (es @ es') \<and>
     vb ` set leafs \<subseteq> \<Union> (childs ` set es')"
  using assms
proof (induction "length leafs" arbitrary: leafs es rule: less_induct)
  case less
  note pp = pad_props [OF \<open>leafs \<noteq> []\<close>]
  obtain ns es' where lv: "build_level x (pad leafs) = Ok (ns, es')" "length ns = length (pad leafs) div 2"
    "ns = map me_parent es'" "\<forall>e \<in> set es'. entry_ok x e" "vb ` set leafs = \<Union> (childs ` set es')"
    using build_level_Ok [OF pp(3), of x] less.prems pp(1) by auto
  note st = linked_step [OF less.prems(3) lv(5) lv(3)]
  show ?case
  proof (cases "length ns = 1")
    case True
    then have one: "length es' = 1" using lv(3) by simp
    then have "tree_ok x (es @ es')"
      using st(2) less.prems(4) lv(4) by (auto simp: tree_ok_def)
    with True lv show ?thesis
      by (intro exI [of _ es']) (simp add: build_loop.simps [of x leafs])
  next
    case False
    have len: "length ns < length leafs" "ns \<noteq> []"
      using False pp(2) lv(2) \<open>leafs \<noteq> []\<close> by (cases "length leafs"; auto; presburger)+
    have "\<forall>h \<in> set ns. has_bytes h" "\<forall>e \<in> set (es @ es'). entry_ok x e"
      using lv(3,4) less.prems(4) by auto
    from less.hyps [OF len(1) len(2) this(1) st(1) this(2)]
    obtain es'' where "build_loop x ns (es @ es') = Some (Ok ((es @ es') @ es''))"
      "tree_ok x ((es @ es') @ es'')" by auto
    with False lv show ?thesis
      by (intro exI [of _ "es' @ es''"]) (auto simp: build_loop.simps [of x leafs])
  qed
qed

section \<open>Lookup\<close>

text \<open>The child map holds, for each child, the last entry that has it as a child.\<close>

definition last_entry :: "MerkleEntry list \<Rightarrow> bytes \<Rightarrow> MerkleEntry option" where
  "last_entry es k = find (\<lambda>e. k \<in> childs e) (rev es)"

lemma last_entry_append1:
  "last_entry (es @ [e]) k = (if k \<in> childs e then Some e else last_entry es k)"
  by (simp add: last_entry_def)

lemma merkle_tree_insert_Ok:
  "entry_ok x e \<Longrightarrow> merkle_tree_insert x (p, c) e =
     Ok (p(vb (me_parent e) \<mapsto> e), c(vb (me_left e) \<mapsto> e, vb (me_right e) \<mapsto> e))"
  by (simp add: merkle_tree_insert_def hash_vec_vb entry_ok_def)

lemma tree_fold_Ok:
  assumes "\<forall>e \<in> set es. entry_ok x e"
  shows "\<exists>m. try_fold (merkle_tree_insert x) (Map.empty, Map.empty) es = Ok (m, last_entry es)"
  using assms
proof (induction es rule: rev_induct)
  case Nil
  then show ?case by (auto simp: last_entry_def)
next
  case (snoc e es)
  then obtain m where m: "try_fold (merkle_tree_insert x) (Map.empty, Map.empty) es = Ok (m, last_entry es)"
    by auto
  have "(last_entry es)(vb (me_left e) \<mapsto> e, vb (me_right e) \<mapsto> e) = last_entry (es @ [e])"
    by (auto simp: last_entry_append1 childs_def fun_eq_iff)
  with m snoc.prems show ?case
    by (simp add: try_fold_append merkle_tree_insert_Ok)
qed

lemma last_entry_Some:
  assumes "i < length es" "k \<in> childs (es ! i)"
  shows "\<exists>j. i \<le> j \<and> j < length es \<and> k \<in> childs (es ! j) \<and> last_entry es k = Some (es ! j)"
  using assms
proof (induction es rule: rev_induct)
  case (snoc e es)
  show ?case
  proof (cases "k \<in> childs e")
    case True
    then show ?thesis
      using snoc.prems by (intro exI [of _ "length es"]) (auto simp: last_entry_append1)
  next
    case False
    with snoc.prems have i: "i < length es" "k \<in> childs (es ! i)"
      by (auto simp: nth_append less_Suc_eq)
    from snoc.IH [OF this] obtain j where
      "i \<le> j" "j < length es" "k \<in> childs (es ! j)" "last_entry es k = Some (es ! j)" by blast
    with False show ?thesis
      by (intro exI [of _ j]) (auto simp: last_entry_append1 nth_append)
  qed
qed simp

lemma last_entry_None: "last_entry es k = None \<longleftrightarrow> (\<forall>e \<in> set es. k \<notin> childs e)"
  by (auto simp: last_entry_def find_None_iff)

lemma merkle_tree_new_Ok:
  assumes "es \<noteq> []" "\<forall>e \<in> set es. entry_ok x e"
  shows "\<exists>t. merkle_tree_new x es = Ok t \<and> mt_entries t = es \<and>
     mt_root t = me_parent (last es) \<and> mt_child_to_parent t = last_entry es"
  using tree_fold_Ok [OF assms(2)] assms(1) by (auto simp: merkle_tree_new_def)

section \<open>Paths\<close>

text \<open>
  What a list of proof nodes means: from the bytes \<open>v\<close>, hashing the pairs in
  turn, each pair containing the value reached so far, leads to \<open>root\<close>.
\<close>

fun merkle_path :: "externals \<Rightarrow> bytes \<Rightarrow> Hash list \<Rightarrow> bytes \<Rightarrow> bool" where
  "merkle_path x v [] root \<longleftrightarrow> v = root"
| "merkle_path x v [l] root \<longleftrightarrow> False"
| "merkle_path x v (l # r # rest) root \<longleftrightarrow> has_bytes l \<and> has_bytes r \<and> v \<in> {vb l, vb r} \<and>
     merkle_path x (vb (digest x (vb l @ vb r))) rest root"

lemma proof_loop_path:
  assumes ok: "tree_ok x es" and c: "mt_child_to_parent t = last_entry es"
    and root: "\<forall>e \<in> set es. vb (me_parent (last es)) \<notin> childs e"
    and "has_bytes a" "j < length es" "vb a \<in> childs (es ! j)" "last_entry es (vb a) = Some (es ! j)"
  shows "\<exists>ns. proof_loop x t a acc = Some (Ok (acc @ ns)) \<and> ns \<noteq> [] \<and>
     merkle_path x (vb a) ns (vb (me_parent (last es)))"
  using assms(4-7)
proof (induction "length es - j" arbitrary: a j acc rule: less_induct)
  case less
  let ?e = "es ! j"
  have e: "entry_ok x ?e" using ok less.prems(2) by (auto simp: tree_ok_def)
  have unf: "proof_loop x t a acc = proof_loop x t (me_parent ?e) (acc @ [me_left ?e, me_right ?e])"
    using less.prems by (subst proof_loop.simps) (simp add: hash_vec_vb c)
  have mp: "merkle_path x (vb a) (me_left ?e # me_right ?e # ns) r \<longleftrightarrow> merkle_path x (vb (me_parent ?e)) ns r" for ns r
    using e less.prems(3) by (simp add: entry_ok_def childs_def)
  show ?case
  proof (cases "j = length es - 1")
    case True
    then have last: "?e = last es" using ok by (simp add: tree_ok_def last_conv_nth)
    have "last_entry es (vb (me_parent ?e)) = None"
      using root last by (simp add: last_entry_None)
    then have "proof_loop x t (me_parent ?e) (acc @ [me_left ?e, me_right ?e]) =
        Some (Ok (acc @ [me_left ?e, me_right ?e]))"
      using e by (subst proof_loop.simps) (simp add: hash_vec_vb c)
    with unf mp [of "[]"] last show ?thesis
      by (intro exI [of _ "[me_left ?e, me_right ?e]"]) simp
  next
    case False
    with less.prems(2) have "j < length es - 1" by simp
    with ok obtain k where k: "j < k" "k < length es" "vb (me_parent ?e) \<in> childs (es ! k)"
      unfolding tree_ok_def by blast
    from last_entry_Some [OF k(2,3)] obtain m where m: "k \<le> m" "m < length es"
      "vb (me_parent ?e) \<in> childs (es ! m)" "last_entry es (vb (me_parent ?e)) = Some (es ! m)" by blast
    have "length es - m < length es - j" using k m by simp
    from less.hyps [OF this entry_ok_parent [OF e] m(2,3,4), of "acc @ [me_left ?e, me_right ?e]"]
    obtain ns where "proof_loop x t (me_parent ?e) (acc @ [me_left ?e, me_right ?e]) =
        Some (Ok ((acc @ [me_left ?e, me_right ?e]) @ ns))"
      "merkle_path x (vb (me_parent ?e)) ns (vb (me_parent (last es)))" by blast
    with unf mp show ?thesis
      by (intro exI [of _ "me_left ?e # me_right ?e # ns"]) simp
  qed
qed

lemma check_leaf_Ok_iff:
  "check_leaf x p l r = Ok () \<longleftrightarrow> has_bytes l \<and> has_bytes r \<and>
     (\<exists>lf. mp_leaf p = Some lf \<and> has_bytes lf \<and> vb lf \<in> {vb l, vb r})"
  by (auto simp: check_leaf_def result_simps)

lemma check_next_Ok_iff:
  "check_next x p h v rest = Ok () \<longleftrightarrow>
     (rest = [] \<and> (\<exists>rt. mp_root p = Some rt \<and> has_bytes rt \<and> v = vb rt)) \<or>
     (\<exists>nl nr rest'. rest = nl # nr # rest' \<and> has_bytes nl \<and> has_bytes nr \<and> v \<in> {vb nl, vb nr})"
  by (auto simp: check_next_def result_simps split: list.splits)

lemma verify_loop_Cons_Ok_iff:
  "verify_loop x p first (l # r # rest) = Ok () \<longleftrightarrow> has_bytes l \<and> has_bytes r \<and>
     (first \<longrightarrow> check_leaf x p l r = Ok ()) \<and>
     check_next x p (digest x (vb l @ vb r)) (vb (digest x (vb l @ vb r))) rest = Ok () \<and>
     verify_loop x p False rest = Ok ()"
  by (auto simp: result_simps)

lemma verify_loop_path_iff:
  "v \<in> {vb l, vb r} \<Longrightarrow> verify_loop x p False (l # r # rest) = Ok () \<longleftrightarrow>
     (\<exists>rt. mp_root p = Some rt \<and> has_bytes rt \<and> merkle_path x v (l # r # rest) (vb rt))"
proof (induction "length rest" arbitrary: l r rest v rule: less_induct)
  case less
  let ?v = "vb (digest x (vb l @ vb r))"
  show ?case
  proof (cases rest)
    case Nil
    with less.prems show ?thesis
      by (auto simp: verify_loop_Cons_Ok_iff check_next_Ok_iff simp del: verify_loop.simps(3))
  next
    case (Cons nl ns)
    show ?thesis
    proof (cases ns)
      case Nil
      with \<open>rest = nl # ns\<close> show ?thesis
        by (simp add: verify_loop_Cons_Ok_iff check_next_Ok_iff del: verify_loop.simps(3))
    next
      case (Cons nr rest')
      with \<open>rest = nl # ns\<close> have r: "rest = nl # nr # rest'" by simp
      have "?v \<in> {vb nl, vb nr} \<Longrightarrow> verify_loop x p False rest = Ok () \<longleftrightarrow>
          (\<exists>rt. mp_root p = Some rt \<and> has_bytes rt \<and> merkle_path x ?v rest (vb rt))"
        unfolding r using less.hyps [of rest' ?v nl nr] r by simp
      then show ?thesis
        using less.prems unfolding r verify_loop_Cons_Ok_iff [of x p False l r] check_next_Ok_iff
        by (auto simp del: verify_loop.simps(3) vb_digest)
    qed
  qed
qed

text \<open>Verification accepts exactly the empty node list and the paths from the leaf to the root.\<close>

lemma verify_Ok_iff:
  "verify x p = Ok () \<longleftrightarrow> mp_nodes p = [] \<or>
     (\<exists>lf rt. mp_leaf p = Some lf \<and> has_bytes lf \<and> mp_root p = Some rt \<and> has_bytes rt \<and>
              merkle_path x (vb lf) (mp_nodes p) (vb rt) \<and> mp_nodes p \<noteq> [])" (is "?L \<longleftrightarrow> ?R")
proof (cases "mp_nodes p")
  case (Cons l ns)
  show ?thesis
  proof (cases ns)
    case Nil
    with Cons show ?thesis by (simp add: verify_def)
  next
    case (Cons r rest)
    with \<open>mp_nodes p = l # ns\<close> have n: "mp_nodes p = l # r # rest" by simp
    have "?L \<longleftrightarrow> check_leaf x p l r = Ok () \<and> verify_loop x p False (l # r # rest) = Ok ()"
      unfolding verify_def n verify_loop_Cons_Ok_iff by auto
    also have "\<dots> \<longleftrightarrow> ?R"
      unfolding check_leaf_Ok_iff n using verify_loop_path_iff [of "vb l" l r x p rest]
      by (auto simp del: verify_loop.simps(3))
    finally show ?thesis .
  qed
qed (simp add: verify_def)

section \<open>Properties\<close>

text \<open>The root does not occur below itself; with a hash function this could only fail by a collision.\<close>

definition root_fresh :: "MerkleTree \<Rightarrow> bool" where
  "root_fresh t \<longleftrightarrow> (\<forall>e \<in> set (mt_entries t). vb (mt_root t) \<notin> childs e)"

lemma build_root_Ok:
  assumes "leafs \<noteq> []" "\<forall>h \<in> set leafs. has_bytes h"
  shows "\<exists>t es. build_root x leafs = Some (Ok t) \<and> mt_entries t = es \<and> tree_ok x es \<and>
     mt_root t = me_parent (last es) \<and> mt_child_to_parent t = last_entry es \<and>
     vb ` set leafs \<subseteq> \<Union> (childs ` set es)"
proof -
  obtain es where es: "build_loop x leafs [] = Some (Ok es)" "tree_ok x es"
    "vb ` set leafs \<subseteq> \<Union> (childs ` set es)"
    using build_loop_Ok [of leafs "[]" x] assms by (auto simp: linked_def)
  then obtain t where "merkle_tree_new x es = Ok t" "mt_entries t = es"
    "mt_root t = me_parent (last es)" "mt_child_to_parent t = last_entry es"
    using merkle_tree_new_Ok [of es x] by (auto simp: tree_ok_def)
  with es assms show ?thesis by (simp add: build_root_def)
qed

lemma merkle_proof_of_leaf:
  assumes "build_root x leafs = Some (Ok t)" "\<forall>h \<in> set leafs. has_bytes h" "leaf \<in> set leafs" "root_fresh t"
  shows "\<exists>p. merkle_tree_proof x t leaf = Some (Ok p) \<and> verify x p = Ok () \<and> mp_nodes p \<noteq> [] \<and>
     mp_leaf p = Some leaf \<and> mp_root p = Some (mt_root t)"
proof -
  have "leafs \<noteq> []" using assms(3) by auto
  from build_root_Ok [OF this assms(2), of x] assms(1) obtain es where es: "mt_entries t = es"
    "tree_ok x es" "mt_root t = me_parent (last es)" "mt_child_to_parent t = last_entry es"
    "vb ` set leafs \<subseteq> \<Union> (childs ` set es)" by auto
  from es(5) assms(3) obtain e where "e \<in> set es" "vb leaf \<in> childs e" by blast
  then obtain i where "i < length es" "vb leaf \<in> childs (es ! i)" by (metis in_set_conv_nth)
  from last_entry_Some [OF this] obtain j where j: "j < length es" "vb leaf \<in> childs (es ! j)"
    "last_entry es (vb leaf) = Some (es ! j)" by blast
  have "entry_ok x (last es)" using es(2) by (simp add: tree_ok_def)
  then have hb: "has_bytes leaf" "has_bytes (mt_root t)" using assms(2,3) es(3) by simp_all
  have "\<forall>e \<in> set es. vb (me_parent (last es)) \<notin> childs e"
    using assms(4) es(1,3) by (simp add: root_fresh_def)
  from proof_loop_path [OF es(2,4) this hb(1) j, of "[]"] obtain ns where
    "proof_loop x t leaf [] = Some (Ok ns)" "ns \<noteq> []" "merkle_path x (vb leaf) ns (vb (mt_root t))"
    using es(3) by auto
  with hb show ?thesis by (simp add: merkle_tree_proof_def verify_Ok_iff)
qed

text \<open>C9: Building a tree over a non-empty list of hashes that carry their bytes returns a tree,
  and, unless the root collides with a node below it, the proof walk for every leaf
  terminates with a non-empty proof that verification accepts.\<close>

theorem merkle_complete:
  assumes "leafs \<noteq> []" "\<forall>h \<in> set leafs. has_bytes h"
  shows "\<exists>t. build_root x leafs = Some (Ok t) \<and>
     (root_fresh t \<longrightarrow> (\<forall>leaf \<in> set leafs. \<exists>p. merkle_tree_proof x t leaf = Some (Ok p) \<and>
        verify x p = Ok () \<and> mp_nodes p \<noteq> []))"
proof -
  obtain t where t: "build_root x leafs = Some (Ok t)" using build_root_Ok [OF assms] by blast
  with merkle_proof_of_leaf [OF t assms(2)] show ?thesis by blast
qed

definition sample_leafs :: "Hash list" where
  "sample_leafs = [hash_new [1], hash_new [2]]"

definition sample_entry :: "externals \<Rightarrow> MerkleEntry" where
  "sample_entry x = \<lparr> me_parent = digest x [1, 2], me_left = hash_new [1], me_right = hash_new [2] \<rparr>"

lemma sample_loop: "build_loop x sample_leafs [] = Some (Ok [sample_entry x])"
  by (subst build_loop.simps) (simp add: sample_leafs_def pad_def merkle_combine_Ok sample_entry_def)

lemma sample_tree:
  "\<exists>m c. build_root x sample_leafs = Some (Ok \<lparr> mt_root = digest x [1, 2],
     mt_entries = [sample_entry x], mt_parent_lookup = m, mt_child_to_parent = c \<rparr>)"
  using merkle_tree_insert_Ok [of x "sample_entry x" Map.empty Map.empty]
  by (simp add: build_root_def sample_loop merkle_tree_new_def)
     (simp add: sample_leafs_def sample_entry_def entry_ok_def)

lemma digest_not_short: "length bs < 32 \<Longrightarrow> vb (digest x s) \<noteq> bs"
  by auto

lemma sample_tree_fresh: "\<exists>t. build_root x sample_leafs = Some (Ok t) \<and> root_fresh t"
  using digest_not_short [of "[1]" x "[1, 2]"] digest_not_short [of "[2]" x "[1, 2]"] sample_tree [of x]
  by (auto simp: root_fresh_def childs_def sample_entry_def simp del: vb_digest)

theorem merkle_complete_witness:
  "\<exists>t. build_root sample_ext sample_leafs = Some (Ok t) \<and> root_fresh t \<and>
     (\<forall>leaf \<in> set sample_leafs. \<exists>p. merkle_tree_proof sample_ext t leaf = Some (Ok p) \<and>
        verify sample_ext p = Ok () \<and> mp_nodes p \<noteq> [])"
  using merkle_complete [of sample_leafs sample_ext] sample_tree_fresh [of sample_ext]
  by (auto simp: sample_leafs_def)

definition hash_step :: "externals \<Rightarrow> bytes \<Rightarrow> bytes \<Rightarrow> bool" where
  "hash_step x a b \<longleftrightarrow> (\<exists>l r. a \<in> {l, r} \<and> b = digest_to_vec 32 (sha3_256 x (l @ r)))"

lemma merkle_path_steps:
  "merkle_path x v ns r \<Longrightarrow> (hash_step x)\<^sup>*\<^sup>* v r"
proof (induction x v ns r rule: merkle_path.induct)
  case (3 x v l r rest root)
  then have "hash_step x v (vb (digest x (vb l @ vb r)))"
    by (auto simp: hash_step_def)
  with 3 show ?case by (auto intro: converse_rtranclp_into_rtranclp)
qed auto

text \<open>C21: Verification is sound: when a proof with at least one pair of nodes is accepted, the
  bytes of its leaf lead to the bytes of its root by repeatedly hashing a pair that
  contains the value reached so far.\<close>

theorem merkle_verify_sound:
  assumes "verify x p = Ok ()" "mp_nodes p \<noteq> []"
  shows "\<exists>lf rt. mp_leaf p = Some lf \<and> mp_root p = Some rt \<and> (hash_step x)\<^sup>+\<^sup>+ (vb lf) (vb rt)"
proof -
  obtain lf rt where 1: "mp_leaf p = Some lf" "mp_root p = Some rt"
    "merkle_path x (vb lf) (mp_nodes p) (vb rt)" using assms by (auto simp: verify_Ok_iff)
  obtain l r rest where n: "mp_nodes p = l # r # rest"
    using 1(3) assms(2) by (cases "mp_nodes p"; cases "tl (mp_nodes p)") auto
  have "hash_step x (vb lf) (vb (digest x (vb l @ vb r)))"
    using 1(3) n by (auto simp: hash_step_def)
  moreover have "(hash_step x)\<^sup>*\<^sup>* (vb (digest x (vb l @ vb r))) (vb rt)"
    using 1(3) n merkle_path_steps by auto
  ultimately show ?thesis using 1 by (auto intro: rtranclp_into_tranclp2)
qed

definition sample_proof :: MerkleProof where
  "sample_proof = \<lparr> mp_root = Some (digest sample_ext [1, 2]), mp_leaf = Some (hash_new [2]),
     mp_nodes = [hash_new [1], hash_new [2]] \<rparr>"

lemma sample_proof_verifies: "verify sample_ext sample_proof = Ok ()"
  by (simp add: verify_Ok_iff sample_proof_def)

theorem merkle_verify_sound_witness:
  "\<exists>lf rt. mp_leaf sample_proof = Some lf \<and> mp_root sample_proof = Some rt \<and>
     (hash_step sample_ext)\<^sup>+\<^sup>+ (vb lf) (vb rt)"
  using merkle_verify_sound [of sample_ext sample_proof] sample_proof_verifies
  by (simp add: sample_proof_def)

end
