(* ===== verification/Sql.thy ===== *)
theory Sql
  imports Schema_Lib
begin

text \<open>
  The fragment of SQLite the stores rely on.  A table is the list of its rows in
  insertion order together with a primary-key function.  A plain \<open>INSERT\<close>
  fails on a key conflict, \<open>INSERT OR REPLACE\<close> first drops the conflicting row.
  Row identifiers and metric gauges are not modelled.  Statements are not
  grouped into transactions, so an operation returns its result together with
  the store it leaves behind, also on failure: \<open>seq_do\<close> is \<open>?\<close> for such operations.
  The locale \<open>keyed_table\<close> states the contract of a table as a finite map.
\<close>

section \<open>Operations with state\<close>

type_synonym ('s, 'a) action = "'s \<Rightarrow> 'a rg_result \<times> 's"

definition seq_do :: "('s, 'a) action \<Rightarrow> ('a \<Rightarrow> ('s, 'b) action) \<Rightarrow> ('s, 'b) action" where
  "seq_do m f s = (case m s of
     (Ok a, s') \<Rightarrow> f a s' | (Err e, s') \<Rightarrow> (Err e, s') | (Panic p, s') \<Rightarrow> (Panic p, s'))"

definition pure :: "'a rg_result \<Rightarrow> ('s, 'a) action" where
  "pure r s = (r, s)"

definition query :: "('s \<Rightarrow> 'a rg_result) \<Rightarrow> ('s, 'a) action" where
  "query q s = (q s, s)"

fun for_each_do :: "('a \<Rightarrow> ('s, unit) action) \<Rightarrow> 'a list \<Rightarrow> ('s, unit) action" where
  "for_each_do f [] = pure (Ok ())"
| "for_each_do f (y # ys) = seq_do (f y) (\<lambda>_. for_each_do f ys)"

lemma seq_do_pure_Ok [simp]: "seq_do (pure (Ok a)) f s = f a s"
  by (simp add: seq_do_def pure_def)

lemma seq_do_Ok_iff:
  "fst (seq_do m f s) = Ok b \<longleftrightarrow> (\<exists>a. fst (m s) = Ok a \<and> fst (f a (snd (m s))) = Ok b)"
  by (auto simp: seq_do_def split: prod.splits result.splits)

lemma seq_do_snd_Ok: "fst (m s) = Ok a \<Longrightarrow> snd (seq_do m f s) = snd (f a (snd (m s)))"
  by (auto simp: seq_do_def split: prod.splits result.splits)

lemma seq_do_eq_Ok [result_simps]:
  "seq_do m f s = (Ok b, t) \<longleftrightarrow> (\<exists>a s'. m s = (Ok a, s') \<and> f a s' = (Ok b, t))"
  by (auto simp: seq_do_def split: prod.splits result.splits)

lemma pure_eq [result_simps]: "pure r s = (r', t) \<longleftrightarrow> r' = r \<and> t = s"
  by (auto simp: pure_def)

lemma query_eq [result_simps]: "query q s = (r, t) \<longleftrightarrow> r = q s \<and> t = s"
  by (auto simp: query_def)

lemma for_each_do_append:
  "for_each_do f (xs @ ys) s = seq_do (for_each_do f xs) (\<lambda>_. for_each_do f ys) s"
  by (induction xs arbitrary: s) (auto simp: seq_do_def pure_def split: prod.splits result.splits)

text \<open>
  An operation preserves a predicate of the store when every run of it does, whether
  or not it completes; the rules below carry this through sequences and loops.
\<close>

definition preserves :: "('s \<Rightarrow> bool) \<Rightarrow> ('s, 'a) action \<Rightarrow> bool" where
  "preserves I m \<longleftrightarrow> (\<forall>s. I s \<longrightarrow> I (snd (m s)))"

named_theorems preserves_rules

lemma preservesD: "preserves I m \<Longrightarrow> I s \<Longrightarrow> I (snd (m s))"
  by (simp add: preserves_def)

lemma preserves_pure [preserves_rules]: "preserves I (pure r)"
  by (simp add: preserves_def pure_def)

lemma preserves_query [preserves_rules]: "preserves I (query q)"
  by (simp add: preserves_def query_def)

lemma preserves_seq_do [preserves_rules]:
  assumes "preserves I m" "\<And>a. preserves I (f a)"
  shows "preserves I (seq_do m f)"
  unfolding preserves_def
proof (intro allI impI)
  fix s assume "I s"
  then have "I (snd (m s))" using assms(1) by (rule preservesD [rotated])
  with assms(2) show "I (snd (seq_do m f s))"
    by (auto simp: seq_do_def preserves_def split: prod.splits result.splits)
qed

lemma preserves_for_each_do:
  assumes "\<And>y. y \<in> set ys \<Longrightarrow> preserves I (f y)"
  shows "preserves I (for_each_do f ys)"
  using assms by (induction ys) (auto intro!: preserves_rules)

lemma preserves_for_each_do_all [preserves_rules]:
  "(\<And>y. preserves I (f y)) \<Longrightarrow> preserves I (for_each_do f ys)"
  by (rule preserves_for_each_do)

lemma preserves_if [preserves_rules]:
  "(b \<Longrightarrow> preserves I m) \<Longrightarrow> (\<not> b \<Longrightarrow> preserves I m') \<Longrightarrow> preserves I (if b then m else m')"
  by simp

lemma preserves_case_option [preserves_rules]:
  "preserves I m \<Longrightarrow> (\<And>a. preserves I (f a)) \<Longrightarrow> preserves I (case v of None \<Rightarrow> m | Some a \<Rightarrow> f a)"
  by (simp split: option.split)

lemma for_each_do_Ok_iff:
  "fst (for_each_do f (y # ys) s) = Ok u \<longleftrightarrow>
     fst (f y s) = Ok () \<and> fst (for_each_do f ys (snd (f y s))) = Ok ()"
  by (simp add: seq_do_Ok_iff)

text \<open>Procedures that may also not return (\<open>None\<close>), because a loop in them may not end.\<close>

type_synonym ('s, 'a) proc = "'s \<Rightarrow> ('a rg_result \<times> 's) option"

definition then_do :: "('s, 'a) proc \<Rightarrow> ('a \<Rightarrow> ('s, 'b) proc) \<Rightarrow> ('s, 'b) proc" where
  "then_do m f s = (case m s of
     None \<Rightarrow> None
   | Some (Ok a, s') \<Rightarrow> f a s'
   | Some (Err e, s') \<Rightarrow> Some (Err e, s')
   | Some (Panic p, s') \<Rightarrow> Some (Panic p, s'))"

definition lift_do :: "('s, 'a) action \<Rightarrow> ('s, 'a) proc" where
  "lift_do m s = Some (m s)"

definition calc_do :: "'a rg_result option \<Rightarrow> ('s, 'a) proc" where
  "calc_do r s = map_option (\<lambda>v. (v, s)) r"

definition try_do :: "'a rg_result \<Rightarrow> ('s, 'a) proc" where
  "try_do r s = Some (r, s)"

definition read_do :: "('s \<Rightarrow> 'a) \<Rightarrow> ('s, 'a) proc" where
  "read_do f s = Some (Ok (f s), s)"

definition modify_do :: "('s \<Rightarrow> 's) \<Rightarrow> ('s, unit) proc" where
  "modify_do f s = Some (Ok (), f s)"

lemma then_do_eq_Ok [result_simps]:
  "then_do m f s = Some (Ok b, t) \<longleftrightarrow> (\<exists>a s'. m s = Some (Ok a, s') \<and> f a s' = Some (Ok b, t))"
  by (auto simp: then_do_def split: option.splits prod.splits result.splits)

lemma then_do_eq_Err [result_simps]:
  "then_do m f s = Some (Err e, t) \<longleftrightarrow> m s = Some (Err e, t) \<or> (\<exists>a s'. m s = Some (Ok a, s') \<and> f a s' = Some (Err e, t))"
  by (auto simp: then_do_def split: option.splits prod.splits result.splits)

lemma proc_eqs [result_simps]:
  "lift_do m s = Some q \<longleftrightarrow> q = m s"
  "calc_do c s = Some (r, t) \<longleftrightarrow> c = Some r \<and> t = s"
  "try_do w s = Some (r', t) \<longleftrightarrow> r' = w \<and> t = s"
  "read_do g s = Some (v, t) \<longleftrightarrow> v = Ok (g s) \<and> t = s"
  "modify_do h s = Some (u, t) \<longleftrightarrow> u = Ok () \<and> t = h s"
  by (auto simp: lift_do_def calc_do_def try_do_def read_do_def modify_do_def)

text \<open>
  Partial-correctness triples for procedures: from states satisfying \<open>P\<close>, a normal exit
  satisfies \<open>Q\<close> and an error or panic leaves the invariant \<open>I\<close>.
\<close>

definition triple :: "('s \<Rightarrow> bool) \<Rightarrow> ('s, 'a) proc \<Rightarrow> ('a \<Rightarrow> 's \<Rightarrow> bool) \<Rightarrow> ('s \<Rightarrow> bool) \<Rightarrow> bool" where
  "triple P m Q I \<longleftrightarrow> (\<forall>s r s'. P s \<longrightarrow> m s = Some (r, s') \<longrightarrow> (case r of Ok a \<Rightarrow> Q a s' | _ \<Rightarrow> I s'))"

named_theorems triple_rules

lemma triple_then_do [triple_rules]:
  assumes "triple P m R I" "\<And>a. triple (R a) (f a) Q I"
  shows "triple P (then_do m f) Q I"
  unfolding triple_def
proof (intro allI impI)
  fix s r s' assume s: "P s" "then_do m f s = Some (r, s')"
  then obtain w t where w: "m s = Some (w, t)"
    by (cases "m s") (auto simp: then_do_def)
  then have "case w of Ok a \<Rightarrow> R a t | _ \<Rightarrow> I t" using assms(1) s(1) unfolding triple_def by blast
  with s(2) w assms(2) show "case r of Ok a \<Rightarrow> Q a s' | _ \<Rightarrow> I s'"
    unfolding triple_def by (cases w) (auto simp: then_do_def)
qed

lemma triple_basic:
  "(\<And>s. P s \<Longrightarrow> case r of Ok a \<Rightarrow> Q a s | _ \<Rightarrow> I s) \<Longrightarrow> triple P (try_do r) Q I"
  "(\<And>s v. P s \<Longrightarrow> c = Some v \<Longrightarrow> case v of Ok a \<Rightarrow> Q a s | _ \<Rightarrow> I s) \<Longrightarrow> triple P (calc_do c) Q I"
  "(\<And>s. P s \<Longrightarrow> Q (g s) s) \<Longrightarrow> triple P (read_do g) Q I"
  "(\<And>s. P s \<Longrightarrow> Q () (h s)) \<Longrightarrow> triple P (modify_do h) Q I"
  by (auto simp: triple_def result_simps)

text \<open>Steps that do not touch what the assertion is about.\<close>

lemma triple_keep:
  "(\<And>s. P s \<Longrightarrow> I s) \<Longrightarrow> triple P (try_do r) (\<lambda>_. P) I"
  "(\<And>s. P s \<Longrightarrow> I s) \<Longrightarrow> triple P (calc_do c) (\<lambda>_. P) I"
  "(\<And>s. P s \<Longrightarrow> I s) \<Longrightarrow> triple P (read_do g) (\<lambda>_. P) I"
  by (auto simp: triple_def result_simps split: result.splits)

lemma triple_keep_same [triple_rules]:
  "triple I (try_do r) (\<lambda>_. I) I" "triple I (calc_do c) (\<lambda>_. I) I" "triple I (read_do g) (\<lambda>_. I) I"
  by (rule triple_keep, assumption)+

lemma triple_if [triple_rules]:
  "(b \<Longrightarrow> triple P m Q I) \<Longrightarrow> (\<not> b \<Longrightarrow> triple P m' Q I) \<Longrightarrow> triple P (if b then m else m') Q I"
  by simp

lemma triple_case_option [triple_rules]:
  "triple P m Q I \<Longrightarrow> (\<And>a. triple P (f a) Q I) \<Longrightarrow> triple P (case v of None \<Rightarrow> m | Some a \<Rightarrow> f a) Q I"
  by (simp split: option.split)

lemma triple_conseq:
  "triple P m Q I \<Longrightarrow> (\<And>s. P' s \<Longrightarrow> P s) \<Longrightarrow> (\<And>a s. Q a s \<Longrightarrow> Q' a s) \<Longrightarrow> triple P' m Q' I"
  unfolding triple_def by (fastforce split: result.splits)

section \<open>Tables\<close>

definition tbl_insert :: "('r \<Rightarrow> 'k) \<Rightarrow> 'r \<Rightarrow> 'r list \<Rightarrow> 'r list option" where
  "tbl_insert k r t = (if k r \<in> k ` set t then None else Some (t @ [r]))"

definition tbl_replace :: "('r \<Rightarrow> 'k) \<Rightarrow> 'r \<Rightarrow> 'r list \<Rightarrow> 'r list" where
  "tbl_replace k r t = filter (\<lambda>r'. k r' \<noteq> k r) t @ [r]"

definition tbl_delete :: "('r \<Rightarrow> bool) \<Rightarrow> 'r list \<Rightarrow> nat \<times> 'r list" where
  "tbl_delete p t = (length (filter p t), filter (\<lambda>r. \<not> p r) t)"

definition tbl_lookup :: "('r \<Rightarrow> 'k) \<Rightarrow> 'r list \<Rightarrow> 'k \<Rightarrow> 'r option" where
  "tbl_lookup k t v = find (\<lambda>r. k r = v) t"

definition tbl_wf :: "('r \<Rightarrow> 'k) \<Rightarrow> 'r list \<Rightarrow> bool" where
  "tbl_wf k t \<longleftrightarrow> distinct (map k t)"

text \<open>\<open>LIMIT\<close> and \<open>OFFSET\<close>: a negative limit is no limit, a negative offset is zero.\<close>

definition sql_limit :: "i64 \<Rightarrow> 'r list \<Rightarrow> 'r list" where
  "sql_limit n rows = (if sint n < 0 then rows else take (nat (sint n)) rows)"

definition sql_offset :: "i64 \<Rightarrow> 'r list \<Rightarrow> 'r list" where
  "sql_offset n rows = drop (nat (sint n)) rows"

definition order_desc :: "('r \<Rightarrow> i64) \<Rightarrow> 'r list \<Rightarrow> 'r list" where
  "order_desc f rows = sort_key (\<lambda>r. - sint (f r)) rows"

lemma find_append: "find p (xs @ ys) = (case find p xs of Some v \<Rightarrow> Some v | None \<Rightarrow> find p ys)"
  by (induction xs) auto

lemma find_filter: "find p (filter q xs) = find (\<lambda>v. q v \<and> p v) xs"
  by (induction xs) auto

lemma tbl_lookup_None: "tbl_lookup k t v = None \<longleftrightarrow> v \<notin> k ` set t"
  by (auto simp: tbl_lookup_def find_None_iff)

section \<open>The contract of a table\<close>

text \<open>
  A table with primary key \<open>key\<close> is a finite map \<open>lookup\<close> from keys to rows;
  the statements update that map.  Two consequences the stores use are proved
  here once: inserting rows whose keys are new and distinct always succeeds, and
  re-inserting a row that is still present fails without changing the table.
\<close>

locale keyed_table =
  fixes key :: "'r \<Rightarrow> 'k"
    and lookup :: "'t \<Rightarrow> 'k \<Rightarrow> 'r option"
    and ins :: "'r \<Rightarrow> 't \<Rightarrow> 't option"
    and repl :: "'r \<Rightarrow> 't \<Rightarrow> 't"
    and del :: "'k \<Rightarrow> 't \<Rightarrow> 't"
    and wf :: "'t \<Rightarrow> bool"
  assumes lookup_key: "wf t \<Longrightarrow> lookup t v = Some r \<Longrightarrow> key r = v"
    and ins_fresh: "wf t \<Longrightarrow> lookup t (key r) = None \<Longrightarrow>
      \<exists>t'. ins r t = Some t' \<and> wf t' \<and> lookup t' = (lookup t)(key r \<mapsto> r)"
    and ins_conflict: "wf t \<Longrightarrow> lookup t (key r) \<noteq> None \<Longrightarrow> ins r t = None"
    and repl_lookup: "wf t \<Longrightarrow> wf (repl r t) \<and> lookup (repl r t) = (lookup t)(key r \<mapsto> r)"
    and del_lookup: "wf t \<Longrightarrow> wf (del v t) \<and> lookup (del v t) = (lookup t)(v := None)"
begin

fun ins_all :: "'r list \<Rightarrow> 't \<Rightarrow> 't option" where
  "ins_all [] t = Some t"
| "ins_all (r # rs) t = Option.bind (ins r t) (ins_all rs)"

lemma ins_all_fresh:
  assumes "wf t" "distinct (map key rs)" "\<forall>r \<in> set rs. lookup t (key r) = None"
  shows "\<exists>t'. ins_all rs t = Some t' \<and> wf t' \<and>
     (\<forall>v. lookup t' v = (if v \<in> key ` set rs then find (\<lambda>r. key r = v) rs else lookup t v))"
  using assms
proof (induction rs arbitrary: t)
  case (Cons r rs)
  obtain t1 where t1: "ins r t = Some t1" "wf t1" "lookup t1 = (lookup t)(key r \<mapsto> r)"
    using ins_fresh [of t r] Cons.prems by auto
  have "\<forall>q \<in> set rs. lookup t1 (key q) = None"
    using Cons.prems t1(3) by (auto simp: image_iff)
  then obtain t' where "ins_all rs t1 = Some t'" "wf t'"
    "\<forall>v. lookup t' v = (if v \<in> key ` set rs then find (\<lambda>q. key q = v) rs else lookup t1 v)"
    using Cons.IH [of t1] Cons.prems t1(2) by auto
  with t1 Cons.prems(2) show ?case by auto
qed simp

lemma reinsert_fails: "wf t \<Longrightarrow> ins r t = Some t' \<Longrightarrow> ins r t' = None"
  using ins_fresh [of t r] ins_conflict [of t r] ins_conflict [of t' r] by (cases "lookup t (key r)") auto

lemma del_then_insert: "wf t \<Longrightarrow> \<exists>t'. ins r (del (key r) t) = Some t' \<and> wf t'"
  using ins_fresh [of "del (key r) t" r] del_lookup [of t "key r"] by auto

lemma del_other: "wf t \<Longrightarrow> v \<noteq> v' \<Longrightarrow> lookup (del v t) v' = lookup t v'"
  using del_lookup [of t v] by auto

end

lemma find_delete:
  "tbl_lookup k (filter (\<lambda>r. k r \<noteq> v) t) = (tbl_lookup k t)(v := None)"
proof
  fix w
  show "tbl_lookup k (filter (\<lambda>r. k r \<noteq> v) t) w = ((tbl_lookup k t)(v := None)) w"
  proof (cases "w = v")
    case True
    then show ?thesis by (auto simp: tbl_lookup_def find_filter find_None_iff)
  next
    case False
    then have "(\<lambda>r. k r \<noteq> v \<and> k r = w) = (\<lambda>r. k r = w)" by auto
    with False show ?thesis by (simp add: tbl_lookup_def find_filter)
  qed
qed

lemma find_snoc_fresh:
  assumes "v \<notin> k ` set t" "k r = v"
  shows "tbl_lookup k (t @ [r]) = (tbl_lookup k t)(v \<mapsto> r)"
proof
  fix w
  have "find (\<lambda>r. k r = v) t = None" using assms by (simp add: find_None_iff image_iff) metis
  with assms show "tbl_lookup k (t @ [r]) w = ((tbl_lookup k t)(v \<mapsto> r)) w"
    by (cases "w = v") (simp_all add: tbl_lookup_def find_append split: option.splits)
qed

interpretation list_table: keyed_table k "tbl_lookup k" "tbl_insert k" "tbl_replace k"
    "\<lambda>v t. snd (tbl_delete (\<lambda>r. k r = v) t)" "tbl_wf k" for k :: "'r \<Rightarrow> 'k"
proof (unfold_locales, goal_cases)
  case (1 t v r)
  then show ?case by (auto simp: tbl_lookup_def find_Some_iff)
next
  case (2 t r)
  then show ?case
    by (auto simp: tbl_lookup_None tbl_insert_def tbl_wf_def find_snoc_fresh)
next
  case (3 t r)
  then show ?case by (auto simp: tbl_insert_def tbl_lookup_None)
next
  case (4 t r)
  have "k r \<notin> k ` set (filter (\<lambda>r'. k r' \<noteq> k r) t)" by auto
  with 4 show ?case
    by (simp add: tbl_replace_def tbl_wf_def distinct_map_filter find_snoc_fresh find_delete)
next
  case (5 t v)
  then show ?case by (simp add: tbl_delete_def tbl_wf_def distinct_map_filter find_delete)
qed

end
