(* ===== verification/Store.thy ===== *)
theory Store
  imports Sql Tx
begin

text \<open>
  The SQLite data store of \<open>data/src\<close>: the tables of \<open>data/migrations\<close> as lists of row
  records, the connection pool, and the operations of \<open>transaction_store.rs\<close> and
  \<open>utxo_store.rs\<close>.  A query is a function of the store; a statement that writes is
  an action.  \<open>ds_fault\<close> is the error every call to the pool returns while the
  database is unavailable.  Row identifiers (the value of \<open>last_insert_rowid\<close>) and
  gauges are not modelled, so an insert returns the unit value.  A row selected
  without an order comes in insertion order.  A count is read through the 32-bit
  column type of the driver.
\<close>

section \<open>Tables\<close>

record transaction_row =
  tr_hash :: bytes
  tr_raw :: bytes
  tr_time :: i64
  tr_rejection_reason :: "bytes option"
  tr_accepted :: bool
  tr_is_test :: bool

record utxo_row =
  ur_transaction_hash :: bytes
  ur_output_index :: i64
  ur_address :: bytes
  ur_output :: bytes
  ur_time :: i64
  ur_amount :: "i64 option"
  ur_raw :: bytes
  ur_has_code :: bool

record transaction_edge_row =
  er_transaction_hash :: bytes
  er_output_index :: i64
  er_address :: bytes
  er_child_transaction_hash :: bytes
  er_child_input_index :: i64
  er_time :: i64

record address_transaction_row =
  ar_address :: bytes
  ar_tx_hash :: bytes
  ar_time :: i64
  ar_incoming :: bool

record state_row =
  sr_address :: bytes
  sr_selector_hash :: "bytes option"
  sr_state_hash :: bytes
  sr_transaction_marker :: bytes
  sr_time :: i64
  sr_nonce :: i64
  sr_state :: bytes

record block_row =
  br_hash :: bytes
  br_height :: i64
  br_raw :: bytes
  br_time :: i64

record address_block_row =
  abr_address :: bytes
  abr_balance :: "i64 option"
  abr_height :: i64
  abr_hash :: bytes

record observation_row =
  obr_hash :: bytes
  obr_raw :: bytes
  obr_public_key :: bytes
  obr_time :: i64
  obr_height :: i64

record observation_edge_row =
  oer_root :: bytes
  oer_leaf_hash :: bytes
  oer_observation_hash :: bytes
  oer_observed_hash :: bytes
  oer_edge :: bytes
  oer_time :: i64

record peer_row =
  per_id :: bytes
  per_tx :: bytes

record node_row =
  nr_public_key :: bytes
  nr_peer_id :: bytes
  nr_status :: string
  nr_last_seen :: i64
  nr_tx :: bytes

record config_row =
  cr_key_name :: string
  cr_value_data :: "string option"
  cr_value_bytes :: "bytes option"

record multiparty_row =
  mpr_room_id :: string
  mpr_local_share :: string
  mpr_keygen_time :: i64
  mpr_initiate_keygen :: bytes
  mpr_self_initiated :: bool
  mpr_host_public_key :: bytes
  mpr_keygen_public_key :: "bytes option"

record multiparty_signature_row =
  mps_room_id :: string
  mps_keygen_room_id :: string
  mps_proof :: bytes
  mps_proof_time :: i64
  mps_initiate_signing :: bytes

record multiparty_bridge_row =
  mpb_txid :: bytes
  mpb_secondary_txid :: bytes
  mpb_outgoing :: bool
  mpb_network :: i32
  mpb_source_address :: bytes
  mpb_destination_address :: bytes
  mpb_timestamp :: i64
  mpb_amount :: i64

record data_store =
  ds_fault :: "string option"
  ds_transactions :: "transaction_row list"
  ds_utxo :: "utxo_row list"
  ds_transaction_edge :: "transaction_edge_row list"
  ds_address_transaction :: "address_transaction_row list"
  ds_state :: "state_row list"
  ds_block :: "block_row list"
  ds_address_block :: "address_block_row list"
  ds_observation :: "observation_row list"
  ds_observation_edge :: "observation_edge_row list"
  ds_peers :: "peer_row list"
  ds_nodes :: "node_row list"
  ds_config :: "config_row list"
  ds_multiparty :: "multiparty_row list"
  ds_multiparty_signatures :: "multiparty_signature_row list"
  ds_multiparty_bridge :: "multiparty_bridge_row list"

definition empty_store :: data_store where
  "empty_store = \<lparr> ds_fault = None, ds_transactions = [], ds_utxo = [], ds_transaction_edge = [],
     ds_address_transaction = [], ds_state = [], ds_block = [], ds_address_block = [],
     ds_observation = [], ds_observation_edge = [], ds_peers = [], ds_nodes = [], ds_config = [],
     ds_multiparty = [], ds_multiparty_signatures = [], ds_multiparty_bridge = [] \<rparr>"

lemma empty_store_fault [simp]: "ds_fault empty_store = None"
  by (simp add: empty_store_def)

text \<open>Primary keys of the tables.\<close>

definition utxo_key :: "utxo_row \<Rightarrow> bytes \<times> i64" where
  "utxo_key r = (ur_transaction_hash r, ur_output_index r)"

definition edge_key :: "transaction_edge_row \<Rightarrow> bytes \<times> i64" where
  "edge_key r = (er_transaction_hash r, er_output_index r)"

definition address_transaction_key :: "address_transaction_row \<Rightarrow> bytes \<times> bytes" where
  "address_transaction_key r = (ar_address r, ar_tx_hash r)"

definition observation_edge_key :: "observation_edge_row \<Rightarrow> bytes \<times> bytes \<times> bytes \<times> bytes" where
  "observation_edge_key r =
     (oer_observation_hash r, oer_leaf_hash r, oer_root r, oer_observed_hash r)"

section \<open>Connections\<close>

definition map_err_sqlx :: "externals \<Rightarrow> string + 'a \<Rightarrow> 'a rg_result" where
  "map_err_sqlx x r = lib_result (error_message x InternalDatabaseError) r"

definition pool :: "externals \<Rightarrow> data_store \<Rightarrow> unit rg_result" where
  "pool x ds = map_err_sqlx x (case ds_fault ds of None \<Rightarrow> Inr () | Some m \<Rightarrow> Inl m)"

text \<open>A write that failed leaves the store as it was.\<close>

definition exec :: "(data_store \<Rightarrow> data_store rg_result) \<Rightarrow> (data_store, unit) action" where
  "exec f ds = (case f ds of
     Ok ds' \<Rightarrow> (Ok (), ds') | Err e \<Rightarrow> (Err e, ds) | Panic p \<Rightarrow> (Panic p, ds))"

definition sql_insert :: "externals \<Rightarrow> string \<Rightarrow> ('r \<Rightarrow> 'k) \<Rightarrow> 'r \<Rightarrow> 'r list \<Rightarrow> 'r list rg_result" where
  "sql_insert x table k r t = map_err_sqlx x
     (case tbl_insert k r t of None \<Rightarrow> Inl (sql_unique_error x table) | Some t' \<Rightarrow> Inr t')"

definition sql_count :: "'r list \<Rightarrow> i32" where
  "sql_count rows = word_of_nat (length rows)"

section \<open>Transactions\<close>

definition query_transaction :: "externals \<Rightarrow> bytes \<Rightarrow> data_store \<Rightarrow> Transaction option rg_result" where
  "query_transaction x transaction_hash ds =
     and_then (pool x ds) (\<lambda>_.
     and_then (try_map (\<lambda>r. proto_deserialize x (dec_transaction x) (tr_raw r))
       (filter (\<lambda>r. tr_hash r = transaction_hash) (ds_transactions ds))) (\<lambda>res. Ok (get res 0)))"

definition query_transaction_hex :: "externals \<Rightarrow> string \<Rightarrow> data_store \<Rightarrow> Transaction option rg_result" where
  "query_transaction_hex x hx ds = and_then (from_hex x hx) (\<lambda>v. query_transaction x v ds)"

definition query_time_transaction ::
    "externals \<Rightarrow> i64 \<Rightarrow> i64 \<Rightarrow> data_store \<Rightarrow> TransactionEntry list rg_result" where
  "query_time_transaction x start end' ds =
     and_then (pool x ds) (\<lambda>_.
     try_map (\<lambda>r. and_then (proto_deserialize x (dec_transaction x) (tr_raw r)) (\<lambda>t.
         Ok \<lparr> te_time = tr_time r, te_transaction = Some t \<rparr>))
       (filter (\<lambda>r. sint start \<le> sint (tr_time r) \<and> sint (tr_time r) < sint end') (ds_transactions ds)))"

definition accepted_row :: "transaction_row \<Rightarrow> bool" where
  "accepted_row r \<longleftrightarrow> tr_rejection_reason r = None \<and> tr_accepted r"

definition query_accepted_transaction ::
    "externals \<Rightarrow> Hash \<Rightarrow> data_store \<Rightarrow> Transaction option rg_result" where
  "query_accepted_transaction x transaction_hash ds =
     and_then (hash_safe_bytes x transaction_hash) (\<lambda>bs.
     and_then (pool x ds) (\<lambda>_.
     and_then (try_map (\<lambda>r. proto_deserialize x (dec_transaction x) (tr_raw r))
       (filter (\<lambda>r. tr_hash r = bs \<and> accepted_row r) (ds_transactions ds))) (\<lambda>res. Ok (get res 0))))"

definition query_recent_transactions ::
    "externals \<Rightarrow> i64 option \<Rightarrow> bool option \<Rightarrow> data_store \<Rightarrow> Transaction list rg_result" where
  "query_recent_transactions x limit test ds =
     (let n = (case limit of Some l \<Rightarrow> l | None \<Rightarrow> 10) in
      and_then (pool x ds) (\<lambda>_.
      try_map (\<lambda>r. proto_deserialize x (dec_transaction x) (tr_raw r))
        (sql_limit n (order_desc tr_time (filter (\<lambda>r. accepted_row r \<and>
          (case test of None \<Rightarrow> True | Some b \<Rightarrow> tr_is_test r = b)) (ds_transactions ds))))))"

definition recent_transaction_hashes ::
    "externals \<Rightarrow> i64 option \<Rightarrow> i64 option \<Rightarrow> data_store \<Rightarrow> Hash list rg_result" where
  "recent_transaction_hashes x limit min_time ds =
     (let n = (case limit of Some l \<Rightarrow> l | None \<Rightarrow> 10);
          m = (case min_time of Some l \<Rightarrow> l | None \<Rightarrow> 0) in
      and_then (pool x ds) (\<lambda>_.
      Ok (map (\<lambda>r. hash_new (tr_hash r))
        (sql_limit n (order_desc tr_time
          (filter (\<lambda>r. accepted_row r \<and> sint m < sint (tr_time r)) (ds_transactions ds)))))))"

definition count_total_accepted_transactions :: "externals \<Rightarrow> data_store \<Rightarrow> i64 rg_result" where
  "count_total_accepted_transactions x ds =
     and_then (pool x ds) (\<lambda>_.
     safe_get x (get [scast (sql_count (filter accepted_row (ds_transactions ds)))] 0))"

definition count_total_transactions :: "externals \<Rightarrow> data_store \<Rightarrow> i64 rg_result" where
  "count_total_transactions x ds =
     and_then (pool x ds) (\<lambda>_. Ok (scast (sql_count (ds_transactions ds))))"

definition count_total_utxos :: "externals \<Rightarrow> data_store \<Rightarrow> i64 rg_result" where
  "count_total_utxos x ds =
     and_then (pool x ds) (\<lambda>_. safe_get x (get [scast (sql_count (ds_utxo ds))] 0))"

definition read_rejection ::
    "externals \<Rightarrow> transaction_row \<Rightarrow> (Transaction \<times> ErrorInfo option) rg_result" where
  "read_rejection x r =
     and_then (proto_deserialize x (dec_transaction x) (tr_raw r)) (\<lambda>t.
     case tr_rejection_reason r of
       None \<Rightarrow> Ok (t, None)
     | Some rr \<Rightarrow> and_then (proto_deserialize x (dec_error_info x) rr) (\<lambda>e. Ok (t, Some e)))"

definition query_maybe_transaction ::
    "externals \<Rightarrow> Hash \<Rightarrow> data_store \<Rightarrow> (Transaction \<times> ErrorInfo option) option rg_result" where
  "query_maybe_transaction x transaction_hash ds =
     and_then (pool x ds) (\<lambda>_.
     and_then (hash_safe_bytes x transaction_hash) (\<lambda>bs.
     and_then (try_map (read_rejection x) (filter (\<lambda>r. tr_hash r = bs) (ds_transactions ds)))
       (\<lambda>res. Ok (get res 0))))"

definition transaction_known :: "externals \<Rightarrow> Hash \<Rightarrow> data_store \<Rightarrow> bool rg_result" where
  "transaction_known x transaction_hash ds =
     and_then (hash_safe_bytes x transaction_hash) (\<lambda>bs.
     and_then (pool x ds) (\<lambda>_.
     Ok (0 < sint (sql_count (filter (\<lambda>r. tr_hash r = bs) (ds_transactions ds))))))"

definition insert_transaction_raw ::
    "externals \<Rightarrow> Transaction \<Rightarrow> i64 \<Rightarrow> bool \<Rightarrow> ErrorInfo option \<Rightarrow> (data_store, unit) action" where
  "insert_transaction_raw x tx tm accepted rejection_reason = exec (\<lambda>ds.
     and_then (pool x ds) (\<lambda>_.
     let rejection_ser = map_option (\<lambda>e. into_bytes (json_or x (json_error_info x e))) rejection_reason in
     and_then (tx_hash_bytes x tx) (\<lambda>hv.
     Ok (ds \<lparr> ds_transactions := tbl_replace tr_hash
       \<lparr> tr_hash = hv, tr_raw = enc_transaction x tx, tr_time = tm,
         tr_rejection_reason = rejection_ser, tr_accepted = accepted, tr_is_test = is_test tx \<rparr>
       (ds_transactions ds) \<rparr>))))"

section \<open>Unspent outputs\<close>

definition query_utxo_output_index :: "externals \<Rightarrow> Hash \<Rightarrow> data_store \<Rightarrow> i32 list rg_result" where
  "query_utxo_output_index x transaction_hash ds =
     and_then (pool x ds) (\<lambda>_.
     and_then (hash_safe_bytes x transaction_hash) (\<lambda>bs.
     Ok (map (\<lambda>r. ucast (ur_output_index r)) (filter (\<lambda>r. ur_transaction_hash r = bs) (ds_utxo ds)))))"

definition query_utxo_id_valid :: "externals \<Rightarrow> Hash \<Rightarrow> i64 \<Rightarrow> data_store \<Rightarrow> bool rg_result" where
  "query_utxo_id_valid x transaction_hash output_index ds =
     and_then (pool x ds) (\<lambda>_.
     and_then (hash_safe_bytes x transaction_hash) (\<lambda>bs.
     Ok (map ur_output_index (filter (\<lambda>r. utxo_key r = (bs, output_index)) (ds_utxo ds)) \<noteq> [])))"

definition query_utxo_address :: "externals \<Rightarrow> Address \<Rightarrow> data_store \<Rightarrow> UtxoEntry list rg_result" where
  "query_utxo_address x address ds =
     and_then (safe_bytes x (a_address address)) (\<lambda>bs.
     and_then (pool x ds) (\<lambda>_.
     try_map (\<lambda>r. proto_deserialize x (dec_utxo_entry x) (ur_raw r))
       (filter (\<lambda>r. ur_address r = bs) (ds_utxo ds))))"

definition get_balance :: "externals \<Rightarrow> Address \<Rightarrow> data_store \<Rightarrow> i64 option rg_result" where
  "get_balance x address ds =
     and_then (query_utxo_address x address ds) (\<lambda>utxos.
     let bal = foldl (\<lambda>b utxo. case Option.bind (ue_output utxo) opt_amount of
                 Some a \<Rightarrow> b + a | None \<Rightarrow> b) 0 utxos
     in Ok (if 0 < sint bal then Some bal else None))"

definition utxo_for_addresses ::
    "externals \<Rightarrow> Address list \<Rightarrow> data_store \<Rightarrow> UtxoEntry list rg_result" where
  "utxo_for_addresses x as ds =
     try_fold (\<lambda>res address. and_then (query_utxo_address x address ds) (\<lambda>utxos. Ok (res @ utxos))) [] as"

definition utxo_all_debug :: "externals \<Rightarrow> data_store \<Rightarrow> UtxoEntry list rg_result" where
  "utxo_all_debug x ds = and_then (pool x ds) (\<lambda>_.
     try_map (\<lambda>r. proto_deserialize x (dec_utxo_entry x) (ur_raw r)) (ds_utxo ds))"

definition utxo_scroll :: "externals \<Rightarrow> i64 \<Rightarrow> i64 \<Rightarrow> data_store \<Rightarrow> UtxoEntry list rg_result" where
  "utxo_scroll x limit offset ds = and_then (pool x ds) (\<lambda>_.
     try_map (\<lambda>r. proto_deserialize x (dec_utxo_entry x) (ur_raw r))
       (sql_limit limit (sql_offset offset (ds_utxo ds))))"

definition utxo_filter_time :: "externals \<Rightarrow> i64 \<Rightarrow> i64 \<Rightarrow> data_store \<Rightarrow> UtxoEntry list rg_result" where
  "utxo_filter_time x start end' ds = and_then (pool x ds) (\<lambda>_.
     try_map (\<lambda>r. proto_deserialize x (dec_utxo_entry x) (ur_raw r))
       (filter (\<lambda>r. sint start \<le> sint (ur_time r) \<and> sint (ur_time r) < sint end') (ds_utxo ds)))"

definition delete_utxo :: "externals \<Rightarrow> UtxoId \<Rightarrow> (data_store, u64) action" where
  "delete_utxo x fixed_utxo_id ds =
     (case and_then (pool x ds) (\<lambda>_.
           and_then (safe_get x (u_transaction_hash fixed_utxo_id)) (\<lambda>h.
           and_then (hash_safe_bytes x h) (\<lambda>bs.
           Ok (tbl_delete (\<lambda>r. utxo_key r = (bs, u_output_index fixed_utxo_id)) (ds_utxo ds))))) of
        Ok (n, t) \<Rightarrow> (Ok (word_of_nat n), ds \<lparr> ds_utxo := t \<rparr>)
      | Err e \<Rightarrow> (Err e, ds)
      | Panic p \<Rightarrow> (Panic p, ds))"

definition has_deploy_code :: "externals \<Rightarrow> Output \<Rightarrow> bool rg_result" where
  "has_deploy_code x output = (case validate_deploy_code x output of
     Ok _ \<Rightarrow> Ok True | Err _ \<Rightarrow> Ok False | Panic p \<Rightarrow> Panic p)"

definition utxo_row_of :: "externals \<Rightarrow> UtxoEntry \<Rightarrow> utxo_row rg_result" where
  "utxo_row_of x utxo_entry =
     and_then (safe_get_msg x ''missing utxo id'' (ue_utxo_id utxo_entry)) (\<lambda>uid.
     and_then (opt_hash_safe_bytes x (u_transaction_hash uid)) (\<lambda>hash.
     and_then (safe_get_msg x ''UTxo entry insert missing output'' (ue_output utxo_entry)) (\<lambda>output.
     and_then (utxo_entry_address x utxo_entry) (\<lambda>addr.
     and_then (safe_bytes x (a_address addr)) (\<lambda>address.
     and_then (has_deploy_code x output) (\<lambda>has_code.
     Ok \<lparr> ur_transaction_hash = hash, ur_output_index = u_output_index uid, ur_address = address,
          ur_output = enc_output x output, ur_time = ue_time utxo_entry, ur_amount = opt_amount output,
          ur_raw = enc_utxo_entry x utxo_entry, ur_has_code = has_code \<rparr>))))))"

definition insert_utxo :: "externals \<Rightarrow> UtxoEntry \<Rightarrow> (data_store, unit) action" where
  "insert_utxo x utxo_entry = exec (\<lambda>ds.
     and_then (pool x ds) (\<lambda>_.
     and_then (utxo_row_of x utxo_entry) (\<lambda>r.
     and_then (sql_insert x ''utxo'' utxo_key r (ds_utxo ds)) (\<lambda>t.
     Ok (ds \<lparr> ds_utxo := t \<rparr>)))))"

definition code_utxo :: "externals \<Rightarrow> Address \<Rightarrow> bool \<Rightarrow> data_store \<Rightarrow> UtxoEntry option rg_result" where
  "code_utxo x address has_code ds =
     and_then (pool x ds) (\<lambda>_.
     case find (\<lambda>r. ur_has_code r = has_code) (ds_utxo ds) of
       None \<Rightarrow> Ok None
     | Some r \<Rightarrow> and_then (proto_deserialize x (dec_utxo_entry x) (ur_raw r)) (\<lambda>u. Ok (Some u)))"

section \<open>Edges and address index\<close>

definition insert_transaction_edge ::
    "externals \<Rightarrow> UtxoId \<Rightarrow> Address \<Rightarrow> Hash \<Rightarrow> i64 \<Rightarrow> i64 \<Rightarrow> (data_store, unit) action" where
  "insert_transaction_edge x utxo_id address child_transaction_hash child_input_index tm = exec (\<lambda>ds.
     and_then (safe_get_msg x ''No transaction hash on utxo_id'' (u_transaction_hash utxo_id)) (\<lambda>h.
     and_then (hash_vec x h) (\<lambda>hash.
     and_then (hash_safe_bytes x child_transaction_hash) (\<lambda>child_hash.
     and_then (safe_bytes x (a_address address)) (\<lambda>addr.
     and_then (pool x ds) (\<lambda>_.
     Ok (ds \<lparr> ds_transaction_edge := tbl_replace edge_key
       \<lparr> er_transaction_hash = hash, er_output_index = u_output_index utxo_id, er_address = addr,
         er_child_transaction_hash = child_hash, er_child_input_index = child_input_index, er_time = tm \<rparr>
       (ds_transaction_edge ds) \<rparr>)))))))"

definition utxo_used :: "externals \<Rightarrow> UtxoId \<Rightarrow> data_store \<Rightarrow> (Hash \<times> i64) option rg_result" where
  "utxo_used x utxo_id ds =
     and_then (opt_hash_safe_bytes x (u_transaction_hash utxo_id)) (\<lambda>bs.
     and_then (pool x ds) (\<lambda>_.
     Ok (map_option (\<lambda>r. (hash_new (er_child_transaction_hash r), er_child_input_index r))
       (find (\<lambda>r. edge_key r = (bs, u_output_index utxo_id)) (ds_transaction_edge ds)))))"

definition insert_address_transaction_single ::
    "externals \<Rightarrow> Address \<Rightarrow> Hash \<Rightarrow> i64 \<Rightarrow> bool \<Rightarrow> (data_store, unit) action" where
  "insert_address_transaction_single x address tx_hash tm incoming = exec (\<lambda>ds.
     and_then (pool x ds) (\<lambda>_.
     and_then (hash_safe_bytes x tx_hash) (\<lambda>hv.
     and_then (safe_bytes x (a_address address)) (\<lambda>av.
     Ok (ds \<lparr> ds_address_transaction := tbl_replace address_transaction_key
       \<lparr> ar_address = av, ar_tx_hash = hv, ar_time = tm, ar_incoming = incoming \<rparr>
       (ds_address_transaction ds) \<rparr>)))))"

definition list_accepted :: "externals \<Rightarrow> data_store \<Rightarrow> address_transaction_row list \<Rightarrow> Transaction list rg_result" where
  "list_accepted x ds rows =
     try_fold (\<lambda>res r. and_then (query_maybe_transaction x (hash_new (ar_tx_hash r)) ds) (\<lambda>m.
        case m of Some (tx, None) \<Rightarrow> Ok (res @ [tx]) | _ \<Rightarrow> Ok res)) [] rows"

definition get_all_tx_for_address ::
    "externals \<Rightarrow> Address \<Rightarrow> i64 \<Rightarrow> i64 \<Rightarrow> data_store \<Rightarrow> Transaction list rg_result" where
  "get_all_tx_for_address x address limit offset ds =
     and_then (safe_bytes x (a_address address)) (\<lambda>bs.
     and_then (pool x ds) (\<lambda>_.
     list_accepted x ds (sql_limit limit (sql_offset offset (order_desc ar_time
       (filter (\<lambda>r. ar_address r = bs) (ds_address_transaction ds)))))))"

definition get_filter_tx_for_address ::
    "externals \<Rightarrow> Address \<Rightarrow> i64 \<Rightarrow> i64 \<Rightarrow> bool \<Rightarrow> data_store \<Rightarrow> Transaction list rg_result" where
  "get_filter_tx_for_address x address limit offset incoming ds =
     and_then (pool x ds) (\<lambda>_.
     and_then (safe_bytes x (a_address address)) (\<lambda>bs.
     list_accepted x ds (sql_limit limit (sql_offset offset (order_desc ar_time
       (filter (\<lambda>r. ar_address r = bs \<and> ar_incoming r = incoming) (ds_address_transaction ds)))))))"

definition get_count_filter_tx_for_address ::
    "externals \<Rightarrow> Address \<Rightarrow> bool \<Rightarrow> data_store \<Rightarrow> i64 rg_result" where
  "get_count_filter_tx_for_address x address incoming ds =
     and_then (pool x ds) (\<lambda>_.
     and_then (safe_bytes x (a_address address)) (\<lambda>bs.
     Ok (scast (sql_count (filter (\<lambda>r. ar_address r = bs \<and> ar_incoming r = incoming)
       (ds_address_transaction ds))))))"

text \<open>The hash sets of addresses are enumerated in order of first insertion.\<close>

definition insert_address_transaction :: "externals \<Rightarrow> Transaction \<Rightarrow> (data_store, unit) action" where
  "insert_address_transaction x tx =
     seq_do (pure (try_map (input_address x) (t_inputs tx))) (\<lambda>outgoing.
     seq_do (pure (try_map (\<lambda>o1. safe_get_msg x ''No address on output for insert_address_transaction''
       (o_address o1)) (t_outputs tx))) (\<lambda>incoming.
     seq_do (pure (safe_get_msg x ''No time on transaction for insert_address_transaction''
       (Option.bind (t_struct_metadata tx) sm_time))) (\<lambda>tm.
     seq_do (for_each_do (\<lambda>a. insert_address_transaction_single x a (hash_or x tx) tm True) (remdups incoming)) (\<lambda>_.
     for_each_do (\<lambda>a. insert_address_transaction_single x a (hash_or x tx) tm False) (remdups outgoing)))))"

definition insert_input_edge ::
    "externals \<Rightarrow> Transaction \<Rightarrow> i64 \<Rightarrow> nat \<times> Input \<Rightarrow> (data_store, unit) action" where
  "insert_input_edge x tx tm p = (case p of (i, inp) \<Rightarrow>
     (case i_utxo_id inp of
        None \<Rightarrow> pure (Ok ())
      | Some utxo \<Rightarrow> seq_do (pure (input_address x inp)) (\<lambda>a.
          insert_transaction_edge x utxo a (hash_or x tx) (word_of_nat i) tm)))"

definition insert_transaction_indexes :: "externals \<Rightarrow> Transaction \<Rightarrow> i64 \<Rightarrow> (data_store, unit) action" where
  "insert_transaction_indexes x tx tm =
     seq_do (for_each_do (insert_input_edge x tx tm) (enumerate 0 (t_inputs tx))) (\<lambda>_.
     insert_address_transaction x tx)"

definition insert_transaction ::
    "externals \<Rightarrow> Transaction \<Rightarrow> i64 \<Rightarrow> bool \<Rightarrow> ErrorInfo option \<Rightarrow> bool \<Rightarrow> (data_store, unit) action" where
  "insert_transaction x tx tm accepted rejection_reason update_utxo =
     seq_do (insert_transaction_raw x tx tm accepted rejection_reason) (\<lambda>_.
     seq_do (if update_utxo then for_each_do (insert_utxo x) (from_transaction x tx tm) else pure (Ok ())) (\<lambda>_.
     insert_transaction_indexes x tx tm))"

section \<open>Facts\<close>

lemma pool_eq_Ok [result_simps]: "pool x ds = Ok u \<longleftrightarrow> ds_fault ds = None"
  by (simp add: pool_def map_err_sqlx_def result_simps split: option.splits)

lemma pool_healthy [simp]: "ds_fault ds = None \<Longrightarrow> pool x ds = Ok ()"
  by (simp add: result_simps)

lemma exec_eq_Ok [result_simps]: "exec f ds = (Ok u, ds') \<longleftrightarrow> f ds = Ok ds'"
  by (simp add: exec_def split: result.splits)

lemma exec_Ok: "f ds = Ok ds' \<Longrightarrow> exec f ds = (Ok (), ds')"
  by (simp add: exec_def)

lemma exec_Err: "f ds = Err e \<Longrightarrow> exec f ds = (Err e, ds)"
  by (simp add: exec_def)

lemma preserves_exec [preserves_rules]:
  "(\<And>ds ds'. I ds \<Longrightarrow> f ds = Ok ds' \<Longrightarrow> I ds') \<Longrightarrow> preserves I (exec f)"
  by (auto simp: preserves_def exec_def split: result.splits)

lemma sql_insert_eq_Ok [result_simps]: "sql_insert x n k r t = Ok t' \<longleftrightarrow> tbl_insert k r t = Some t'"
  by (simp add: sql_insert_def map_err_sqlx_def result_simps split: option.splits)

lemma sql_insert_conflict:
  "k r \<in> k ` set t \<Longrightarrow> sql_insert x n k r t = Err (error_message x InternalDatabaseError (sql_unique_error x n))"
  by (simp add: sql_insert_def tbl_insert_def map_err_sqlx_def)

lemma proto_deserialize_eq_Ok [result_simps]: "proto_deserialize x d bs = Ok v \<longleftrightarrow> d bs = Inr v"
  by (simp add: proto_deserialize_def result_simps)

subsection \<open>Primary keys stay unique\<close>

definition store_wf :: "data_store \<Rightarrow> bool" where
  "store_wf ds \<longleftrightarrow> tbl_wf tr_hash (ds_transactions ds) \<and> tbl_wf utxo_key (ds_utxo ds) \<and>
     tbl_wf edge_key (ds_transaction_edge ds) \<and>
     tbl_wf address_transaction_key (ds_address_transaction ds) \<and>
     tbl_wf br_hash (ds_block ds) \<and> tbl_wf br_height (ds_block ds) \<and>
     tbl_wf abr_address (ds_address_block ds) \<and> tbl_wf obr_hash (ds_observation ds) \<and>
     tbl_wf observation_edge_key (ds_observation_edge ds) \<and> tbl_wf per_id (ds_peers ds) \<and>
     tbl_wf nr_public_key (ds_nodes ds) \<and> tbl_wf cr_key_name (ds_config ds)"

lemma store_wf_empty: "store_wf empty_store"
  by (simp add: store_wf_def empty_store_def tbl_wf_def)

lemma tbl_wf_replace [simp]: "tbl_wf k t \<Longrightarrow> tbl_wf k (tbl_replace k r t)"
  by (rule list_table.repl_lookup [THEN conjunct1])

lemma tbl_wf_insert: "tbl_wf k t \<Longrightarrow> tbl_insert k r t = Some t' \<Longrightarrow> tbl_wf k t'"
  using list_table.ins_fresh [of k t r] list_table.ins_conflict [of k t r]
  by (cases "tbl_lookup k t (k r)") auto

lemma tbl_wf_delete [simp]: "tbl_wf k t \<Longrightarrow> tbl_wf k (snd (tbl_delete p t))"
  by (simp add: tbl_delete_def tbl_wf_def distinct_map_filter)

lemma insert_transaction_raw_wf [preserves_rules]:
  "preserves store_wf (insert_transaction_raw x tx tm acc rej)"
  unfolding insert_transaction_raw_def
  by (rule preserves_exec) (auto simp: store_wf_def result_simps Let_def)

lemma insert_utxo_wf [preserves_rules]: "preserves store_wf (insert_utxo x u)"
  unfolding insert_utxo_def
  by (rule preserves_exec) (auto simp: store_wf_def result_simps intro: tbl_wf_insert)

lemma delete_utxo_wf [preserves_rules]: "preserves store_wf (delete_utxo x u)"
  unfolding preserves_def
proof (intro allI impI)
  fix ds assume "store_wf ds"
  moreover have "tbl_wf utxo_key (filter p (ds_utxo ds))" if "tbl_wf utxo_key (ds_utxo ds)" for p
    using that by (simp add: tbl_wf_def distinct_map_filter)
  ultimately show "store_wf (snd (delete_utxo x u ds))"
    by (auto simp: delete_utxo_def store_wf_def result_simps tbl_delete_def split: result.splits)
qed

lemma insert_transaction_edge_wf [preserves_rules]:
  "preserves store_wf (insert_transaction_edge x u a h i tm)"
  unfolding insert_transaction_edge_def
  by (rule preserves_exec) (auto simp: store_wf_def result_simps)

lemma insert_address_transaction_single_wf [preserves_rules]:
  "preserves store_wf (insert_address_transaction_single x a h tm b)"
  unfolding insert_address_transaction_single_def
  by (rule preserves_exec) (auto simp: store_wf_def result_simps)

lemma insert_input_edge_preserves [preserves_rules]:
  "(\<And>u a i. preserves I (insert_transaction_edge x u a (hash_or x tx) i tm)) \<Longrightarrow>
     preserves I (insert_input_edge x tx tm p)"
  unfolding insert_input_edge_def by (cases p) (auto intro!: preserves_rules split: option.split)

lemma insert_address_transaction_preserves [preserves_rules]:
  "(\<And>a tm b. preserves I (insert_address_transaction_single x a (hash_or x tx) tm b)) \<Longrightarrow>
     preserves I (insert_address_transaction x tx)"
  unfolding insert_address_transaction_def by (intro preserves_rules)

lemma insert_transaction_wf [preserves_rules]:
  "preserves store_wf (insert_transaction x tx tm acc rej upd)"
  unfolding insert_transaction_def insert_transaction_indexes_def by (intro preserves_rules)

subsection \<open>The table of unspent outputs as a finite map\<close>

definition unspent :: "data_store \<Rightarrow> bytes \<times> i64 \<Rightarrow> utxo_row option" where
  "unspent ds = tbl_lookup utxo_key (ds_utxo ds)"

lemma tbl_insert_eq_Some:
  "tbl_insert k r t = Some t' \<longleftrightarrow> tbl_lookup k t (k r) = None \<and> t' = t @ [r]"
  by (auto simp: tbl_insert_def tbl_lookup_None)

lemma insert_utxo_eq_Ok:
  "insert_utxo x u ds = (Ok v, ds') \<longleftrightarrow> ds_fault ds = None \<and>
     (\<exists>r. utxo_row_of x u = Ok r \<and> unspent ds (utxo_key r) = None \<and> ds' = ds \<lparr> ds_utxo := ds_utxo ds @ [r] \<rparr>)"
  by (auto simp: insert_utxo_def result_simps tbl_insert_eq_Some unspent_def)

lemma delete_utxo_eq_Ok:
  "delete_utxo x u ds = (Ok n, ds') \<longleftrightarrow> ds_fault ds = None \<and>
     (\<exists>h b. u_transaction_hash u = Some h \<and> hash_safe_bytes x h = Ok b \<and>
        n = word_of_nat (length (filter (\<lambda>r. utxo_key r = (b, u_output_index u)) (ds_utxo ds))) \<and>
        ds' = ds \<lparr> ds_utxo := filter (\<lambda>r. utxo_key r \<noteq> (b, u_output_index u)) (ds_utxo ds) \<rparr>)"
  by (auto simp: delete_utxo_def tbl_delete_def result_simps split: result.splits)

lemma filter_key_empty: "filter (\<lambda>r. k r = v) t = [] \<longleftrightarrow> tbl_lookup k t v = None"
  by (auto simp: tbl_lookup_def find_None_iff filter_empty_conv)

lemma query_utxo_id_valid_eq_Ok:
  "query_utxo_id_valid x h i ds = Ok v \<longleftrightarrow> ds_fault ds = None \<and>
     (\<exists>b. hash_safe_bytes x h = Ok b \<and> v = (unspent ds (b, i) \<noteq> None))"
  by (auto simp: query_utxo_id_valid_def result_simps unspent_def filter_key_empty)

lemma unspent_append:
  "unspent (ds \<lparr> ds_utxo := ds_utxo ds @ rs \<rparr>) k =
     (case unspent ds k of Some r \<Rightarrow> Some r | None \<Rightarrow> tbl_lookup utxo_key rs k)"
  by (simp add: unspent_def tbl_lookup_def find_append split: option.split)

lemma unspent_delete:
  "unspent (ds \<lparr> ds_utxo := filter (\<lambda>r. utxo_key r \<noteq> k) (ds_utxo ds) \<rparr>) = (unspent ds)(k := None)"
  by (simp add: unspent_def find_delete)

lemma unspent_empty [simp]: "unspent empty_store = Map.empty"
  by (simp add: unspent_def empty_store_def tbl_lookup_def fun_eq_iff)

lemma empty_store_healthy [simp]: "ds_fault empty_store = None"
  by (simp add: empty_store_def)

lemma utxo_row_of_from_output:
  assumes "utxo_row_of x (from_output_new o1 h i tm) = Ok r"
  shows "hash_safe_bytes x h = Ok (ur_transaction_hash r) \<and> ur_output_index r = i \<and>
     ur_amount r = opt_amount o1 \<and> ur_raw r = enc_utxo_entry x (from_output_new o1 h i tm) \<and> ur_time r = tm \<and>
     (\<exists>a. o_address o1 = Some a \<and> safe_bytes x (a_address a) = Ok (ur_address r))"
  using assms
  by (auto simp: utxo_row_of_def from_output_new_def utxo_id_new_def utxo_entry_address_def
      opt_hash_safe_bytes_def result_simps)

text \<open>The rows that the outputs of a transaction become.\<close>

lemma from_transaction_row_key:
  assumes "try_map (utxo_row_of x) (from_transaction x tx tm) = Ok rs" "i < length rs"
  shows "tx_hash_bytes x tx = Ok (ur_transaction_hash (rs ! i)) \<and> ur_output_index (rs ! i) = word_of_nat i \<and>
     ur_amount (rs ! i) = opt_amount (t_outputs tx ! i)"
proof -
  have l: "length rs = length (t_outputs tx)" using try_map_length [OF assms(1)] by simp
  have "utxo_row_of x (from_transaction x tx tm ! i) = Ok (rs ! i)"
    using assms l by (auto simp: result_simps list_all2_conv_all_nth)
  with assms(2) l have "utxo_row_of x (from_output_new (t_outputs tx ! i) (hash_or x tx) (word_of_nat i) tm) = Ok (rs ! i)"
    by (simp add: from_transaction_nth)
  from utxo_row_of_from_output [OF this] show ?thesis
    by (auto simp: tx_hash_bytes_def hash_safe_bytes_def)
qed

lemma try_map_Cons_eq_Ok:
  "try_map f (u # us) = Ok rs \<longleftrightarrow> (\<exists>r qs. rs = r # qs \<and> f u = Ok r \<and> try_map f us = Ok qs)"
  by (auto simp: result_simps list_all2_Cons1)

lemma insert_utxos_eq_Ok:
  "for_each_do (insert_utxo x) us ds = (Ok (), ds') \<longleftrightarrow>
     (us \<noteq> [] \<longrightarrow> ds_fault ds = None) \<and>
     (\<exists>rs. try_map (utxo_row_of x) us = Ok rs \<and> distinct (map utxo_key rs) \<and>
        (\<forall>r \<in> set rs. unspent ds (utxo_key r) = None) \<and> ds' = ds \<lparr> ds_utxo := ds_utxo ds @ rs \<rparr>)"
proof (induction us arbitrary: ds)
  case (Cons u us)
  have up: "unspent (ds \<lparr> ds_utxo := ds_utxo ds @ [r] \<rparr>) k = None \<longleftrightarrow> unspent ds k = None \<and> utxo_key r \<noteq> k" for r k
    by (auto simp: unspent_append tbl_lookup_def split: option.splits)
  have ex: "(\<exists>rs. try_map (utxo_row_of x) (u # us) = Ok rs \<and> Q rs) \<longleftrightarrow>
      (\<exists>r qs. utxo_row_of x u = Ok r \<and> try_map (utxo_row_of x) us = Ok qs \<and> Q (r # qs))" for Q
    unfolding try_map_Cons_eq_Ok by blast
  have "for_each_do (insert_utxo x) (u # us) ds = (Ok (), ds') \<longleftrightarrow>
      ds_fault ds = None \<and> (\<exists>r. utxo_row_of x u = Ok r \<and> unspent ds (utxo_key r) = None \<and>
        for_each_do (insert_utxo x) us (ds \<lparr> ds_utxo := ds_utxo ds @ [r] \<rparr>) = (Ok (), ds'))"
    by (auto simp: seq_do_eq_Ok insert_utxo_eq_Ok)
  also have "\<dots> \<longleftrightarrow> ds_fault ds = None \<and> (\<exists>r qs. utxo_row_of x u = Ok r \<and> try_map (utxo_row_of x) us = Ok qs \<and>
      unspent ds (utxo_key r) = None \<and> distinct (map utxo_key qs) \<and>
      (\<forall>q \<in> set qs. unspent ds (utxo_key q) = None \<and> utxo_key r \<noteq> utxo_key q) \<and>
      ds' = ds \<lparr> ds_utxo := ds_utxo ds @ r # qs \<rparr>)"
    unfolding Cons.IH by (simp add: up) blast
  also have "\<dots> \<longleftrightarrow> (u # us \<noteq> [] \<longrightarrow> ds_fault ds = None) \<and>
     (\<exists>rs. try_map (utxo_row_of x) (u # us) = Ok rs \<and> distinct (map utxo_key rs) \<and>
        (\<forall>r \<in> set rs. unspent ds (utxo_key r) = None) \<and> ds' = ds \<lparr> ds_utxo := ds_utxo ds @ rs \<rparr>)"
    unfolding ex by (simp add: image_iff ball_conj_distrib) blast
  finally show ?case .
qed (auto simp: pure_eq)

lemma insert_transaction_utxo:
  assumes "insert_transaction x tx tm acc rej True ds = (Ok v, ds')"
  shows "\<exists>rs. try_map (utxo_row_of x) (from_transaction x tx tm) = Ok rs \<and> distinct (map utxo_key rs) \<and>
     (\<forall>r \<in> set rs. unspent ds (utxo_key r) = None) \<and> ds_utxo ds' = ds_utxo ds @ rs \<and> ds_fault ds' = None"
proof -
  obtain d1 d2 where 1: "insert_transaction_raw x tx tm acc rej ds = (Ok (), d1)"
    "for_each_do (insert_utxo x) (from_transaction x tx tm) d1 = (Ok (), d2)"
    "insert_transaction_indexes x tx tm d2 = (Ok (), ds')"
    using assms by (auto simp: insert_transaction_def result_simps)
  have d1: "ds_utxo d1 = ds_utxo ds" "ds_fault ds = None" "ds_fault d1 = None"
    using 1(1) by (auto simp: insert_transaction_raw_def result_simps Let_def)
  have fr: "preserves (\<lambda>d. ds_utxo d = U \<and> ds_fault d = F) (insert_transaction_indexes x tx tm)" for U F
    unfolding insert_transaction_indexes_def
    by (intro preserves_rules)
       (auto simp: insert_transaction_edge_def insert_address_transaction_single_def result_simps
          intro!: preserves_exec)
  obtain rs where rs: "try_map (utxo_row_of x) (from_transaction x tx tm) = Ok rs" "distinct (map utxo_key rs)"
    "\<forall>r \<in> set rs. unspent d1 (utxo_key r) = None" "d2 = d1 \<lparr> ds_utxo := ds_utxo d1 @ rs \<rparr>"
    using 1(2) by (auto simp: insert_utxos_eq_Ok)
  have "ds_utxo ds' = ds_utxo d2 \<and> ds_fault ds' = ds_fault d2"
    using preservesD [OF fr [of "ds_utxo d2" "ds_fault d2"], of d2] 1(3) by simp
  with rs d1 show ?thesis by (auto simp: unspent_def)
qed

section \<open>Properties of the store\<close>

lemma wf_filter_length:
  assumes "tbl_wf k t"
  shows "length (filter (\<lambda>r. k r = v) t) = (if tbl_lookup k t v = None then 0 else 1)"
proof -
  have "distinct (map k (filter (\<lambda>r. k r = v) t))" using assms by (simp add: tbl_wf_def distinct_map_filter)
  moreover have "set (map k (filter (\<lambda>r. k r = v) t)) \<subseteq> {v}" by auto
  ultimately have "length (filter (\<lambda>r. k r = v) t) \<le> 1"
    by (metis card.empty card.insert card_mono distinct_card empty_iff finite.emptyI finite_insert length_map One_nat_def)
  moreover have "filter (\<lambda>r. k r = v) t = [] \<longleftrightarrow> tbl_lookup k t v = None" by (rule filter_key_empty)
  ultimately show ?thesis by (cases "filter (\<lambda>r. k r = v) t") auto
qed

text \<open>C19: The UTXO table implements a finite map from (transaction hash, output index) to rows:
  on a healthy well-formed store, inserting an entry whose key is free updates the map at
  that key, inserting one whose key is taken fails with the database error and changes
  nothing, deleting clears the key and reports whether it was present, and the validity
  query is membership.\<close>

theorem utxo_table_refines_map:
  assumes "store_wf ds" "ds_fault ds = None" "utxo_row_of x u = Ok r"
    and "u_transaction_hash i = Some h" "hash_safe_bytes x h = Ok b"
  shows "(if unspent ds (utxo_key r) = None
      then \<exists>ds'. insert_utxo x u ds = (Ok (), ds') \<and> unspent ds' = (unspent ds)(utxo_key r \<mapsto> r) \<and> store_wf ds'
      else insert_utxo x u ds = (Err (error_message x InternalDatabaseError (sql_unique_error x ''utxo'')), ds)) \<and>
    (\<exists>ds'. delete_utxo x i ds = (Ok (if unspent ds (b, u_output_index i) = None then 0 else 1), ds') \<and>
        unspent ds' = (unspent ds)((b, u_output_index i) := None) \<and> store_wf ds') \<and>
    query_utxo_id_valid x h (u_output_index i) ds = Ok (unspent ds (b, u_output_index i) \<noteq> None)"
proof (intro conjI)
  show "if unspent ds (utxo_key r) = None
      then \<exists>ds'. insert_utxo x u ds = (Ok (), ds') \<and> unspent ds' = (unspent ds)(utxo_key r \<mapsto> r) \<and> store_wf ds'
      else insert_utxo x u ds = (Err (error_message x InternalDatabaseError (sql_unique_error x ''utxo'')), ds)"
  proof (cases "unspent ds (utxo_key r)")
    case None
    let ?d = "ds \<lparr> ds_utxo := ds_utxo ds @ [r] \<rparr>"
    have 1: "insert_utxo x u ds = (Ok (), ?d)" using assms None by (simp add: insert_utxo_eq_Ok)
    have "unspent ?d = (unspent ds)(utxo_key r \<mapsto> r)"
      using None by (simp add: unspent_def find_snoc_fresh tbl_lookup_None)
    with 1 None show ?thesis using preservesD [OF insert_utxo_wf [of x u] assms(1)] by simp
  next
    case (Some q)
    then have "utxo_key r \<in> utxo_key ` set (ds_utxo ds)" by (metis unspent_def tbl_lookup_None option.distinct(1))
    with assms Some show ?thesis by (simp add: insert_utxo_def exec_Err sql_insert_conflict)
  qed
  let ?d = "ds \<lparr> ds_utxo := filter (\<lambda>r. utxo_key r \<noteq> (b, u_output_index i)) (ds_utxo ds) \<rparr>"
  have "length (filter (\<lambda>r. utxo_key r = (b, u_output_index i)) (ds_utxo ds)) =
      (if unspent ds (b, u_output_index i) = None then 0 else 1)"
    using assms(1) unfolding unspent_def by (intro wf_filter_length) (simp add: store_wf_def)
  then have "delete_utxo x i ds = (Ok (if unspent ds (b, u_output_index i) = None then 0 else 1), ?d)"
    using assms by (auto simp: delete_utxo_eq_Ok)
  then show "\<exists>ds'. delete_utxo x i ds = (Ok (if unspent ds (b, u_output_index i) = None then 0 else 1), ds') \<and>
        unspent ds' = (unspent ds)((b, u_output_index i) := None) \<and> store_wf ds'"
    using preservesD [OF delete_utxo_wf [of x i] assms(1)] by (auto simp: unspent_delete)
  show "query_utxo_id_valid x h (u_output_index i) ds = Ok (unspent ds (b, u_output_index i) \<noteq> None)"
    using assms by (simp add: query_utxo_id_valid_eq_Ok)
qed

definition sample_address :: Address where
  "sample_address = new_raw [1, 2, 3]"

definition sample_entry_at :: "i64 \<Rightarrow> UtxoEntry" where
  "sample_entry_at i = from_output_new (output_new sample_address 5) (hash_new [7]) i 0"

definition sample_row_at :: "externals \<Rightarrow> i64 \<Rightarrow> utxo_row" where
  "sample_row_at x i = \<lparr> ur_transaction_hash = [7], ur_output_index = i, ur_address = [1, 2, 3],
     ur_output = enc_output x (output_new sample_address 5), ur_time = 0, ur_amount = Some 5,
     ur_raw = enc_utxo_entry x (sample_entry_at i), ur_has_code = False \<rparr>"

lemma output_new_sel: "o_address (output_new a v) = Some a" "o_output_type (output_new a v) = None"
  by (simp_all add: output_new_def)

lemma sample_row: "utxo_row_of x (sample_entry_at i) = Ok (sample_row_at x i)"
  by (simp add: utxo_row_of_def sample_entry_at_def from_output_new_def utxo_id_new_def
      opt_hash_safe_bytes_def hash_safe_bytes_def hash_new_def utxo_entry_address_def
      sample_address_def new_raw_def has_deploy_code_def validate_deploy_code_def is_deploy_def
      output_new_sel sample_row_at_def Let_def)

lemma sample_row_key [simp]: "utxo_key (sample_row_at x i) = ([7], i)"
  by (simp add: utxo_key_def sample_row_at_def)

theorem utxo_table_refines_map_witness:
  "\<exists>ds'. insert_utxo sample_ext (sample_entry_at 0) empty_store = (Ok (), ds') \<and>
     unspent ds' = [([7], 0) \<mapsto> sample_row_at sample_ext 0]"
  using utxo_table_refines_map [OF store_wf_empty _ sample_row [of sample_ext 0],
      of "utxo_id_new (hash_new [7]) 0" "hash_new [7]" "[7]"]
  by (auto simp: utxo_id_new_def)

subsection \<open>Stored transactions\<close>

lemma filter_tbl_replace: "filter (\<lambda>q. k q = k r) (tbl_replace k r t) = [r]"
  by (simp add: tbl_replace_def filter_empty_conv)

lemma filter_tbl_replace_and:
  "filter (\<lambda>q. k q = k r \<and> P q) (tbl_replace k r t) = (if P r then [r] else [])"
  by (simp add: tbl_replace_def filter_empty_conv)

text \<open>The row that storing a transaction writes.\<close>

definition transaction_row_of ::
    "externals \<Rightarrow> Transaction \<Rightarrow> i64 \<Rightarrow> bool \<Rightarrow> ErrorInfo option \<Rightarrow> bytes \<Rightarrow> transaction_row" where
  "transaction_row_of x tx tm acc rej hv = \<lparr> tr_hash = hv, tr_raw = enc_transaction x tx, tr_time = tm,
     tr_rejection_reason = map_option (\<lambda>e. into_bytes (json_or x (json_error_info x e))) rej,
     tr_accepted = acc, tr_is_test = is_test tx \<rparr>"

lemma insert_transaction_raw_eq_Ok:
  "insert_transaction_raw x tx tm acc rej ds = (Ok v, ds') \<longleftrightarrow> ds_fault ds = None \<and>
     (\<exists>hv. tx_hash_bytes x tx = Ok hv \<and>
        ds' = ds \<lparr> ds_transactions := tbl_replace tr_hash (transaction_row_of x tx tm acc rej hv) (ds_transactions ds) \<rparr>)"
  by (auto simp: insert_transaction_raw_def transaction_row_of_def result_simps Let_def)

text \<open>C24: A stored transaction is found again: after storing a transaction that decodes from its
  own encoding, the lookup by hash returns it, it is known, the accepted lookup returns it
  exactly when it was stored as accepted without a rejection, and, if it carries no
  rejection, the status lookup returns it with no error.  Other hashes are unaffected.\<close>

theorem stored_transaction_round_trip:
  assumes "ds_fault ds = None" "tx_hash_bytes x tx = Ok hv" "transaction_codec_law x tx"
  shows "\<exists>ds'. insert_transaction_raw x tx tm acc rej ds = (Ok (), ds') \<and>
     query_transaction x hv ds' = Ok (Some tx) \<and>
     transaction_known x (hash_new hv) ds' = Ok True \<and>
     query_accepted_transaction x (hash_new hv) ds' = Ok (if acc \<and> rej = None then Some tx else None) \<and>
     (rej = None \<longrightarrow> query_maybe_transaction x (hash_new hv) ds' = Ok (Some (tx, None))) \<and>
     (\<forall>h. h \<noteq> hv \<longrightarrow> query_transaction x h ds' = query_transaction x h ds)"
proof -
  define r where "r = transaction_row_of x tx tm acc rej hv"
  let ?t = "tbl_replace tr_hash r (ds_transactions ds)"
  let ?d = "ds \<lparr> ds_transactions := ?t \<rparr>"
  have h: "tr_hash r = hv" "tr_raw r = enc_transaction x tx" "rej = None \<Longrightarrow> tr_rejection_reason r = None"
    by (simp_all add: r_def transaction_row_of_def)
  have dec: "dec_transaction x (enc_transaction x tx) = Inr tx"
    using assms(3) by (simp add: transaction_codec_law_def)
  have f: "filter (\<lambda>q. tr_hash q = hv) ?t = [r]" using filter_tbl_replace [of tr_hash r] h by simp
  have fa: "filter (\<lambda>q. tr_hash q = hv \<and> accepted_row q) ?t = (if accepted_row r then [r] else [])"
    using filter_tbl_replace_and [of tr_hash r accepted_row] h by simp
  have acc: "accepted_row r \<longleftrightarrow> acc \<and> rej = None" by (auto simp: accepted_row_def r_def transaction_row_of_def)
  have other: "filter (\<lambda>q. tr_hash q = g) ?t = filter (\<lambda>q. tr_hash q = g) (ds_transactions ds)" if "g \<noteq> hv" for g
    using that h by (auto simp: tbl_replace_def intro: filter_cong)
  have "insert_transaction_raw x tx tm acc rej ds = (Ok (), ?d)"
    using assms by (simp add: insert_transaction_raw_eq_Ok r_def)
  moreover have "query_transaction x hv ?d = Ok (Some tx)"
    using assms f h dec by (simp add: query_transaction_def proto_deserialize_def get_def pool_def map_err_sqlx_def)
  moreover have "transaction_known x (hash_new hv) ?d = Ok True"
    using assms f by (simp add: transaction_known_def sql_count_def pool_def map_err_sqlx_def)
  moreover have "query_accepted_transaction x (hash_new hv) ?d = Ok (if acc \<and> rej = None then Some tx else None)"
    using assms fa h dec acc
    by (simp add: query_accepted_transaction_def proto_deserialize_def get_def pool_def map_err_sqlx_def)
  moreover have "rej = None \<longrightarrow> query_maybe_transaction x (hash_new hv) ?d = Ok (Some (tx, None))"
    using assms f h dec
    by (simp add: query_maybe_transaction_def read_rejection_def proto_deserialize_def get_def pool_def
        map_err_sqlx_def)
  moreover have "\<forall>h. h \<noteq> hv \<longrightarrow> query_transaction x h ?d = query_transaction x h ds"
    using other by (simp add: query_transaction_def pool_def)
  ultimately show ?thesis by blast
qed

definition echo_ext :: "Transaction \<Rightarrow> externals" where
  "echo_ext t = sample_ext \<lparr> dec_transaction := \<lambda>_. Inr t \<rparr>"

lemma echo_codec [simp]: "transaction_codec_law (echo_ext t) t"
  by (simp add: transaction_codec_law_def echo_ext_def)

lemma tx_hash_bytes_fresh:
  "Option.bind (t_struct_metadata t) sm_hash = None \<Longrightarrow> \<exists>hv. tx_hash_bytes x t = Ok hv"
  by (simp add: tx_hash_bytes_def hash_or_def calculate_hash_def digest_def hash_new_def)

theorem stored_transaction_round_trip_witness:
  "\<exists>hv ds'. insert_transaction_raw (echo_ext (new_blank 5 7)) (new_blank 5 7) 1 True None empty_store = (Ok (), ds') \<and>
     query_transaction (echo_ext (new_blank 5 7)) hv ds' = Ok (Some (new_blank 5 7))"
proof -
  obtain hv where "tx_hash_bytes (echo_ext (new_blank 5 7)) (new_blank 5 7) = Ok hv"
    using tx_hash_bytes_fresh [of "new_blank 5 7"] by (auto simp: new_blank_def tx_default_def struct_metadata_def)
  from stored_transaction_round_trip [OF empty_store_healthy this echo_codec, of 1 True None]
  show ?thesis by blast
qed

lemma list_accepted_reaches:
  assumes "h \<in> ar_tx_hash ` set rows" "\<not> is_ok (query_maybe_transaction x (hash_new h) ds)"
  shows "\<not> is_ok (list_accepted x ds rows)"
proof -
  have "\<not> is_ok (try_fold (\<lambda>res r. and_then (query_maybe_transaction x (hash_new (ar_tx_hash r)) ds) (\<lambda>m.
      case m of Some (tx, None) \<Rightarrow> Ok (res @ [tx]) | _ \<Rightarrow> Ok res)) acc rows)" for acc
    using assms
  proof (induction rows arbitrary: acc)
    case (Cons r rows)
    then show ?case
      by (cases "query_maybe_transaction x (hash_new (ar_tx_hash r)) ds")
         (auto split: option.splits prod.splits)
  qed simp
  then show ?thesis by (simp add: list_accepted_def)
qed

text \<open>The reason of a rejection is written as JSON text and read back as a protocol buffer.
  Whenever the JSON text of the stored error does not happen to decode as a protocol
  buffer, the status lookup of that transaction fails with the decoder error, and so does
  the whole listing of an address as soon as the listing reaches that transaction.\<close>

theorem rejection_reason_unreadable:
  assumes "ds_fault ds = None" "tx_hash_bytes x tx = Ok hv" "transaction_codec_law x tx"
    and "dec_error_info x (into_bytes (json_or x (json_error_info x e))) = Inl m"
    and "insert_transaction_raw x tx tm acc (Some e) ds = (Ok (), ds')"
  shows "query_maybe_transaction x (hash_new hv) ds' = Err (error_message x ProtoDecoderFailure m) \<and>
     (hv \<in> ar_tx_hash ` set rows \<longrightarrow> \<not> is_ok (list_accepted x ds' rows))"
proof -
  define q where "q = transaction_row_of x tx tm acc (Some e) hv"
  have d: "ds' = ds \<lparr> ds_transactions := tbl_replace tr_hash q (ds_transactions ds) \<rparr>"
    using assms by (auto simp: insert_transaction_raw_eq_Ok q_def)
  have h: "tr_hash q = hv" "read_rejection x q = Err (error_message x ProtoDecoderFailure m)"
    using assms(3,4) by (simp_all add: q_def transaction_row_of_def read_rejection_def proto_deserialize_def
        transaction_codec_law_def)
  have "filter (\<lambda>q. tr_hash q = hv) (ds_transactions ds') = [q]"
    using filter_tbl_replace [of tr_hash q] h d by simp
  with h d assms(1) have "query_maybe_transaction x (hash_new hv) ds' = Err (error_message x ProtoDecoderFailure m)"
    by (simp add: query_maybe_transaction_def)
  then show ?thesis using list_accepted_reaches [of hv rows x ds'] by auto
qed

theorem rejection_reason_unreadable_witness:
  "\<exists>hv ds'. insert_transaction_raw (echo_ext (new_blank 5 7)) (new_blank 5 7) 1 False
       (Some (error_info sample_ext ''reason'')) empty_store = (Ok (), ds') \<and>
     query_maybe_transaction (echo_ext (new_blank 5 7)) (hash_new hv) ds' =
       Err (error_message (echo_ext (new_blank 5 7)) ProtoDecoderFailure ''sample'')"
proof -
  let ?x = "echo_ext (new_blank 5 7)"
  let ?e = "error_info sample_ext ''reason''"
  obtain hv where hv: "tx_hash_bytes ?x (new_blank 5 7) = Ok hv"
    using tx_hash_bytes_fresh [of "new_blank 5 7"] by (auto simp: new_blank_def tx_default_def struct_metadata_def)
  obtain ds' where ds': "insert_transaction_raw ?x (new_blank 5 7) 1 False (Some ?e) empty_store = (Ok (), ds')"
    using hv by (auto simp: insert_transaction_raw_eq_Ok)
  have "dec_error_info ?x (into_bytes (json_or ?x (json_error_info ?x ?e))) = Inl ''sample''"
    by (simp add: echo_ext_def sample_ext_def)
  from rejection_reason_unreadable [OF empty_store_healthy hv echo_codec this ds'] ds' show ?thesis by blast
qed

subsection \<open>The address index\<close>

lemma tbl_lookup_replace: "tbl_lookup k (tbl_replace k r t) = (tbl_lookup k t)(k r \<mapsto> r)"
proof -
  have "k r \<notin> k ` set (filter (\<lambda>q. k q \<noteq> k r) t)" by auto
  then show ?thesis by (simp add: tbl_replace_def find_snoc_fresh find_delete)
qed

definition indexed :: "data_store \<Rightarrow> bytes \<Rightarrow> bytes \<Rightarrow> address_transaction_row option" where
  "indexed ds a h = tbl_lookup address_transaction_key (ds_address_transaction ds) (a, h)"

definition address_bytes :: "Address list \<Rightarrow> bytes set" where
  "address_bytes as = {bd_value d | a d. a \<in> set as \<and> a_address a = Some d}"

lemma address_bytes_simps [simp]: "address_bytes [] = {}" "address_bytes (remdups as) = address_bytes as"
  by (simp_all add: address_bytes_def)

lemma address_bytes_Cons:
  "a_address a = Some d \<Longrightarrow> address_bytes (a # as) = insert (bd_value d) (address_bytes as)"
  by (auto simp: address_bytes_def)

lemma index_loop:
  assumes "for_each_do (\<lambda>a. insert_address_transaction_single x a h tm b) as ds = (Ok (), ds')"
    and "hash_safe_bytes x h = Ok hv"
  shows "indexed ds' bs hv = (if bs \<in> address_bytes as
     then Some \<lparr> ar_address = bs, ar_tx_hash = hv, ar_time = tm, ar_incoming = b \<rparr> else indexed ds bs hv)"
  using assms
proof (induction as arbitrary: ds)
  case (Cons a as)
  then obtain d where d: "a_address a = Some d"
    "for_each_do (\<lambda>a. insert_address_transaction_single x a h tm b) as
       (ds \<lparr> ds_address_transaction := tbl_replace address_transaction_key
         \<lparr> ar_address = bd_value d, ar_tx_hash = hv, ar_time = tm, ar_incoming = b \<rparr>
         (ds_address_transaction ds) \<rparr>) = (Ok (), ds')"
    by (auto simp: seq_do_eq_Ok insert_address_transaction_single_def result_simps)
  show ?case
    using Cons.IH [OF d(2) Cons.prems(2)]
    by (auto simp: address_bytes_Cons [OF d(1)] indexed_def tbl_lookup_replace address_transaction_key_def)
qed (auto simp: pure_eq)

text \<open>The index keeps one row per address and transaction, and the rows of the inputs are
  written last: after indexing a transaction, an address that signs one of its inputs is
  listed as outgoing even when an output pays it, an address that only receives is listed
  as incoming, and all other rows are unchanged.\<close>

theorem address_index_direction:
  assumes "insert_address_transaction x tx ds = (Ok (), ds')" "tx_hash_bytes x tx = Ok hv"
    and "try_map (input_address x) (t_inputs tx) = Ok ins"
    and "map o_address (t_outputs tx) = map Some outs"
    and "Option.bind (t_struct_metadata tx) sm_time = Some tm"
  shows "indexed ds' bs hv =
     (if bs \<in> address_bytes ins then Some \<lparr> ar_address = bs, ar_tx_hash = hv, ar_time = tm, ar_incoming = False \<rparr>
      else if bs \<in> address_bytes outs then Some \<lparr> ar_address = bs, ar_tx_hash = hv, ar_time = tm, ar_incoming = True \<rparr>
      else indexed ds bs hv)"
proof -
  have h: "hash_safe_bytes x (hash_or x tx) = Ok hv" using assms(2) by (simp add: tx_hash_bytes_def hash_safe_bytes_def)
  have o: "try_map (\<lambda>o1. safe_get_msg x ''No address on output for insert_address_transaction'' (o_address o1))
      (t_outputs tx) = Ok outs"
    using assms(4) by (simp add: result_simps list_all2_conv_all_nth list_eq_iff_nth_eq)
  obtain d where 1: "for_each_do (\<lambda>a. insert_address_transaction_single x a (hash_or x tx) tm True) (remdups outs) ds = (Ok (), d)"
    "for_each_do (\<lambda>a. insert_address_transaction_single x a (hash_or x tx) tm False) (remdups ins) d = (Ok (), ds')"
    using assms(1,3,5) o by (auto simp: insert_address_transaction_def seq_do_eq_Ok pure_eq)
  show ?thesis using index_loop [OF 1(1) h, of bs] index_loop [OF 1(2) h, of bs] by simp
qed

subsection \<open>Balances\<close>

text \<open>Every row decodes to the entry it was made from.\<close>

definition utxo_rows_ok :: "externals \<Rightarrow> data_store \<Rightarrow> bool" where
  "utxo_rows_ok x ds \<longleftrightarrow> (\<forall>r \<in> set (ds_utxo ds). \<exists>u. dec_utxo_entry x (ur_raw r) = Inr u \<and> utxo_row_of x u = Ok r)"

definition row_amount :: "utxo_row \<Rightarrow> i64" where
  "row_amount r = (case ur_amount r of Some v \<Rightarrow> v | None \<Rightarrow> 0)"

lemma utxo_row_amount:
  "utxo_row_of x u = Ok r \<Longrightarrow> Option.bind (ue_output u) opt_amount = ur_amount r"
  by (auto simp: utxo_row_of_def result_simps)

lemma utxo_row_raw: "utxo_row_of x u = Ok r \<Longrightarrow> ur_raw r = enc_utxo_entry x u"
  by (auto simp: utxo_row_of_def result_simps)

lemma utxo_rows_ok_insert:
  assumes "\<forall>u. utxo_codec_law x u"
  shows "preserves (utxo_rows_ok x) (insert_utxo x u)"
  unfolding insert_utxo_def
  by (rule preserves_exec)
     (use assms in \<open>auto simp: utxo_rows_ok_def result_simps tbl_insert_eq_Some utxo_codec_law_def utxo_row_raw\<close>)

lemma balance_fold:
  assumes "list_all2 (\<lambda>r u. utxo_row_of x u = Ok r) rs us"
  shows "foldl (\<lambda>b utxo. case Option.bind (ue_output utxo) opt_amount of Some a \<Rightarrow> b + a | None \<Rightarrow> b) acc us =
     acc + sum_list (map row_amount rs)"
  using assms
proof (induction arbitrary: acc rule: list_all2_induct)
  case (Cons r rs u us)
  then show ?case by (simp add: utxo_row_amount row_amount_def split: option.split)
qed simp

text \<open>C39: The balance of an address is the sum (modulo 2^64, read as a signed number) of the amount
  column over the rows of that address, reported only when positive: decoding the stored
  entries gives the same amounts as the column.\<close>

theorem get_balance_sums_rows:
  assumes "utxo_rows_ok x ds" "ds_fault ds = None" "safe_bytes x (a_address a) = Ok bs"
  shows "get_balance x a ds = Ok (let b = sum_list (map row_amount (filter (\<lambda>r. ur_address r = bs) (ds_utxo ds)))
     in if 0 < sint b then Some b else None)"
proof -
  let ?rs = "filter (\<lambda>r. ur_address r = bs) (ds_utxo ds)"
  have "\<forall>r \<in> set ?rs. \<exists>u. dec_utxo_entry x (ur_raw r) = Inr u \<and> utxo_row_of x u = Ok r"
    using assms(1) by (auto simp: utxo_rows_ok_def)
  then obtain g where g: "\<forall>r \<in> set ?rs. dec_utxo_entry x (ur_raw r) = Inr (g r) \<and> utxo_row_of x (g r) = Ok r"
    by metis
  have "try_map (\<lambda>r. proto_deserialize x (dec_utxo_entry x) (ur_raw r)) ?rs = Ok (map g ?rs)"
    by (rule try_map_Ok_fun) (use g in \<open>simp add: proto_deserialize_def\<close>)
  moreover have "list_all2 (\<lambda>r u. utxo_row_of x u = Ok r) ?rs (map g ?rs)"
    using g by (auto simp: list.rel_map intro!: list.rel_refl_strong)
  ultimately show ?thesis
    using assms(2,3) balance_fold [of x ?rs "map g ?rs" 0]
    by (simp add: get_balance_def query_utxo_address_def Let_def)
qed

theorem get_balance_sums_rows_witness:
  "get_balance (sample_ext \<lparr> dec_utxo_entry := \<lambda>_. Inr (sample_entry_at 0) \<rparr>) sample_address
     (empty_store \<lparr> ds_utxo := [sample_row_at sample_ext 0] \<rparr>) = Ok (Some 5)"
proof -
  let ?x = "sample_ext \<lparr> dec_utxo_entry := \<lambda>_. Inr (sample_entry_at 0) \<rparr>"
  have "sample_row_at ?x 0 = sample_row_at sample_ext 0" by (simp add: sample_row_at_def)
  then have "utxo_rows_ok ?x (empty_store \<lparr> ds_utxo := [sample_row_at sample_ext 0] \<rparr>)"
    using sample_row [of ?x 0] by (simp add: utxo_rows_ok_def)
  from get_balance_sums_rows [OF this, of sample_address "[1, 2, 3]"] show ?thesis
    by (simp add: sample_address_def new_raw_def sample_row_at_def row_amount_def)
qed

definition sample_receipt :: Transaction where
  "sample_receipt = (new_blank 5 7) \<lparr> t_outputs := [output_new sample_address 5] \<rparr>"

theorem address_index_direction_witness:
  "\<exists>hv ds'. insert_address_transaction sample_ext sample_receipt empty_store = (Ok (), ds') \<and>
     indexed ds' [1, 2, 3] hv = Some \<lparr> ar_address = [1, 2, 3], ar_tx_hash = hv, ar_time = 5, ar_incoming = True \<rparr>"
proof -
  have md: "Option.bind (t_struct_metadata sample_receipt) sm_hash = None"
    "Option.bind (t_struct_metadata sample_receipt) sm_time = Some 5" "t_inputs sample_receipt = []"
    "t_outputs sample_receipt = [output_new sample_address 5]"
    by (simp_all add: sample_receipt_def new_blank_def tx_default_def struct_metadata_def)
  obtain hv where hv: "tx_hash_bytes sample_ext sample_receipt = Ok hv" using tx_hash_bytes_fresh [OF md(1)] by blast
  then have h: "hash_safe_bytes sample_ext (hash_or sample_ext sample_receipt) = Ok hv"
    by (simp add: tx_hash_bytes_def hash_safe_bytes_def)
  have a: "safe_bytes sample_ext (a_address sample_address) = Ok [1, 2, 3]"
    by (simp add: sample_address_def new_raw_def)
  obtain ds' where ds': "insert_address_transaction sample_ext sample_receipt empty_store = (Ok (), ds')"
    by (simp add: insert_address_transaction_def md seq_do_eq_Ok pure_eq output_new_sel h a
        insert_address_transaction_single_def exec_eq_Ok)
  have "indexed ds' [1, 2, 3] hv = Some \<lparr> ar_address = [1, 2, 3], ar_tx_hash = hv, ar_time = 5, ar_incoming = True \<rparr>"
    using address_index_direction [OF ds' hv, of "[]" "[sample_address]" 5 "[1, 2, 3]"] md
    by (simp add: output_new_sel address_bytes_def sample_address_def new_raw_def
        bytes_data_def bytes_data_from_def)
  with ds' show ?thesis by blast
qed

end
