(* ===== verification/Observation.thy ===== *)
theory Observation
  imports Tx_Builder Merkle Store
begin

text \<open>
  Observations: \<open>schema/src/observation.rs\<close> (hashing of observation metadata and the
  Merkle proofs of an observation), \<open>data/src/observation_store.rs\<close> and the buffer of
  \<open>src/core/observation.rs\<close> that turns the metadata a node signs into a chain of
  observation transactions, and the handler of \<open>src/core/process_observation.rs\<close>.  Building a Merkle
  proof walks parent links and so may not return; such operations are procedures.
  The node configuration (network, key pair, address) and the outcome of gossiping
  are arguments, and a response channel is a number.
\<close>

section \<open>Observation metadata\<close>

fun om_hash_clear :: "ObservationMetadata \<Rightarrow> ObservationMetadata" where
  "om_hash_clear (ObservationMetadata a b c d e f g) =
     ObservationMetadata a b c d (map_option struct_metadata_hash_clear e) f g"

definition om_calculate_hash :: "externals \<Rightarrow> ObservationMetadata \<Rightarrow> Hash" where
  "om_calculate_hash x m = digest x (enc_observation_metadata x (om_hash_clear m))"

definition om_hash_or :: "externals \<Rightarrow> ObservationMetadata \<Rightarrow> Hash" where
  "om_hash_or x m = (case Option.bind (om_struct_metadata m) sm_hash of
     Some h \<Rightarrow> h | None \<Rightarrow> om_calculate_hash x m)"

definition om_hash_vec :: "externals \<Rightarrow> ObservationMetadata \<Rightarrow> bytes rg_result" where
  "om_hash_vec x m = expect ''hash bytes missing'' (safe_bytes x (h_bytes (om_hash_or x m)))"

definition leafs :: "externals \<Rightarrow> Observation \<Rightarrow> bytes list rg_result" where
  "leafs x ob = try_map (om_hash_vec x) (ob_observations ob)"

definition leafs_hash :: "externals \<Rightarrow> Observation \<Rightarrow> Hash list" where
  "leafs_hash x ob = map (om_hash_or x) (ob_observations ob)"

definition leafs_vec :: "externals \<Rightarrow> Observation \<Rightarrow> bytes list rg_result" where
  "leafs_vec x ob = leafs x ob"

text \<open>Loops whose body may not return.\<close>

fun try_map_opt :: "('a \<Rightarrow> 'b rg_result option) \<Rightarrow> 'a list \<Rightarrow> 'b list rg_result option" where
  "try_map_opt f [] = Some (Ok [])"
| "try_map_opt f (y # ys) = (case f y of
     None \<Rightarrow> None
   | Some (Ok v) \<Rightarrow> map_option (\<lambda>r. and_then r (\<lambda>vs. Ok (v # vs))) (try_map_opt f ys)
   | Some (Err e) \<Rightarrow> Some (Err e)
   | Some (Panic p) \<Rightarrow> Some (Panic p))"

definition observation_proof_of ::
    "externals \<Rightarrow> MerkleTree \<Rightarrow> Hash \<Rightarrow> Proof \<Rightarrow> ObservationMetadata \<Rightarrow> ObservationProof rg_result option" where
  "observation_proof_of x tree obs_tx_hash pf m =
     map_option (\<lambda>r. and_then r (\<lambda>mp. Ok \<lparr> op_observation_hash = Some obs_tx_hash,
       op_merkle_proof = Some mp, op_metadata = Some m, op_proof = Some pf \<rparr>))
     (merkle_tree_proof x tree (om_hash_or x m))"

definition build_observation_proofs ::
    "externals \<Rightarrow> Observation \<Rightarrow> Hash \<Rightarrow> Proof \<Rightarrow> ObservationProof list rg_result option" where
  "build_observation_proofs x ob obs_tx_hash pf =
     (case build_root x (leafs_hash x ob) of
        None \<Rightarrow> None
      | Some r \<Rightarrow> (case expect ''merkle failure'' r of
            Ok tree \<Rightarrow> try_map_opt (observation_proof_of x tree obs_tx_hash pf) (ob_observations ob)
          | Err e \<Rightarrow> Some (Err e)
          | Panic p \<Rightarrow> Some (Panic p)))"

definition tx_build_observation_proofs ::
    "externals \<Rightarrow> Transaction \<Rightarrow> ObservationProof list rg_result option" where
  "tx_build_observation_proofs x t =
     (case and_then (observation_proof x t) (\<lambda>p. and_then (observation x t) (\<lambda>o1. Ok (p, o1))) of
        Ok (p, o1) \<Rightarrow> build_observation_proofs x o1 (hash_or x t) p
      | Err e \<Rightarrow> Some (Err e)
      | Panic m \<Rightarrow> Some (Panic m))"

section \<open>The observation store\<close>

definition count_total_observations :: "externals \<Rightarrow> data_store \<Rightarrow> i64 rg_result" where
  "count_total_observations x ds =
     and_then (pool x ds) (\<lambda>_. safe_get x (get [scast (sql_count (ds_observation ds))] 0))"

definition select_latest_observation ::
    "externals \<Rightarrow> PublicKey \<Rightarrow> data_store \<Rightarrow> Transaction option rg_result" where
  "select_latest_observation x peer_key ds =
     and_then (pool x ds) (\<lambda>_.
     and_then (public_key_bytes x peer_key) (\<lambda>bs.
     and_then (try_map (\<lambda>r. proto_deserialize x (dec_transaction x) (obr_raw r))
       (sql_limit 1 (order_desc obr_height (filter (\<lambda>r. obr_public_key r = bs) (ds_observation ds)))))
     (\<lambda>res. Ok (get res 0))))"

definition get_pk_observations ::
    "externals \<Rightarrow> PublicKey \<Rightarrow> i64 \<Rightarrow> data_store \<Rightarrow> Transaction list rg_result" where
  "get_pk_observations x node_pk limit ds =
     and_then (public_key_bytes x node_pk) (\<lambda>bs.
     and_then (pool x ds) (\<lambda>_.
     try_map (\<lambda>r. proto_deserialize x (dec_transaction x) (obr_raw r))
       (sql_limit limit (order_desc obr_height (filter (\<lambda>r. obr_public_key r = bs) (ds_observation ds))))))"

definition insert_observation ::
    "externals \<Rightarrow> Transaction \<Rightarrow> i64 \<Rightarrow> Hash \<Rightarrow> i64 \<Rightarrow> PublicKey \<Rightarrow> (data_store, unit) action" where
  "insert_observation x observation_tx tm tx_hash hgt public_key = exec (\<lambda>ds.
     and_then (pool x ds) (\<lambda>_.
     and_then (hash_safe_bytes x tx_hash) (\<lambda>hv.
     and_then (safe_bytes x (pk_bytes public_key)) (\<lambda>pk.
     Ok (ds \<lparr> ds_observation := tbl_replace obr_hash
       \<lparr> obr_hash = hv, obr_raw = enc_transaction x observation_tx, obr_public_key = pk,
         obr_time = tm, obr_height = hgt \<rparr> (ds_observation ds) \<rparr>)))))"

definition query_time_observation ::
    "externals \<Rightarrow> i64 \<Rightarrow> i64 \<Rightarrow> data_store \<Rightarrow> ObservationEntry list rg_result" where
  "query_time_observation x start_time end_time ds =
     and_then (pool x ds) (\<lambda>_.
     try_map (\<lambda>r. and_then (proto_deserialize x (dec_transaction x) (obr_raw r)) (\<lambda>t.
         Ok \<lparr> oen_time = obr_time r, oen_observation = Some t \<rparr>))
       (filter (\<lambda>r. sint start_time \<le> sint (obr_time r) \<and> sint (obr_time r) \<le> sint end_time) (ds_observation ds)))"

definition query_observation :: "externals \<Rightarrow> Hash \<Rightarrow> data_store \<Rightarrow> Transaction option rg_result" where
  "query_observation x h ds =
     and_then (hash_safe_bytes x h) (\<lambda>hv.
     and_then (pool x ds) (\<lambda>_.
     case find (\<lambda>r. obr_hash r = hv) (ds_observation ds) of
       None \<Rightarrow> Ok None
     | Some r \<Rightarrow> and_then (proto_deserialize x (dec_transaction x) (obr_raw r)) (\<lambda>t. Ok (Some t))))"

definition recent_observation :: "externals \<Rightarrow> i64 option \<Rightarrow> data_store \<Rightarrow> Transaction list rg_result" where
  "recent_observation x limit ds =
     (let n = (case limit of Some l \<Rightarrow> l | None \<Rightarrow> 10) in
      and_then (pool x ds) (\<lambda>_.
      try_map (\<lambda>r. proto_deserialize x (dec_transaction x) (obr_raw r))
        (sql_limit n (order_desc obr_height (ds_observation ds)))))"

definition query_time_observation_edge ::
    "externals \<Rightarrow> i64 \<Rightarrow> i64 \<Rightarrow> data_store \<Rightarrow> ObservationEdge list rg_result" where
  "query_time_observation_edge x start end' ds =
     and_then (pool x ds) (\<lambda>_.
     try_map (\<lambda>r. and_then (proto_deserialize x (dec_observation_proof x) (oer_edge r)) (\<lambda>p.
         Ok \<lparr> oe_observation_proof = Some p, oe_time = oer_time r \<rparr>))
       (filter (\<lambda>r. sint start \<le> sint (oer_time r) \<and> sint (oer_time r) \<le> sint end') (ds_observation_edge ds)))"

definition select_observation_edge ::
    "externals \<Rightarrow> Hash \<Rightarrow> data_store \<Rightarrow> ObservationProof list rg_result" where
  "select_observation_edge x observed_hash ds =
     and_then (pool x ds) (\<lambda>_.
     and_then (hash_safe_bytes x observed_hash) (\<lambda>bs.
     try_map (\<lambda>r. proto_deserialize x (dec_observation_proof x) (oer_edge r))
       (filter (\<lambda>r. oer_observed_hash r = bs) (ds_observation_edge ds))))"

text \<open>The time written is the current time \<open>now\<close>, not the time of the edge.\<close>

definition insert_observation_edge ::
    "externals \<Rightarrow> i64 \<Rightarrow> ObservationEdge \<Rightarrow> (data_store, unit) action" where
  "insert_observation_edge x now observation_edge = exec (\<lambda>ds.
     and_then (pool x ds) (\<lambda>_.
     and_then (safe_get x (oe_observation_proof observation_edge)) (\<lambda>pf.
     let merkle = op_merkle_proof pf in
     and_then (safe_get x (Option.bind merkle mp_root)) (\<lambda>rt.
     and_then (hash_safe_bytes x rt) (\<lambda>root.
     and_then (opt_hash_safe_bytes x (Option.bind merkle mp_leaf)) (\<lambda>leaf_hash.
     and_then (opt_hash_safe_bytes x (op_observation_hash pf)) (\<lambda>obs_hash.
     and_then (safe_get x (op_metadata pf)) (\<lambda>m.
     and_then (opt_hash_safe_bytes x (om_observed_hash m)) (\<lambda>observed_hash.
     Ok (ds \<lparr> ds_observation_edge := tbl_replace observation_edge_key
       \<lparr> oer_root = root, oer_leaf_hash = leaf_hash, oer_observation_hash = obs_hash,
         oer_observed_hash = observed_hash, oer_edge = enc_observation_proof x pf, oer_time = now \<rparr>
       (ds_observation_edge ds) \<rparr>))))))))))"

definition observation_edge_at :: "i64 \<Rightarrow> ObservationProof \<Rightarrow> ObservationEdge" where
  "observation_edge_at tm pf = \<lparr> oe_observation_proof = Some pf, oe_time = tm \<rparr>"

definition insert_observation_and_edges ::
    "externals \<Rightarrow> i64 \<Rightarrow> Transaction \<Rightarrow> (data_store, unit) proc" where
  "insert_observation_and_edges x now tx =
     then_do (try_do (time x tx)) (\<lambda>tm.
     then_do (try_do (height x tx)) (\<lambda>hgt.
     then_do (try_do (observation x tx)) (\<lambda>ob.
     then_do (try_do (safe_get_msg x ''Missing parent id'' (ob_parent_id ob))) (\<lambda>utxo_id.
     then_do (try_do (safe_get_msg x ''Missing input'' (input_of utxo_id tx))) (\<lambda>input.
     then_do (try_do (safe_get_msg x ''Missing input proof'' (get (i_proof input) 0))) (\<lambda>input_proof.
     then_do (try_do (safe_get_msg x ''Missing public key'' (pr_public_key input_proof))) (\<lambda>pk.
     then_do (lift_do (insert_observation x tx tm (hash_or x tx) hgt pk)) (\<lambda>_.
     then_do (calc_do (build_observation_proofs x ob (hash_or x tx) input_proof)) (\<lambda>proofs.
     lift_do (for_each_do (\<lambda>pf. insert_observation_edge x now (observation_edge_at tm pf)) proofs))))))))))"

section \<open>The observation buffer\<close>

text \<open>What the buffer reads of the node: its configuration, and the outcome of sends and gossip.\<close>

record node_setup =
  nd_network :: NetworkEnvironment
  nd_public_key :: PublicKey
  nd_key_pair :: "KeyPair rg_result"
  nd_address :: Address
  nd_short_id :: "string rg_result"
  nd_send :: "nat \<Rightarrow> string + unit"
  nd_gossip :: "Transaction \<Rightarrow> unit rg_result"

record observation_buffer =
  bf_data :: "ObservationMetadata list"
  bf_latest :: Transaction
  bf_ancestors :: "Hash list"
  bf_subscribers :: "Hash \<rightharpoonup> nat"
  bf_ds :: data_store
  bf_sent :: "(nat \<times> ObservationProof) list"

definition ANCESTOR_MERKLE_ROOT_LENGTH :: nat where
  "ANCESTOR_MERKLE_ROOT_LENGTH = 1000"

definition on_ds :: "(data_store, 'a) proc \<Rightarrow> (observation_buffer, 'a) proc" where
  "on_ds m b = map_option (\<lambda>(r, ds). (r, b \<lparr> bf_ds := ds \<rparr>)) (m (bf_ds b))"

definition send_err :: "externals \<Rightarrow> node_setup \<Rightarrow> nat \<Rightarrow> ObservationProof \<Rightarrow> (observation_buffer, unit) proc" where
  "send_err x nd ch v b = (case lib_result (error_message x InternalChannelReceiveError) (nd_send nd ch) of
     Ok _ \<Rightarrow> Some (Ok (), b \<lparr> bf_sent := bf_sent b @ [(ch, v)] \<rparr>)
   | Err e \<Rightarrow> Some (Err e, b)
   | Panic p \<Rightarrow> Some (Panic p, b))"

definition process_incoming :: "ObservationMetadata \<Rightarrow> nat \<Rightarrow> observation_buffer \<Rightarrow> observation_buffer" where
  "process_incoming m sender b = (case om_observed_hash m of
     Some h \<Rightarrow> b \<lparr> bf_subscribers := (bf_subscribers b)(h \<mapsto> sender), bf_data := bf_data b @ [m] \<rparr>
   | None \<Rightarrow> b)"

text \<open>The root over the ancestors, once there are enough of them; they are then forgotten.\<close>

definition take_ancestor_root :: "externals \<Rightarrow> (observation_buffer, Hash option) proc" where
  "take_ancestor_root x =
     then_do (read_do bf_ancestors) (\<lambda>as.
     if length as = ANCESTOR_MERKLE_ROOT_LENGTH then
       then_do (calc_do (build_root x as)) (\<lambda>tree.
       then_do (modify_do (\<lambda>b. b \<lparr> bf_ancestors := [] \<rparr>)) (\<lambda>_. try_do (Ok (Some (mt_root tree)))))
     else try_do (Ok None))"

definition observation_tx ::
    "externals \<Rightarrow> node_setup \<Rightarrow> i64 \<Rightarrow> i64 \<Rightarrow> Observation \<Rightarrow> i64 \<Rightarrow> UtxoEntry \<Rightarrow> Transaction rg_result" where
  "observation_tx x nd now rnd ob hgt utxo_e =
     (let tx_b = with_input (to_input utxo_e)
                   (with_observation ob hgt (nd_address nd) (builder_new now rnd (nd_network nd)))
      in and_then (nd_key_pair nd) (\<lambda>kp. sign x kp (tb_transaction tx_b)))"

definition form_observation ::
    "externals \<Rightarrow> node_setup \<Rightarrow> i64 \<Rightarrow> i64 \<Rightarrow> (observation_buffer, ObservationProof list) proc" where
  "form_observation x nd now rnd =
     then_do (read_do bf_data) (\<lambda>observations.
     if observations = [] then try_do (Ok []) else
     then_do (modify_do (\<lambda>b. b \<lparr> bf_data := [] \<rparr>)) (\<lambda>_.
     then_do (calc_do (build_root x (map (om_hash_or x) observations))) (\<lambda>tree.
     then_do (try_do (hash_safe_bytes x (mt_root tree))) (\<lambda>_.
     then_do (read_do bf_latest) (\<lambda>latest.
     then_do (try_do (expect ''Missing height on internal observation'' (height x latest))) (\<lambda>h0.
     then_do (try_do (observation_as_utxo_id x latest)) (\<lambda>utxo_id.
     then_do (take_ancestor_root x) (\<lambda>ancestor_root.
     let ob = Observation (Some (mt_root tree)) observations (Some utxo_id)
                (case ancestor_root of None \<Rightarrow> [] | Some r \<Rightarrow> [r]) in
     then_do (try_do (observation_output_as x latest)) (\<lambda>utxo_e.
     then_do (try_do (observation_tx x nd now rnd ob (h0 + 1) utxo_e)) (\<lambda>signed_tx.
     then_do (on_ds (insert_observation_and_edges x now signed_tx)) (\<lambda>_.
     then_do (read_do bf_ds) (\<lambda>ds.
     then_do (try_do (query_observation x (hash_or x signed_tx) ds)) (\<lambda>stored.
     then_do (try_do (if stored = None then Panic ''assertion failed'' else Ok ())) (\<lambda>_.
     then_do (modify_do (\<lambda>b. b \<lparr> bf_latest := signed_tx, bf_ancestors := bf_ancestors b @ [hash_or x signed_tx] \<rparr>)) (\<lambda>_.
     then_do (try_do (observation_proof x signed_tx)) (\<lambda>pf.
     then_do (calc_do (build_observation_proofs x ob (hash_or x signed_tx) pf)) (\<lambda>proofs.
     then_do (try_do (nd_gossip nd signed_tx)) (\<lambda>_.
     then_do (try_do (nd_short_id nd)) (\<lambda>_.
     then_do (try_do (json x (json_observation x ob))) (\<lambda>_.
     try_do (Ok proofs)))))))))))))))))))))"

fun respond_all :: "externals \<Rightarrow> node_setup \<Rightarrow> ObservationProof list \<Rightarrow> (observation_buffer, unit) proc" where
  "respond_all x nd [] = try_do (Ok ())"
| "respond_all x nd (p # ps) =
     then_do (read_do (\<lambda>b. Option.bind (Option.bind (op_metadata p) om_observed_hash) (bf_subscribers b))) (\<lambda>s.
     then_do (case s of None \<Rightarrow> try_do (Ok ()) | Some ch \<Rightarrow> send_err x nd ch p) (\<lambda>_.
     respond_all x nd ps))"

definition form_and_respond :: "externals \<Rightarrow> node_setup \<Rightarrow> i64 \<Rightarrow> i64 \<Rightarrow> (observation_buffer, unit) proc" where
  "form_and_respond x nd now rnd = then_do (form_observation x nd now rnd) (respond_all x nd)"

text \<open>A message of the merged stream: metadata to sign with its response channel, or a tick.\<close>

datatype buffer_message = Incoming ObservationMetadata nat | Tick i64 i64

fun handle_message :: "externals \<Rightarrow> node_setup \<Rightarrow> buffer_message \<Rightarrow> (observation_buffer, unit) proc" where
  "handle_message x nd (Incoming m ch) = modify_do (process_incoming m ch)"
| "handle_message x nd (Tick now rnd) = form_and_respond x nd now rnd"

fun buffer_run :: "externals \<Rightarrow> node_setup \<Rightarrow> buffer_message list \<Rightarrow> (observation_buffer, unit) proc" where
  "buffer_run x nd [] = try_do (Ok ())"
| "buffer_run x nd (m # ms) = then_do (handle_message x nd m) (\<lambda>_. buffer_run x nd ms)"

definition observation_default :: Observation where
  "observation_default = Observation None [] None []"

definition initial_latest :: "externals \<Rightarrow> node_setup \<Rightarrow> i64 \<Rightarrow> i64 \<Rightarrow> data_store \<Rightarrow> Transaction rg_result" where
  "initial_latest x nd now rnd ds =
     and_then (expect ''Error loading observation initial''
       (select_latest_observation x (nd_public_key nd) ds)) (\<lambda>found.
     case found of
       Some tx \<Rightarrow> Ok tx
     | None \<Rightarrow>
         and_then (expect ''address'' (public_key_address x (nd_public_key nd))) (\<lambda>address.
         let b = with_observation observation_default 0 address
                   (with_genesis_input address (builder_new now rnd (nd_network nd))) in
         and_then (expect ''kp'' (nd_key_pair nd)) (\<lambda>kp.
         expect ''sign'' (sign x kp (tb_transaction b)))))"

text \<open>The remainder of signed division, which truncates towards zero.\<close>

definition rem_i64 :: "i64 \<Rightarrow> int \<Rightarrow> i64" where
  "rem_i64 a m = word_of_int (sgn (sint a) * (\<bar>sint a\<bar> mod m))"

definition buffer_new :: "externals \<Rightarrow> node_setup \<Rightarrow> i64 \<Rightarrow> i64 \<Rightarrow> data_store \<Rightarrow> observation_buffer rg_result" where
  "buffer_new x nd now rnd ds =
     and_then (initial_latest x nd now rnd ds) (\<lambda>latest.
     and_then (expect ''h'' (height x latest)) (\<lambda>cur_height.
     let ancestor_cutoff = cur_height - rem_i64 cur_height 1000 in
     and_then (expect ''Error loading observation initial'' (recent_observation x (Some 1000) ds)) (\<lambda>recent.
     and_then (try_map (\<lambda>t. and_then (expect ''h'' (height x t)) (\<lambda>h. Ok (h, hash_or x t))) recent) (\<lambda>hs.
     Ok \<lparr> bf_data = [], bf_latest = latest,
          bf_ancestors = map snd (filter (\<lambda>(h, _). sint ancestor_cutoff \<le> sint h) hs),
          bf_subscribers = Map.empty, bf_ds = ds, bf_sent = [] \<rparr>))))"

section \<open>Observations received from peers\<close>

text \<open>\<open>registered\<close> tells which transactions have a processor; the result lists what each is sent.\<close>

definition notify_subscribers ::
    "externals \<Rightarrow> (Hash \<Rightarrow> bool) \<Rightarrow> Transaction \<Rightarrow> (Hash \<times> ObservationProof) list rg_result option" where
  "notify_subscribers x registered o1 = (case tx_build_observation_proofs x o1 of
     None \<Rightarrow> None
   | Some (Ok proofs) \<Rightarrow> Some (Ok (List.map_filter (\<lambda>p.
       case Option.bind (op_metadata p) om_observed_hash of
         None \<Rightarrow> None
       | Some h \<Rightarrow> if h_hash_type h = hash_type_i32 HT_Transaction \<and> registered h then Some (h, p) else None) proofs))
   | Some (Err _) \<Rightarrow> Some (Ok [])
   | Some (Panic m) \<Rightarrow> Some (Panic m))"

definition process_observation ::
    "externals \<Rightarrow> i64 \<Rightarrow> (Hash \<Rightarrow> bool) \<Rightarrow> Transaction \<Rightarrow> (data_store, (Hash \<times> ObservationProof) list) proc" where
  "process_observation x now registered o1 =
     then_do (calc_do (notify_subscribers x registered o1)) (\<lambda>msgs.
     then_do (insert_observation_and_edges x now o1) (\<lambda>_. try_do (Ok msgs)))"

section \<open>Facts\<close>

lemma insert_observation_wf [preserves_rules]:
  "preserves store_wf (insert_observation x t tm h hgt pk)"
  unfolding insert_observation_def
  by (rule preserves_exec) (auto simp: store_wf_def result_simps)

lemma insert_observation_edge_wf [preserves_rules]:
  "preserves store_wf (insert_observation_edge x now e)"
  unfolding insert_observation_edge_def
  by (rule preserves_exec) (auto simp: store_wf_def result_simps Let_def)

lemma try_map_opt_Ok:
  assumes "\<And>y. y \<in> set ys \<Longrightarrow> \<exists>v. f y = Some (Ok v) \<and> P y v"
  shows "\<exists>vs. try_map_opt f ys = Some (Ok vs) \<and> list_all2 P ys vs"
  using assms
proof (induction ys)
  case (Cons y ys)
  then obtain v vs where "f y = Some (Ok v)" "P y v" "try_map_opt f ys = Some (Ok vs)" "list_all2 P ys vs"
    by (metis list.set_intros(1) list.set_intros(2))
  then show ?case by simp
qed simp

text \<open>What a proof of an observation attests.\<close>

definition proves :: "externals \<Rightarrow> MerkleTree \<Rightarrow> Hash \<Rightarrow> Proof \<Rightarrow> ObservationMetadata \<Rightarrow> ObservationProof \<Rightarrow> bool" where
  "proves x tree h pf m p \<longleftrightarrow> op_observation_hash p = Some h \<and> op_metadata p = Some m \<and> op_proof p = Some pf \<and>
     (\<exists>mp. op_merkle_proof p = Some mp \<and> verify x mp = Ok () \<and> mp_nodes mp \<noteq> [] \<and>
        mp_leaf mp = Some (om_hash_or x m) \<and> mp_root mp = Some (mt_root tree))"

lemma build_observation_proofs_Ok:
  assumes "ob_observations ob \<noteq> []" "\<forall>m \<in> set (ob_observations ob). has_bytes (om_hash_or x m)"
    and "build_root x (leafs_hash x ob) = Some (Ok tree)" "root_fresh tree"
  shows "\<exists>ps. build_observation_proofs x ob h pf = Some (Ok ps) \<and>
     list_all2 (proves x tree h pf) (ob_observations ob) ps"
proof -
  have hb: "\<forall>g \<in> set (leafs_hash x ob). has_bytes g" using assms(2) by (simp add: leafs_hash_def)
  have "\<exists>v. observation_proof_of x tree h pf m = Some (Ok v) \<and> proves x tree h pf m v"
    if "m \<in> set (ob_observations ob)" for m
  proof -
    have "om_hash_or x m \<in> set (leafs_hash x ob)" using that by (simp add: leafs_hash_def)
    from merkle_proof_of_leaf [OF assms(3) hb this assms(4)] show ?thesis
      by (auto simp: observation_proof_of_def proves_def)
  qed
  from try_map_opt_Ok [OF this] show ?thesis
    using assms(3) by (simp add: build_observation_proofs_def expect_def)
qed

text \<open>C26: The proofs a node hands out for an observation are complete and verify: when every
  metadata entry has a hash with bytes and the root does not collide with a node below it,
  building the proofs returns one proof per entry, in order, each carrying its entry, the
  observation's hash and signature, and a non-empty Merkle proof from the entry's hash to
  the common root that verification accepts.\<close>

theorem observation_proofs_verify:
  assumes "ob_observations ob \<noteq> []" "\<forall>m \<in> set (ob_observations ob). has_bytes (om_hash_or x m)"
    and "build_root x (leafs_hash x ob) = Some (Ok tree)" "root_fresh tree"
  shows "\<exists>ps. build_observation_proofs x ob h pf = Some (Ok ps) \<and>
     list_all2 (proves x tree h pf) (ob_observations ob) ps"
  by (rule build_observation_proofs_Ok [OF assms])

text \<open>A received observation without entries stops the handler: with every other field in
  place, building its proofs panics, and storing it panics after the observation row has
  been written, so one message of a peer is enough to kill the task.\<close>

theorem empty_observation_panics:
  assumes "observation x t = Ok ob" "ob_observations ob = []" "observation_proof x t = Ok pf"
    and "pr_public_key pf = Some pk" "safe_bytes x (pk_bytes pk) = Ok pb"
    and "time x t = Ok tm" "height x t = Ok hgt" "hash_safe_bytes x (hash_or x t) = Ok hv" "ds_fault ds = None"
  shows "process_observation x now reg t ds = Some (Panic ''merkle failure'', ds) \<and>
     (\<exists>ds'. insert_observation_and_edges x now t ds = Some (Panic ''merkle failure'', ds') \<and>
        hv \<in> obr_hash ` set (ds_observation ds'))"
proof -
  have b: "build_observation_proofs x ob h p = Some (Panic ''merkle failure'')" for h p
    using assms(2) by (simp add: build_observation_proofs_def leafs_hash_def build_root_def expect_def)
  have n: "notify_subscribers x reg t = Some (Panic ''merkle failure'')"
    using assms(1,3) b by (simp add: notify_subscribers_def tx_build_observation_proofs_def)
  obtain u inp where u: "ob_parent_id ob = Some u" "input_of u t = Some inp" "i_proof inp \<noteq> []" "i_proof inp ! 0 = pf"
    using assms(1,3) by (auto simp: observation_proof_def result_simps)
  have g: "get (i_proof inp) 0 = Some pf" using u by simp
  obtain ds' where w: "insert_observation x t tm (hash_or x t) hgt pk ds = (Ok (), ds')" "hv \<in> obr_hash ` set (ds_observation ds')"
    using assms by (auto simp: insert_observation_def exec_def tbl_replace_def pool_def map_err_sqlx_def)
  have s: "insert_observation_and_edges x now t ds = Some (Panic ''merkle failure'', ds')"
    using assms(1,4,6,7) b u(1,2) w(1) unfolding insert_observation_and_edges_def
    by (simp add: g then_do_def try_do_def calc_do_def lift_do_def del: get_eq_Some)
  show ?thesis
    using n s w(2) by (simp add: process_observation_def then_do_def calc_do_def)
qed

section \<open>Forming an observation\<close>

lemma output_observation_of [simp]:
  "output_observation x ((output_from_data (standard_data_observation ob)) \<lparr> o_address := a \<rparr>) = Ok ob"
  by (simp add: output_observation_def output_from_data_def standard_data_observation_def output_default_def
      standard_data_default_def)

lemma sd_height_set [simp]: "sd_height (set_sd_height v d) = v"
  by (cases d) simp

lemma signable_hash_signed: "t_struct_metadata t = Some m \<Longrightarrow> signable_hash x (signed_tx x addr p m t) = signable_hash x t"
  by (intro signable_hash_cong)
    (simp add: signed_content_def signed_tx_def Let_def comp_def struct_metadata_hash_clear_def)

lemma observation_tx_Ok:
  assumes law: "secp_law x (kp_secret_key kp) (kp_public_key kp)" and kp: "nd_key_pair nd = Ok kp"
    and addr: "key_pair_address_typed x kp = Ok addr"
    and ue: "ue_utxo_id ue = Some u" "ue_output ue = Some o1" "o_address o1 = Some addr"
    and parent: "ob_parent_id ob = Some u"
  shows "\<exists>t p pk. observation_tx x nd now rnd ob h ue = Ok t \<and> observation x t = Ok ob \<and> height x t = Ok h \<and>
     time x t = Ok now \<and> observation_proof x t = Ok p \<and> pr_public_key p = Some pk \<and>
     (\<exists>pb. safe_bytes x (pk_bytes pk) = Ok pb) \<and> (\<exists>hb. hash_or x t = digest x hb) \<and>
     proof_verify x (signable_hash x t) p = Ok () \<and> proof_public_key_bytes x p = Ok (key_pair_public_key_vec x kp)"
proof -
  define t0 where "t0 = tb_transaction (with_input (to_input ue)
      (with_observation ob h (nd_address nd) (builder_new now rnd (nd_network nd))))"
  have t0: "t_inputs t0 = [to_input ue]" "t_struct_metadata t0 = struct_metadata now"
    "t_outputs t0 = [(output_from_data (standard_data_observation ob)) \<lparr> o_address := Some (nd_address nd) \<rparr>]"
    "height x t0 = Ok h"
    by (simp_all add: t0_def with_input_def push_input_def with_observation_def Let_def push_output_def
        with_options_height_def set_opts_def builder_new_def with_network_def new_blank_def tx_default_def height_def)
  define m where "m = the (struct_metadata now)"
  have m: "struct_metadata now = Some m" "sm_time m = Some now" by (simp_all add: m_def struct_metadata_def)
  have "\<exists>i \<in> set (t_inputs t0). pays_to addr i"
    using ue by (simp add: t0 to_input_def pays_to_def)
  moreover have "\<forall>i \<in> set (t_inputs t0). \<exists>o1 a. i_output i = Some o1 \<and> o_address o1 = Some a"
    using ue by (simp add: t0 to_input_def)
  ultimately obtain p where p: "sign x kp t0 = Ok (signed_tx x addr p m t0)"
    "proof_public_key_bytes x p = Ok (key_pair_public_key_vec x kp)" "proof_verify x (signable_hash x t0) p = Ok ()"
    using sign_Ok [OF law _ _ addr, of t0 m] m(1) t0(2) by metis
  let ?t = "signed_tx x addr p m t0"
  have ob: "observation x ?t = Ok ob"
    by (simp add: observation_def t0 List.map_filter_simps)
  have inp: "input_of u ?t = Some (signed_by addr p (to_input ue))"
    using ue by (simp add: input_of_def t0 signed_by_def to_input_def)
  have pf: "i_proof (signed_by addr p (to_input ue)) = [p]"
    using ue by (simp add: signed_by_def to_input_def input_default_def)
  have "observation_proof x ?t = Ok p"
    by (simp add: observation_proof_def ob parent inp pf get_def)
  moreover obtain pk where "pr_public_key p = Some pk" "\<exists>pb. safe_bytes x (pk_bytes pk) = Ok pb"
    using p(2) by (auto simp: proof_public_key_bytes_def result_simps)
  moreover have "height x ?t = Ok h" using t0(4) by (simp add: height_def)
  moreover have "time x ?t = Ok now" using m(2) by (simp add: time_def signed_tx_def Let_def)
  moreover have "\<exists>hb. hash_or x ?t = digest x hb"
    by (auto simp: hash_or_def signed_tx_def Let_def calculate_hash_def)
  moreover have "signable_hash x ?t = signable_hash x t0"
    by (rule signable_hash_signed) (simp add: t0(2) m(1))
  moreover have "observation_tx x nd now rnd ob h ue = Ok ?t"
    using p(1) by (simp add: observation_tx_def kp t0_def)
  ultimately show ?thesis using ob p(2,3) by metis
qed

lemma hash_safe_bytes_vb: "has_bytes g \<Longrightarrow> hash_safe_bytes x g = Ok (vb g)"
  by (auto simp: has_bytes_def vb_def hash_safe_bytes_def safe_bytes_def)

lemma insert_observation_edges_Ok:
  assumes "ds_fault ds = None" "list_all2 (proves x tree h p) ms ps" "has_bytes h" "has_bytes (mt_root tree)"
    and "\<forall>m \<in> set ms. has_bytes (om_hash_or x m) \<and> (\<exists>g. om_observed_hash m = Some g \<and> has_bytes g)"
  shows "\<exists>ds'. for_each_do (\<lambda>pf. insert_observation_edge x now (observation_edge_at tm pf)) ps ds = (Ok (), ds') \<and>
     ds_fault ds' = None \<and> ds_observation ds' = ds_observation ds"
  using assms(2,1,5)
proof (induction arbitrary: ds rule: list_all2_induct)
  case (Cons m ms q qs)
  obtain mp where mp: "op_observation_hash q = Some h" "op_metadata q = Some m" "op_merkle_proof q = Some mp"
    "mp_leaf mp = Some (om_hash_or x m)" "mp_root mp = Some (mt_root tree)"
    using Cons.hyps by (auto simp: proves_def)
  obtain g where g: "om_observed_hash m = Some g" "has_bytes g" "has_bytes (om_hash_or x m)" using Cons.prems by auto
  obtain ds1 where "insert_observation_edge x now (observation_edge_at tm q) ds = (Ok (), ds1)"
    "ds_fault ds1 = None" "ds_observation ds1 = ds_observation ds"
    using Cons.prems(1) mp g assms(3,4)
    by (simp add: insert_observation_edge_def exec_def observation_edge_at_def pool_def map_err_sqlx_def
        opt_hash_safe_bytes_def Let_def hash_safe_bytes_vb)
  moreover from Cons.IH [of ds1] calculation Cons.prems(2) obtain ds2 where
    "for_each_do (\<lambda>pf. insert_observation_edge x now (observation_edge_at tm pf)) qs ds1 = (Ok (), ds2)"
    "ds_fault ds2 = None" "ds_observation ds2 = ds_observation ds1" by auto
  ultimately show ?case by (simp add: seq_do_def)
qed (simp add: pure_def)

lemma insert_observation_Ok:
  assumes "ds_fault ds = None" "has_bytes h" "safe_bytes x (pk_bytes pk) = Ok pb"
  shows "\<exists>ds'. insert_observation x t tm h hgt pk ds = (Ok (), ds') \<and> ds_fault ds' = None \<and>
     find (\<lambda>r. obr_hash r = vb h) (ds_observation ds') =
       Some \<lparr> obr_hash = vb h, obr_raw = enc_transaction x t, obr_public_key = pb, obr_time = tm, obr_height = hgt \<rparr>"
proof -
  let ?r = "\<lparr> obr_hash = vb h, obr_raw = enc_transaction x t, obr_public_key = pb, obr_time = tm, obr_height = hgt \<rparr>"
  have "find (\<lambda>r. obr_hash r = vb h) (tbl_replace obr_hash ?r (ds_observation ds)) = Some ?r"
    using fun_cong [OF tbl_lookup_replace [of obr_hash ?r "ds_observation ds"], of "vb h"] by (simp add: tbl_lookup_def)
  with assms show ?thesis
    by (simp add: insert_observation_def exec_def pool_def map_err_sqlx_def hash_safe_bytes_vb)
qed

lemma insert_observation_and_edges_Ok:
  assumes "ds_fault ds = None" "time x t = Ok tm" "height x t = Ok hgt" "observation x t = Ok ob"
    and "observation_proof x t = Ok p" "pr_public_key p = Some pk" "safe_bytes x (pk_bytes pk) = Ok pb"
    and "has_bytes (hash_or x t)" "has_bytes (mt_root tree)"
    and "build_observation_proofs x ob (hash_or x t) p = Some (Ok ps)"
    and "list_all2 (proves x tree (hash_or x t) p) (ob_observations ob) ps"
    and "\<forall>m \<in> set (ob_observations ob). has_bytes (om_hash_or x m) \<and> (\<exists>g. om_observed_hash m = Some g \<and> has_bytes g)"
    and "dec_transaction x (enc_transaction x t) = Inr t'"
  shows "\<exists>ds'. insert_observation_and_edges x now t ds = Some (Ok (), ds') \<and>
     query_observation x (hash_or x t) ds' = Ok (Some t')"
proof -
  obtain u inp where u: "ob_parent_id ob = Some u" "input_of u t = Some inp" "i_proof inp \<noteq> []" "i_proof inp ! 0 = p"
    using assms(4,5) by (auto simp: observation_proof_def result_simps)
  have g: "get (i_proof inp) 0 = Some p" using u by simp
  obtain ds1 where ds1: "insert_observation x t tm (hash_or x t) hgt pk ds = (Ok (), ds1)" "ds_fault ds1 = None"
    "find (\<lambda>r. obr_hash r = vb (hash_or x t)) (ds_observation ds1) = Some \<lparr> obr_hash = vb (hash_or x t),
      obr_raw = enc_transaction x t, obr_public_key = pb, obr_time = tm, obr_height = hgt \<rparr>"
    using insert_observation_Ok [OF assms(1,8,7), of t tm hgt] by blast
  obtain ds2 where ds2: "for_each_do (\<lambda>pf. insert_observation_edge x now (observation_edge_at tm pf)) ps ds1 = (Ok (), ds2)"
    "ds_fault ds2 = None" "ds_observation ds2 = ds_observation ds1"
    using insert_observation_edges_Ok [OF ds1(2) assms(11,8,9,12)] by blast
  have "insert_observation_and_edges x now t ds = Some (Ok (), ds2)"
    using assms(2,3,4,6,10) u(1,2) g ds1(1) ds2(1) unfolding insert_observation_and_edges_def
    by (simp add: then_do_def try_do_def calc_do_def lift_do_def del: get_eq_Some)
  moreover have "query_observation x (hash_or x t) ds2 = Ok (Some t')"
    using ds1(3) ds2(2,3) assms(8,13)
    by (simp add: query_observation_def hash_safe_bytes_vb pool_def map_err_sqlx_def proto_deserialize_def)
  ultimately show ?thesis by blast
qed

lemma observation_output_as_Ok:
  assumes "observation_output_as x t = Ok ue"
  shows "observation_as_utxo_id x t = Ok (the (ue_utxo_id ue)) \<and> ue_utxo_id ue \<noteq> None"
  using assms by (auto simp: observation_output_as_def observation_as_utxo_id_def result_simps
      output_utxo_entry_def from_output_new_def utxo_id_new_def)

lemma take_ancestor_root_Ok:
  assumes "bf_ancestors b = as" "if length as = ANCESTOR_MERKLE_ROOT_LENGTH
      then \<exists>at. build_root x as = Some (Ok at) \<and> roots = [mt_root at] else roots = []"
  shows "\<exists>r. take_ancestor_root x b = Some (Ok r, b \<lparr> bf_ancestors := if length as = ANCESTOR_MERKLE_ROOT_LENGTH then [] else as \<rparr>) \<and>
     (case r of None \<Rightarrow> [] | Some g \<Rightarrow> [g]) = roots"
  using assms unfolding take_ancestor_root_def
  by (auto simp: then_do_def read_do_def calc_do_def modify_do_def try_do_def split: if_splits)

text \<open>C10: Forming an observation extends the node's chain.  With buffered metadata that carry
  hashes, a latest observation whose output pays to the node's key, a working store, a codec
  that inverts on the transaction that is formed, successful gossip, and with the root above
  its leaves, the buffer is emptied into one observation transaction that lists exactly the
  buffered metadata in order, names the previous observation's output as its parent, has the
  next height, carries a proof under the node's key that verifies over its signed hash, is
  read back from the store under its hash as it was formed, and becomes the latest one.  The
  proofs returned attest the buffered metadata.  Its hash is appended to the ancestors; when
  these had reached a thousand they are first replaced by the root of their tree, which the
  observation then carries.\<close>

theorem form_observation_extends_chain:
  assumes law: "secp_law x (kp_secret_key kp) (kp_public_key kp)" and kp: "nd_key_pair nd = Ok kp"
    and addr: "key_pair_address_typed x kp = Ok addr"
    and latest: "height x (bf_latest b) = Ok h" "observation_output_as x (bf_latest b) = Ok ue"
    and pays: "ue_output ue = Some o1" "o_address o1 = Some addr"
    and data: "bf_data b \<noteq> []" "\<forall>m \<in> set (bf_data b). has_bytes (om_hash_or x m) \<and>
        (\<exists>g. om_observed_hash m = Some g \<and> has_bytes g)"
    and tree: "build_root x (map (om_hash_or x) (bf_data b)) = Some (Ok tree)" "root_fresh tree"
    and anc: "if length (bf_ancestors b) = ANCESTOR_MERKLE_ROOT_LENGTH
        then \<exists>at. build_root x (bf_ancestors b) = Some (Ok at) \<and> roots = [mt_root at] else roots = []"
    and ds: "ds_fault (bf_ds b) = None"
    and codec: "\<And>t. observation_tx x nd now rnd (Observation (Some (mt_root tree)) (bf_data b) (ue_utxo_id ue) roots) (h + 1) ue
        = Ok t \<Longrightarrow> transaction_codec_law x t"
    and net: "\<And>t. nd_gossip nd t = Ok ()" "nd_short_id nd = Ok sid" "\<And>ob. \<exists>s. json x (json_observation x ob) = Ok s"
  shows "\<exists>ps b' p. form_observation x nd now rnd b = Some (Ok ps, b') \<and> bf_data b' = [] \<and>
     observation x (bf_latest b') = Ok (Observation (Some (mt_root tree)) (bf_data b) (ue_utxo_id ue) roots) \<and>
     height x (bf_latest b') = Ok (h + 1) \<and>
     observation_proof x (bf_latest b') = Ok p \<and> proof_verify x (signable_hash x (bf_latest b')) p = Ok () \<and>
     proof_public_key_bytes x p = Ok (key_pair_public_key_vec x kp) \<and>
     bf_ancestors b' = (if length (bf_ancestors b) = ANCESTOR_MERKLE_ROOT_LENGTH then [] else bf_ancestors b) @
       [hash_or x (bf_latest b')] \<and>
     query_observation x (hash_or x (bf_latest b')) (bf_ds b') = Ok (Some (bf_latest b')) \<and>
     list_all2 (proves x tree (hash_or x (bf_latest b')) p) (bf_data b) ps"
proof -
  have tb: "has_bytes (mt_root tree)"
    using build_root_Ok [of "map (om_hash_or x) (bf_data b)" x] tree(1) data by (auto simp: tree_ok_def intro!: entry_ok_parent [of x])
  obtain u where u: "ue_utxo_id ue = Some u" "observation_as_utxo_id x (bf_latest b) = Ok u"
    using observation_output_as_Ok [OF latest(2)] by auto
  define ob where "ob = Observation (Some (mt_root tree)) (bf_data b) (Some u) roots"
  have ob: "ob_parent_id ob = Some u" "ob_observations ob = bf_data b" by (simp_all add: ob_def)
  obtain t p pk pb where t: "observation_tx x nd now rnd ob (h + 1) ue = Ok t" "observation x t = Ok ob"
    "height x t = Ok (h + 1)" "time x t = Ok now" "observation_proof x t = Ok p" "pr_public_key p = Some pk"
    "safe_bytes x (pk_bytes pk) = Ok pb" and hb: "has_bytes (hash_or x t)"
    and sig: "proof_verify x (signable_hash x t) p = Ok ()" "proof_public_key_bytes x p = Ok (key_pair_public_key_vec x kp)"
    using observation_tx_Ok [OF law kp addr u(1) pays ob(1), of now rnd "h + 1"] by (metis has_bytes_new(2))
  have lh: "build_root x (leafs_hash x ob) = Some (Ok tree)" using tree(1) by (simp add: leafs_hash_def ob)
  obtain ps where ps: "build_observation_proofs x ob (hash_or x t) p = Some (Ok ps)"
    "list_all2 (proves x tree (hash_or x t) p) (ob_observations ob) ps"
    using build_observation_proofs_Ok [of ob x tree "hash_or x t" p] data lh tree(2) ob by auto
  have "dec_transaction x (enc_transaction x t) = Inr t"
    using codec [of t] t(1) u(1) by (simp add: ob_def transaction_codec_law_def)
  then obtain ds' where ds': "insert_observation_and_edges x now t (bf_ds b) = Some (Ok (), ds')"
    "query_observation x (hash_or x t) ds' = Ok (Some t)"
    using insert_observation_and_edges_Ok [OF ds t(4,3,2,5,6,7) hb tb ps] data(2) ob(2) by metis
  obtain js where js: "json x (json_observation x ob) = Ok js" using net(3) by blast
  let ?as = "if length (bf_ancestors b) = ANCESTOR_MERKLE_ROOT_LENGTH then [] else bf_ancestors b"
  obtain r where r: "take_ancestor_root x (b \<lparr> bf_data := [] \<rparr>) = Some (Ok r, b \<lparr> bf_data := [], bf_ancestors := ?as \<rparr>)"
    "(case r of None \<Rightarrow> [] | Some g \<Rightarrow> [g]) = roots"
    using take_ancestor_root_Ok [OF _ anc, of "b \<lparr> bf_data := [] \<rparr>"] by auto
  let ?b = "b \<lparr> bf_data := [], bf_ds := ds', bf_latest := t, bf_ancestors := ?as @ [hash_or x t] \<rparr>"
  have "form_observation x nd now rnd b = Some (Ok ps, ?b)"
    using data(1) latest tree tb u t(1,5) ps(1) ds' net js r unfolding form_observation_def
    by (simp add: then_do_def try_do_def calc_do_def read_do_def modify_do_def on_ds_def Let_def
        hash_safe_bytes_vb ob_def [symmetric])
  then show ?thesis using t ob sig ps(2) ds'(2) u(1) ob_def by force
qed

section \<open>Witnesses\<close>

definition sample_metadata :: "bytes \<Rightarrow> ObservationMetadata" where
  "sample_metadata v = ObservationMetadata (Some (hash_new [9])) 0 0 None
     (map_option (\<lambda>m. m \<lparr> sm_hash := Some (hash_new v) \<rparr>) (struct_metadata 5)) 0 None"

definition blank_proof :: Proof where
  "blank_proof = \<lparr> pr_signature = None, pr_public_key = None \<rparr>"

definition sample_observation :: Observation where
  "sample_observation = Observation None [sample_metadata [1], sample_metadata [2]] None []"

lemma sample_metadata_hash [simp]: "om_hash_or x (sample_metadata v) = hash_new v"
  by (simp add: om_hash_or_def sample_metadata_def struct_metadata_def)

lemma sample_observation_obs [simp]: "ob_observations sample_observation = [sample_metadata [1], sample_metadata [2]]"
  by (simp add: sample_observation_def)

lemma sample_observation_leafs [simp]: "leafs_hash x sample_observation = sample_leafs"
  by (simp add: leafs_hash_def sample_observation_def sample_leafs_def)

theorem observation_proofs_verify_witness:
  "\<exists>tree ps. build_root sample_ext (leafs_hash sample_ext sample_observation) = Some (Ok tree) \<and>
     build_observation_proofs sample_ext sample_observation (hash_new [3]) blank_proof = Some (Ok ps) \<and> length ps = 2"
proof -
  obtain tree where "build_root sample_ext sample_leafs = Some (Ok tree)" "root_fresh tree"
    using sample_tree_fresh by blast
  with observation_proofs_verify [of sample_observation sample_ext tree "hash_new [3]" blank_proof] show ?thesis
    by (auto dest: list_all2_lengthD)
qed

definition sample_node :: node_setup where
  "sample_node = \<lparr> nd_network = Dev, nd_public_key = public_key_from_bytes [], nd_key_pair = Ok sample_kp,
     nd_address = new_raw [], nd_short_id = Ok [], nd_send = (\<lambda>_. Inr ()), nd_gossip = (\<lambda>_. Ok ()) \<rparr>"

text \<open>A first observation paying to an address, and a buffer that holds it and two entries.\<close>

definition sample_first :: "Address \<Rightarrow> Transaction" where
  "sample_first a = tb_transaction (with_observation observation_default 0 a (builder_new 5 7 Dev))"

definition sample_buffer :: "Address \<Rightarrow> observation_buffer" where
  "sample_buffer a = \<lparr> bf_data = [sample_metadata [1], sample_metadata [2]], bf_latest = sample_first a,
     bf_ancestors = [], bf_subscribers = Map.empty, bf_ds = empty_store, bf_sent = [] \<rparr>"

lemma sample_first_sel:
  "t_outputs (sample_first a) = [(output_from_data (standard_data_observation observation_default)) \<lparr> o_address := Some a \<rparr>]"
  "height x (sample_first a) = Ok 0" "time x (sample_first a) = Ok 5"
  by (simp_all add: sample_first_def with_observation_def Let_def push_output_def with_options_height_def
      set_opts_def builder_new_def with_network_def new_blank_def tx_default_def height_def time_def struct_metadata_def)

definition sample_chain_output :: "Address \<Rightarrow> Output" where
  "sample_chain_output a = (output_from_data (standard_data_observation observation_default)) \<lparr> o_address := Some a \<rparr>"

definition sample_chain_utxo :: "externals \<Rightarrow> Address \<Rightarrow> UtxoEntry" where
  "sample_chain_utxo x a = output_utxo_entry (sample_chain_output a) (hash_or x (sample_first a)) 0 5"

lemma sample_first_output: "observation_output_as x (sample_first a) = Ok (sample_chain_utxo x a)"
  by (simp add: sample_chain_utxo_def sample_chain_output_def observation_output_as_def observation_output_index_def observation_output_def sample_first_sel get_def)

theorem empty_observation_panics_witness:
  "\<exists>t ds'. insert_observation_and_edges sample_ext 5 t empty_store = Some (Panic ''merkle failure'', ds') \<and>
     ds_observation ds' \<noteq> []"
proof -
  obtain a where a: "key_pair_address_typed sample_ext sample_kp = Ok a"
    using key_pair_address_typed_eq by blast
  define ue where "ue = output_utxo_entry (output_new a 1) (hash_new [1]) 0 5"
  define ob where "ob = Observation None [] (ue_utxo_id ue) []"
  obtain t p pk pb hb where t: "observation sample_ext t = Ok ob" "height sample_ext t = Ok 1"
    "time sample_ext t = Ok 5" "observation_proof sample_ext t = Ok p" "pr_public_key p = Some pk"
    "safe_bytes sample_ext (pk_bytes pk) = Ok pb" "hash_or sample_ext t = digest sample_ext hb"
    using observation_tx_Ok [of sample_ext sample_kp sample_node a ue "the (ue_utxo_id ue)" "output_new a 1" ob 5 7 1]
      sample_secp_law a
    by (auto simp: sample_kp_def sample_node_def ue_def ob_def output_utxo_entry_def from_output_new_def output_new_def)
  have "hash_safe_bytes sample_ext (hash_or sample_ext t) = Ok (vb (hash_or sample_ext t))"
    by (simp add: t(7) hash_safe_bytes_vb)
  with empty_observation_panics [of sample_ext t ob p pk pb 5 1 "vb (hash_or sample_ext t)" empty_store 5 "\<lambda>_. False"] t
  obtain ds' where "insert_observation_and_edges sample_ext 5 t empty_store = Some (Panic ''merkle failure'', ds')"
    "vb (hash_or sample_ext t) \<in> obr_hash ` set (ds_observation ds')" by (auto simp: ob_def)
  then show ?thesis by (metis empty_iff image_empty list.set(1))
qed

text \<open>Signing decodes no transaction, so that the decoder of an instance can return the transaction that is formed.\<close>

lemma errors_undecoded:
  "error_msg (x \<lparr> dec_transaction := d \<rparr>) = error_msg x"
  "error_message (x \<lparr> dec_transaction := d \<rparr>) = error_message x" "error_info (x \<lparr> dec_transaction := d \<rparr>) = error_info x"
  by (simp_all add: fun_eq_iff error_info_def error_message_def error_msg_def)

lemma hashes_undecoded:
  "digest (x \<lparr> dec_transaction := d \<rparr>) = digest x" "calculate_hash (x \<lparr> dec_transaction := d \<rparr>) = calculate_hash x"
  "hash_or (x \<lparr> dec_transaction := d \<rparr>) = hash_or x" "signable_hash (x \<lparr> dec_transaction := d \<rparr>) = signable_hash x"
proof -
  show c: "calculate_hash (x \<lparr> dec_transaction := d \<rparr>) = calculate_hash x"
    by (simp add: fun_eq_iff digest_def calculate_hash_def)
  show "digest (x \<lparr> dec_transaction := d \<rparr>) = digest x" by (simp add: fun_eq_iff digest_def)
  show "hash_or (x \<lparr> dec_transaction := d \<rparr>) = hash_or x" "signable_hash (x \<lparr> dec_transaction := d \<rparr>) = signable_hash x"
    by (simp_all only: fun_eq_iff hash_or_def signable_hash_def c) simp_all
qed

lemma bytes_undecoded:
  "safe_bytes (x \<lparr> dec_transaction := d \<rparr>) = safe_bytes x" "hash_safe_bytes (x \<lparr> dec_transaction := d \<rparr>) = hash_safe_bytes x"
  by (simp_all add: fun_eq_iff safe_bytes_def hash_safe_bytes_def safe_get_msg_def errors_undecoded)

lemma proofs_undecoded: "from_keypair_hash (x \<lparr> dec_transaction := d \<rparr>) = from_keypair_hash x"
  by (simp add: fun_eq_iff from_keypair_hash_def proof_new_def sign_hash_def util_sign_def errors_undecoded bytes_undecoded public_key_ser_def)

lemma address_undecoded: "key_pair_address_typed (x \<lparr> dec_transaction := d \<rparr>) = key_pair_address_typed x"
  by (simp add: fun_eq_iff key_pair_address_typed_def public_key_address_def from_struct_public_def to_struct_public_key_def
      address_of_hash public_key_from_bytes_def)

lemma sign_undecoded: "sign (x \<lparr> dec_transaction := d \<rparr>) = sign x"
proof -
  have i: "sign_input (x \<lparr> dec_transaction := d \<rparr>) = sign_input x"
    by (simp add: fun_eq_iff sign_input_def safe_get_msg_def errors_undecoded proofs_undecoded split: option.split cong: if_cong)
  have h: "with_hash (x \<lparr> dec_transaction := d \<rparr>) = with_hash x"
    by (simp add: fun_eq_iff with_hash_def set_hash_def tx_struct_metadata_def hashes_undecoded errors_undecoded)
  show ?thesis
    by (intro ext) (simp add: sign_def i h errors_undecoded hashes_undecoded address_undecoded split_def cong: if_cong option.case_cong)
qed

lemma sample_formed:
  "\<exists>a t. \<forall>u. key_pair_address_typed (echo_ext u) sample_kp = Ok a \<and>
     observation_tx (echo_ext u) sample_node 6 8 (Observation (Some (digest (echo_ext u) [1, 2])) (bf_data (sample_buffer a))
       (ue_utxo_id (sample_chain_utxo (echo_ext u) a)) []) 1 (sample_chain_utxo (echo_ext u) a) = Ok t"
proof -
  obtain a where a: "key_pair_address_typed sample_ext sample_kp = Ok a"
    using key_pair_address_typed_eq by blast
  have ue: "ue_utxo_id (sample_chain_utxo sample_ext a) = Some (the (ue_utxo_id (sample_chain_utxo sample_ext a)))"
    "ue_output (sample_chain_utxo sample_ext a) = Some (sample_chain_output a)" "o_address (sample_chain_output a) = Some a"
    by (simp_all add: sample_chain_utxo_def sample_chain_output_def output_utxo_entry_def from_output_new_def)
  have law: "secp_law sample_ext (kp_secret_key sample_kp) (kp_public_key sample_kp)" "nd_key_pair sample_node = Ok sample_kp"
    using sample_secp_law by (simp_all add: sample_kp_def sample_node_def)
  obtain t where "observation_tx sample_ext sample_node 6 8 (Observation (Some (digest sample_ext [1, 2])) (bf_data (sample_buffer a))
      (ue_utxo_id (sample_chain_utxo sample_ext a)) []) 1 (sample_chain_utxo sample_ext a) = Ok t"
    using observation_tx_Ok [OF law a ue, of "Observation (Some (digest sample_ext [1, 2])) (bf_data (sample_buffer a))
      (ue_utxo_id (sample_chain_utxo sample_ext a)) []" 6 8 1] ue(1) by auto
  then show ?thesis using a
    by (simp add: echo_ext_def observation_tx_def sign_undecoded address_undecoded hashes_undecoded sample_chain_utxo_def)
qed

theorem form_observation_extends_chain_witness:
  "\<exists>a t ps b'. form_observation (echo_ext t) sample_node 6 8 (sample_buffer a) = Some (Ok ps, b') \<and>
     bf_latest b' = t \<and> query_observation (echo_ext t) (hash_or (echo_ext t) t) (bf_ds b') = Ok (Some t) \<and>
     height (echo_ext t) t = Ok 1 \<and> bf_data b' = [] \<and> length ps = 2"
proof -
  obtain a t where a: "key_pair_address_typed (echo_ext u) sample_kp = Ok a"
    and formed: "observation_tx (echo_ext u) sample_node 6 8 (Observation (Some (digest (echo_ext u) [1, 2])) (bf_data (sample_buffer a))
       (ue_utxo_id (sample_chain_utxo (echo_ext u) a)) []) 1 (sample_chain_utxo (echo_ext u) a) = Ok t" for u
    using sample_formed by blast
  let ?x = "echo_ext t" and ?b = "sample_buffer a"
  obtain tree where tree: "build_root ?x (map (om_hash_or ?x) (bf_data ?b)) = Some (Ok tree)" "root_fresh tree" "mt_root tree = digest ?x [1, 2]"
    using sample_tree_fresh [of ?x] sample_tree [of ?x] by (auto simp: sample_buffer_def sample_leafs_def)
  have law: "secp_law ?x (kp_secret_key sample_kp) (kp_public_key sample_kp)"
    by (simp add: secp_law_def echo_ext_def sample_ext_def sample_kp_def)
  have nd: "nd_key_pair sample_node = Ok sample_kp" "nd_gossip sample_node u = Ok ()" "nd_short_id sample_node = Ok []" for u
    by (simp_all add: sample_node_def)
  have bf: "height ?x (bf_latest ?b) = Ok 0" "ds_fault (bf_ds ?b) = None" "observation_output_as ?x (bf_latest ?b) = Ok (sample_chain_utxo ?x a)"
    "bf_data ?b = [sample_metadata [1], sample_metadata [2]]" "bf_ancestors ?b = []"
    by (simp_all add: sample_buffer_def sample_first_sel sample_first_output)
  have ue: "ue_output (sample_chain_utxo ?x a) = Some (sample_chain_output a)" "o_address (sample_chain_output a) = Some a"
    by (simp_all add: sample_chain_utxo_def sample_chain_output_def output_utxo_entry_def from_output_new_def)
  have md: "bf_data ?b \<noteq> []" "\<forall>m \<in> set (bf_data ?b). has_bytes (om_hash_or ?x m) \<and> (\<exists>g. om_observed_hash m = Some g \<and> has_bytes g)"
    by (simp_all add: bf(4)) (simp add: sample_metadata_def)
  have js: "\<exists>s. json ?x (json_observation ?x ob) = Ok s" for ob by (simp add: echo_ext_def sample_ext_def json_def)
  have anc: "if length (bf_ancestors ?b) = ANCESTOR_MERKLE_ROOT_LENGTH
      then \<exists>at. build_root ?x (bf_ancestors ?b) = Some (Ok at) \<and> [] = [mt_root at] else [] = ([] :: Hash list)"
    by (simp add: bf(5) ANCESTOR_MERKLE_ROOT_LENGTH_def)
  have codec: "transaction_codec_law ?x u" if "observation_tx ?x sample_node 6 8
      (Observation (Some (mt_root tree)) (bf_data ?b) (ue_utxo_id (sample_chain_utxo ?x a)) []) (0 + 1) (sample_chain_utxo ?x a) = Ok u" for u
    using that formed [of t] tree(3) by simp
  from form_observation_extends_chain [where now = 6 and rnd = 8, OF law nd(1) a bf(1,3) ue md tree(1,2) anc bf(2) codec nd(2,3) js]
  obtain ps b' where f: "form_observation ?x sample_node 6 8 ?b = Some (Ok ps, b')" "bf_data b' = []"
    "height ?x (bf_latest b') = Ok 1" "query_observation ?x (hash_or ?x (bf_latest b')) (bf_ds b') = Ok (Some (bf_latest b'))"
    "length ps = 2" by (auto simp: bf(4) dest: list_all2_lengthD)
  moreover have "bf_latest b' = t" using f(4)
    by (auto simp: query_observation_def result_simps proto_deserialize_def echo_ext_def split: option.splits)
  ultimately show ?thesis by blast
qed

section \<open>The bound on the ancestors\<close>

definition ancestors_ok :: "observation_buffer \<Rightarrow> bool" where
  "ancestors_ok b \<longleftrightarrow> length (bf_ancestors b) \<le> ANCESTOR_MERKLE_ROOT_LENGTH"

definition ancestors_room :: "observation_buffer \<Rightarrow> bool" where
  "ancestors_room b \<longleftrightarrow> length (bf_ancestors b) < ANCESTOR_MERKLE_ROOT_LENGTH"

lemma on_ds_triple:
  "(\<And>b ds. P b \<Longrightarrow> P (b \<lparr> bf_ds := ds \<rparr>)) \<Longrightarrow> (\<And>b. P b \<Longrightarrow> I b) \<Longrightarrow> triple P (on_ds m) (\<lambda>_. P) I"
  by (auto simp: triple_def on_ds_def split: result.splits)

lemma room_ok [simp]: "ancestors_room b \<Longrightarrow> ancestors_ok b"
  by (simp add: ancestors_ok_def ancestors_room_def)

lemma take_ancestor_root_triple: "triple ancestors_ok (take_ancestor_root x) (\<lambda>_. ancestors_room) ancestors_ok"
  unfolding triple_def take_ancestor_root_def
  by (auto simp: then_do_def read_do_def calc_do_def modify_do_def try_do_def ancestors_ok_def ancestors_room_def
      ANCESTOR_MERKLE_ROOT_LENGTH_def split: option.splits result.splits if_splits)

lemma form_observation_triple: "triple ancestors_ok (form_observation x nd now rnd) (\<lambda>_. ancestors_ok) ancestors_ok"
  unfolding form_observation_def Let_def
  apply (rule triple_then_do, rule triple_keep_same)
  apply (rule triple_if, rule triple_keep_same)
  apply (rule triple_then_do [where R = "\<lambda>_. ancestors_ok"])
   apply (rule triple_basic, simp add: ancestors_ok_def)
  apply (rule triple_then_do, rule triple_keep_same)+
  apply (rule triple_then_do, rule take_ancestor_root_triple)
  apply (rule triple_then_do, rule triple_keep, erule room_ok)+
  apply (rule triple_then_do, rule on_ds_triple, simp add: ancestors_room_def, erule room_ok)
  apply (rule triple_then_do, rule triple_keep, erule room_ok)+
  apply (rule triple_then_do [where R = "\<lambda>_. ancestors_ok"])
   apply (rule triple_basic, simp add: ancestors_room_def ancestors_ok_def)
  apply (rule triple_then_do, rule triple_keep_same)+
  apply (rule triple_keep_same)
  done

lemma send_err_triple: "triple ancestors_ok (send_err x nd ch p) (\<lambda>_. ancestors_ok) ancestors_ok"
  by (auto simp: triple_def send_err_def ancestors_ok_def split: result.splits)

lemma respond_all_triple: "triple ancestors_ok (respond_all x nd ps) (\<lambda>_. ancestors_ok) ancestors_ok"
proof (induction ps)
  case (Cons p ps)
  show ?case unfolding respond_all.simps
    by (rule triple_then_do, rule triple_keep_same, rule triple_then_do [OF _ Cons],
        rule triple_case_option, rule triple_keep_same, rule send_err_triple)
qed (simp add: triple_keep_same)

lemma handle_message_triple: "triple ancestors_ok (handle_message x nd m) (\<lambda>_. ancestors_ok) ancestors_ok"
proof (cases m)
  case (Incoming d ch)
  show ?thesis unfolding Incoming handle_message.simps
    by (rule triple_basic) (simp add: ancestors_ok_def process_incoming_def split: option.split)
next
  case (Tick now rnd)
  show ?thesis unfolding Tick handle_message.simps form_and_respond_def
    by (rule triple_then_do [OF form_observation_triple respond_all_triple])
qed

lemma buffer_run_triple: "triple ancestors_ok (buffer_run x nd ms) (\<lambda>_. ancestors_ok) ancestors_ok"
  by (induction ms) (simp_all add: triple_keep_same triple_then_do [OF handle_message_triple])

lemma length_order_desc [simp]: "length (order_desc f xs) = length xs"
  by (simp add: order_desc_def)

lemma buffer_new_ancestors: "buffer_new x nd now rnd ds = Ok b \<Longrightarrow> ancestors_ok b"
  by (auto simp: buffer_new_def Let_def result_simps ancestors_ok_def ANCESTOR_MERKLE_ROOT_LENGTH_def
      recent_observation_def sql_limit_def dest!: list_all2_lengthD
      intro!: le_trans [OF length_filter_le])

text \<open>C27: The ancestors a node collects for its periodic Merkle root never exceed the thousand after
  which the root is formed: whatever messages a freshly created buffer handles, and
  whether handling ends normally, in an error or in a panic, the list stays within the bound.\<close>

theorem buffer_ancestors_bounded:
  assumes "buffer_new x nd now rnd ds = Ok b" "buffer_run x nd ms b = Some (r, b')"
  shows "length (bf_ancestors b') \<le> ANCESTOR_MERKLE_ROOT_LENGTH"
  using buffer_run_triple [of x nd ms] buffer_new_ancestors [OF assms(1)] assms(2)
  unfolding triple_def ancestors_ok_def by (cases r) force+

theorem buffer_ancestors_bounded_witness:
  "\<exists>b b'. buffer_new (echo_ext (sample_first (new_raw []))) sample_node 5 7 (empty_store \<lparr> ds_observation :=
       [\<lparr> obr_hash = [1], obr_raw = [], obr_public_key = [], obr_time = 5, obr_height = 0 \<rparr>] \<rparr>) = Ok b \<and>
     buffer_run (echo_ext (sample_first (new_raw []))) sample_node [Incoming (sample_metadata [1]) 0] b = Some (Ok (), b') \<and>
     length (bf_ancestors b') \<le> ANCESTOR_MERKLE_ROOT_LENGTH"
proof -
  let ?x = "echo_ext (sample_first (new_raw []))"
  let ?ds = "empty_store \<lparr> ds_observation :=
       [\<lparr> obr_hash = [1], obr_raw = [], obr_public_key = [], obr_time = 5, obr_height = 0 \<rparr>] \<rparr>"
  have dec: "dec_transaction ?x bs = Inr (sample_first (new_raw []))" for bs by (simp add: echo_ext_def)
  have pk: "public_key_bytes ?x (nd_public_key sample_node) = Ok []"
    by (simp add: sample_node_def public_key_bytes_def public_key_from_bytes_def)
  obtain b where b: "buffer_new ?x sample_node 5 7 ?ds = Ok b"
    by (simp add: buffer_new_def initial_latest_def select_latest_observation_def pool_def map_err_sqlx_def pk dec
        proto_deserialize_def sample_first_sel recent_observation_def sql_limit_def order_desc_def get_def Let_def)
  obtain b' where r: "buffer_run ?x sample_node [Incoming (sample_metadata [1]) 0] b = Some (Ok (), b')"
    by (simp add: then_do_def modify_do_def try_do_def)
  show ?thesis using b r buffer_ancestors_bounded [OF b r] by blast
qed

end
