(* ===== verification/Aux_Stores.thy ===== *)
theory Aux_Stores
  imports Observation
begin

text \<open>
  The remaining tables of the data store: contract states (\<open>data/src/state_store.rs\<close>),
  blocks and address balances (\<open>data/src/address_block.rs\<close>), the key-value configuration
  (\<open>data/src/config.rs\<close>), and the queries of \<open>data/src/data_store.rs\<close> that combine tables.
  The generic \<open>proto\<close> and \<open>json\<close> operations of the configuration take the codec of the
  stored type as an argument.
\<close>

section \<open>Contract states\<close>

definition bytes_data_calculate_hash :: "externals \<Rightarrow> BytesData \<Rightarrow> Hash" where
  "bytes_data_calculate_hash x b = digest x (enc_bytes_data x b)"

definition state_selector_calculate_hash :: "externals \<Rightarrow> StateSelector \<Rightarrow> Hash" where
  "state_selector_calculate_hash x s = digest x (enc_state_selector x s)"

text \<open>
  The primary key is the address and the selector hash.  A key with a NULL selector
  conflicts with no row.
\<close>

definition state_conflict :: "state_row \<Rightarrow> state_row \<Rightarrow> bool" where
  "state_conflict r r' \<longleftrightarrow> sr_address r = sr_address r' \<and> sr_selector_hash r \<noteq> None \<and>
     sr_selector_hash r = sr_selector_hash r'"

definition state_row_of :: "externals \<Rightarrow> ContractStateMarker \<Rightarrow> state_row rg_result" where
  "state_row_of x st =
     and_then (opt_address_safe_bytes x (csm_address st)) (\<lambda>address.
     and_then (case csm_selector st of
         Some s \<Rightarrow> and_then (hash_safe_bytes x (state_selector_calculate_hash x s)) (\<lambda>h. Ok (Some h))
       | None \<Rightarrow> Ok None) (\<lambda>selector_hash.
     and_then (safe_get x (csm_state st)) (\<lambda>s.
     and_then (hash_safe_bytes x (bytes_data_calculate_hash x s)) (\<lambda>state_hash.
     and_then (safe_get x (csm_transaction_marker st)) (\<lambda>tm.
     and_then (safe_bytes x (h_bytes tm)) (\<lambda>marker.
     Ok \<lparr> sr_address = address, sr_selector_hash = selector_hash, sr_state_hash = state_hash,
          sr_transaction_marker = marker, sr_time = csm_time st, sr_nonce = csm_nonce st,
          sr_state = enc_contract_state_marker x st \<rparr>))))))"

definition insert_state :: "externals \<Rightarrow> ContractStateMarker \<Rightarrow> (data_store, unit) action" where
  "insert_state x st = exec (\<lambda>ds.
     and_then (pool x ds) (\<lambda>_.
     and_then (state_row_of x st) (\<lambda>r.
     Ok (ds \<lparr> ds_state := filter (\<lambda>r'. \<not> state_conflict r' r) (ds_state ds) @ [r] \<rparr>))))"

definition query_recent_state ::
    "externals \<Rightarrow> Address \<Rightarrow> StateSelector option \<Rightarrow> i64 option \<Rightarrow> data_store \<Rightarrow>
     ContractStateMarker list rg_result" where
  "query_recent_state x address selector limit ds =
     and_then (pool x ds) (\<lambda>_.
     and_then (safe_bytes x (a_address address)) (\<lambda>addr.
     let n = (case limit of Some l \<Rightarrow> l | None \<Rightarrow> 20) in
     and_then (case selector of
         Some sel \<Rightarrow> and_then (hash_safe_bytes x (state_selector_calculate_hash x sel)) (\<lambda>h.
           Ok (filter (\<lambda>r. sr_address r = addr \<and> sr_selector_hash r = Some h) (ds_state ds)))
       | None \<Rightarrow> Ok (filter (\<lambda>r. sr_address r = addr) (ds_state ds))) (\<lambda>rows.
     try_map (\<lambda>r. proto_deserialize x (dec_contract_state_marker x) (sr_state r))
       (sql_limit n (order_desc sr_nonce rows)))))"

definition clean_up :: "externals \<Rightarrow> Address \<Rightarrow> StateSelector \<Rightarrow> i64 \<Rightarrow> (data_store, u64) action" where
  "clean_up x address state_sel nonce ds =
     (case and_then (pool x ds) (\<lambda>_.
           and_then (safe_bytes x (a_address address)) (\<lambda>addr.
           and_then (hash_safe_bytes x (state_selector_calculate_hash x state_sel)) (\<lambda>sel.
           Ok (tbl_delete (\<lambda>r. sr_address r = addr \<and> sr_selector_hash r = Some sel \<and> sint (sr_nonce r) < sint nonce)
             (ds_state ds))))) of
        Ok (n, t) \<Rightarrow> (Ok (word_of_nat n), ds \<lparr> ds_state := t \<rparr>)
      | Err e \<Rightarrow> (Err e, ds)
      | Panic p \<Rightarrow> (Panic p, ds))"

definition clean_up_all :: "(data_store, unit) action" where
  "clean_up_all = pure (Ok ())"

section \<open>Blocks and address balances\<close>

record AddressHistoricalBalance =
  ahb_address :: Address
  ahb_balance :: i64
  ahb_height :: i64

definition all_address_balance_by_height ::
    "externals \<Rightarrow> i64 \<Rightarrow> data_store \<Rightarrow> AddressHistoricalBalance list rg_result" where
  "all_address_balance_by_height x h ds =
     and_then (pool x ds) (\<lambda>_.
     try_map (\<lambda>r.
       and_then (safe_get_msg x ''Row missing address'' (Some (abr_address r))) (\<lambda>b.
       and_then (address_from_bytes x b) (\<lambda>a.
       and_then (safe_get_msg x ''Row missing balance'' (abr_balance r)) (\<lambda>bal.
       Ok \<lparr> ahb_address = a, ahb_balance = bal, ahb_height = h \<rparr>))))
       (filter (\<lambda>r. abr_height r = h) (ds_address_block ds)))"

definition query_last_block :: "externals \<Rightarrow> data_store \<Rightarrow> Block option rg_result" where
  "query_last_block x ds =
     and_then (pool x ds) (\<lambda>_.
     case sql_limit 1 (order_desc br_height (ds_block ds)) of
       [] \<Rightarrow> Ok None
     | b # _ \<Rightarrow> and_then (proto_deserialize x (dec_block x) (br_raw b)) (\<lambda>v. Ok (Some v)))"

definition query_last_balance_address :: "externals \<Rightarrow> bytes \<Rightarrow> data_store \<Rightarrow> i64 option rg_result" where
  "query_last_balance_address x address ds =
     and_then (pool x ds) (\<lambda>_.
     case sql_limit 1 (order_desc abr_height (filter (\<lambda>r. abr_address r = address) (ds_address_block ds))) of
       [] \<Rightarrow> Ok None
     | r # _ \<Rightarrow> Ok (abr_balance r))"

definition insert_address_block :: "externals \<Rightarrow> AddressBlock \<Rightarrow> (data_store, unit) action" where
  "insert_address_block x address_block = exec (\<lambda>ds.
     and_then (pool x ds) (\<lambda>_.
     and_then (opt_address_safe_bytes x (ab_address address_block)) (\<lambda>a.
     and_then (safe_get_msg x ''balance'' (ab_balance address_block)) (\<lambda>b.
     and_then (safe_get_msg x ''hash'' (ab_hash address_block)) (\<lambda>g.
     and_then (hash_vec x g) (\<lambda>hash.
     and_then (sql_insert x ''address_block'' abr_address
       \<lparr> abr_address = a, abr_balance = Some (ca_amount b), abr_height = ab_height address_block, abr_hash = hash \<rparr>
       (ds_address_block ds)) (\<lambda>t.
     Ok (ds \<lparr> ds_address_block := t \<rparr>))))))))"

definition query_address_balance_by_height ::
    "externals \<Rightarrow> Address \<Rightarrow> i64 \<Rightarrow> data_store \<Rightarrow> i64 option rg_result" where
  "query_address_balance_by_height x address h ds =
     and_then (safe_bytes x (a_address address)) (\<lambda>address_bytes.
     and_then (pool x ds) (\<lambda>_.
     case sql_limit 1 (order_desc abr_height
         (filter (\<lambda>r. abr_address r = address_bytes \<and> sint (abr_height r) \<le> sint h) (ds_address_block ds))) of
       [] \<Rightarrow> Ok None
     | r # _ \<Rightarrow> Ok (abr_balance r)))"

definition show_or_none :: "('a \<Rightarrow> string) \<Rightarrow> 'a option \<Rightarrow> string" where
  "show_or_none f v = (case v of Some a \<Rightarrow> f a | None \<Rightarrow> ''none'')"

definition query_block_hash_height ::
    "externals \<Rightarrow> bytes option \<Rightarrow> i64 option \<Rightarrow> data_store \<Rightarrow> Block option rg_result" where
  "query_block_hash_height x hash hgt ds =
     (if hash = None \<and> hgt = None
      then Err (error_message x MissingField ''Block hash and height both empty'')
      else and_then (pool x ds) (\<lambda>_.
        case sql_limit 2 (filter (\<lambda>r. (case hash of None \<Rightarrow> True | Some h \<Rightarrow> br_hash r = h) \<and>
                                  (case hgt of None \<Rightarrow> True | Some n \<Rightarrow> br_height r = n)) (ds_block ds)) of
          [] \<Rightarrow> Ok None
        | [r] \<Rightarrow> and_then (proto_deserialize x (dec_block x) (br_raw r)) (\<lambda>b. Ok (Some b))
        | _ \<Rightarrow> Err (error_message x DataStoreInternalCorruption
            (''More than 1 block returned on query for hash '' @ show_or_none (hex_encode x) hash @
             '' height '' @ show_or_none (\<lambda>n. show_int (sint n)) hgt))))"

text \<open>The hash of a block clears its transactions.\<close>

definition block_hash_clear :: "Block \<Rightarrow> Block" where
  "block_hash_clear b = b \<lparr> b_transactions := [],
     b_struct_metadata := map_option struct_metadata_hash_clear (b_struct_metadata b) \<rparr>"

definition block_hash_or :: "externals \<Rightarrow> Block \<Rightarrow> Hash" where
  "block_hash_or x b = (case Option.bind (b_struct_metadata b) sm_hash of
     Some h \<Rightarrow> h | None \<Rightarrow> digest x (enc_block x (block_hash_clear b)))"

definition block_time :: "externals \<Rightarrow> Block \<Rightarrow> i64 rg_result" where
  "block_time x b = and_then (safe_get x (b_struct_metadata b)) (\<lambda>s. safe_get x (sm_time s))"

definition block_row_of :: "externals \<Rightarrow> Block \<Rightarrow> block_row rg_result" where
  "block_row_of x block =
     and_then (safe_bytes x (h_bytes (block_hash_or x block))) (\<lambda>hash.
     and_then (block_time x block) (\<lambda>tm.
     Ok \<lparr> br_hash = hash, br_height = b_height block, br_raw = enc_block x block, br_time = tm \<rparr>))"

text \<open>The hash is the primary key and the heights carry a unique index.\<close>

definition insert_block :: "externals \<Rightarrow> Block \<Rightarrow> (data_store, unit) action" where
  "insert_block x block = exec (\<lambda>ds.
     and_then (pool x ds) (\<lambda>_.
     and_then (block_row_of x block) (\<lambda>r.
     and_then (sql_insert x ''block'' br_hash r (ds_block ds)) (\<lambda>_.
     and_then (sql_insert x ''block'' br_height r (ds_block ds)) (\<lambda>t.
     Ok (ds \<lparr> ds_block := t \<rparr>))))))"

section \<open>Configuration\<close>

definition config_replace :: "externals \<Rightarrow> config_row \<Rightarrow> (data_store, unit) action" where
  "config_replace x r = exec (\<lambda>ds.
     and_then (pool x ds) (\<lambda>_. Ok (ds \<lparr> ds_config := tbl_replace cr_key_name r (ds_config ds) \<rparr>)))"

definition insert_update :: "externals \<Rightarrow> string \<Rightarrow> string \<Rightarrow> (data_store, unit) action" where
  "insert_update x key v =
     config_replace x \<lparr> cr_key_name = key, cr_value_data = Some v, cr_value_bytes = None \<rparr>"

definition insert_update_bytes :: "externals \<Rightarrow> string \<Rightarrow> bytes \<Rightarrow> (data_store, unit) action" where
  "insert_update_bytes x key v =
     config_replace x \<lparr> cr_key_name = key, cr_value_data = None, cr_value_bytes = Some v \<rparr>"

definition insert_update_json ::
    "externals \<Rightarrow> ('a \<Rightarrow> string + string) \<Rightarrow> string \<Rightarrow> 'a \<Rightarrow> (data_store, unit) action" where
  "insert_update_json x enc key v = exec (\<lambda>ds.
     and_then (pool x ds) (\<lambda>_.
     and_then (json x (enc v)) (\<lambda>s.
     Ok (ds \<lparr> ds_config := tbl_replace cr_key_name
       \<lparr> cr_key_name = key, cr_value_data = Some s, cr_value_bytes = None \<rparr> (ds_config ds) \<rparr>))))"

definition select_config :: "externals \<Rightarrow> string \<Rightarrow> data_store \<Rightarrow> string option rg_result" where
  "select_config x key ds =
     and_then (pool x ds) (\<lambda>_.
     case tbl_lookup cr_key_name (ds_config ds) key of
       None \<Rightarrow> Ok None
     | Some row \<Rightarrow>
         and_then (result_error_info x ''value_data not found''
           (case cr_value_data row of Some s \<Rightarrow> Inr s | None \<Rightarrow> Inl (sql_decode_error x ''value_data''))) (\<lambda>s.
         Ok (Some s)))"

definition select_config_bytes :: "externals \<Rightarrow> string \<Rightarrow> data_store \<Rightarrow> bytes option rg_result" where
  "select_config_bytes x key ds =
     and_then (pool x ds) (\<lambda>_. Ok (Option.bind (tbl_lookup cr_key_name (ds_config ds) key) cr_value_bytes))"

definition get_proto :: "externals \<Rightarrow> (bytes \<Rightarrow> string + 'a) \<Rightarrow> string \<Rightarrow> data_store \<Rightarrow> 'a rg_result" where
  "get_proto x dec key ds =
     and_then (select_config_bytes x key ds) (\<lambda>v.
     and_then (safe_get x v) (\<lambda>b. proto_deserialize x dec b))"

definition get_maybe_proto :: "externals \<Rightarrow> (bytes \<Rightarrow> string + 'a) \<Rightarrow> string \<Rightarrow> data_store \<Rightarrow> 'a option rg_result" where
  "get_maybe_proto x dec key ds =
     and_then (select_config_bytes x key ds) (\<lambda>v. case v of
       Some b \<Rightarrow> and_then (proto_deserialize x dec b) (\<lambda>a. Ok (Some a))
     | None \<Rightarrow> Ok None)"

definition store_proto :: "externals \<Rightarrow> ('a \<Rightarrow> bytes) \<Rightarrow> string \<Rightarrow> 'a \<Rightarrow> (data_store, unit) action" where
  "store_proto x enc key v = insert_update_bytes x key (enc v)"

definition store_proto_ref :: "externals \<Rightarrow> ('a \<Rightarrow> bytes) \<Rightarrow> string \<Rightarrow> 'a \<Rightarrow> (data_store, unit) action" where
  "store_proto_ref x enc key v = insert_update_bytes x key (enc v)"

definition json_from :: "externals \<Rightarrow> (string \<Rightarrow> string + 'a) \<Rightarrow> string \<Rightarrow> 'a rg_result" where
  "json_from x dec s = lib_result (\<lambda>e. error_info x (''serde json ser error: '' @ e)) (dec s)"

definition get_json :: "externals \<Rightarrow> (string \<Rightarrow> string + 'a) \<Rightarrow> string \<Rightarrow> data_store \<Rightarrow> 'a option rg_result" where
  "get_json x dec key ds =
     and_then (select_config x key ds) (\<lambda>v. case v of
       Some s \<Rightarrow> and_then (json_from x dec s) (\<lambda>a. Ok (Some a))
     | None \<Rightarrow> Ok None)"

definition get_peer_tx :: "externals \<Rightarrow> data_store \<Rightarrow> Transaction option rg_result" where
  "get_peer_tx x ds = get_maybe_proto x (dec_transaction x) ''peer_tx'' ds"

definition set_peer_tx :: "externals \<Rightarrow> Transaction \<Rightarrow> (data_store, unit) action" where
  "set_peer_tx x tx = store_proto_ref x (enc_transaction x) ''peer_tx'' tx"

definition get_node_tx :: "externals \<Rightarrow> data_store \<Rightarrow> Transaction option rg_result" where
  "get_node_tx x ds = get_maybe_proto x (dec_transaction x) ''node_tx'' ds"

definition set_node_tx :: "externals \<Rightarrow> Transaction \<Rightarrow> (data_store, unit) action" where
  "set_node_tx x tx = store_proto_ref x (enc_transaction x) ''node_tx'' tx"

definition store_genesis :: "externals \<Rightarrow> Transaction \<Rightarrow> (data_store, unit) action" where
  "store_genesis x gen = store_proto x (enc_transaction x) ''genesis'' gen"

definition get_genesis :: "externals \<Rightarrow> data_store \<Rightarrow> Transaction option rg_result" where
  "get_genesis x ds = get_maybe_proto x (dec_transaction x) ''genesis'' ds"

section \<open>Queries over several tables\<close>

definition resolve_transaction_hash :: "externals \<Rightarrow> Hash \<Rightarrow> data_store \<Rightarrow> TransactionInfo option rg_result" where
  "resolve_transaction_hash x hash ds =
     and_then (query_maybe_transaction x hash ds) (\<lambda>maybe_transaction.
     case maybe_transaction of
       None \<Rightarrow> Ok None
     | Some (t, e) \<Rightarrow>
         and_then (select_observation_edge x hash ds) (\<lambda>observation_proofs.
         and_then (query_utxo_output_index x hash ds) (\<lambda>valid_utxo_output_ids.
         Ok (Some \<lparr> tin_transaction = Some t, tin_observation_proofs = observation_proofs,
           tin_valid_utxo_index = valid_utxo_output_ids, tin_used_outputs = [], tin_accepted = (e = None),
           tin_rejection_reason = e, tin_queried_output_index_valid = None,
           tin_state = transaction_state_i32 (if e = None then TS_ObservedAccepted else TS_Rejected) \<rparr>))))"

definition resolve_code :: "externals \<Rightarrow> Address \<Rightarrow> data_store \<Rightarrow> ResolveCodeResponse rg_result" where
  "resolve_code x address ds =
     and_then (code_utxo x address True ds) (\<lambda>res.
     case Option.bind (Option.bind res ue_utxo_id) u_transaction_hash of
       None \<Rightarrow> Ok \<lparr> rc_utxo_entry = res, rc_transaction = None, rc_contract_state_marker = None \<rparr>
     | Some u \<Rightarrow>
         and_then (resolve_transaction_hash x u ds) (\<lambda>tx_res.
         and_then (query_recent_state x address None (Some 1) ds) (\<lambda>sts.
         Ok \<lparr> rc_utxo_entry = res, rc_transaction = tx_res, rc_contract_state_marker = get sts 0 \<rparr>)))"

text \<open>The gauges set from the three counts are the result.\<close>

definition count_gauges :: "externals \<Rightarrow> data_store \<Rightarrow> (i64 \<times> i64 \<times> i64) rg_result" where
  "count_gauges x ds =
     and_then (count_total_accepted_transactions x ds) (\<lambda>tx_count.
     and_then (count_total_observations x ds) (\<lambda>obs_count.
     and_then (count_total_utxos x ds) (\<lambda>utxo_total.
     Ok (tx_count, obs_count, utxo_total))))"

definition get_address_string_info :: "externals \<Rightarrow> string \<Rightarrow> data_store \<Rightarrow> AddressInfo rg_result" where
  "get_address_string_info x address ds =
     and_then (address_parse x address) (\<lambda>addr.
     and_then (query_utxo_address x addr ds) (\<lambda>res. Ok (from_utxo_entries addr res)))"

section \<open>The tables stay well formed\<close>

lemma config_replace_wf [preserves_rules]: "preserves store_wf (config_replace x r)"
  unfolding config_replace_def by (rule preserves_exec) (auto simp: store_wf_def result_simps)

lemma config_writes_wf [preserves_rules]:
  "preserves store_wf (insert_update x k v)" "preserves store_wf (insert_update_bytes x k b)"
  "preserves store_wf (insert_update_json x enc k a)" "preserves store_wf (store_proto x enc' k c)"
  "preserves store_wf (store_proto_ref x enc' k c)"
  unfolding insert_update_def insert_update_bytes_def store_proto_def store_proto_ref_def insert_update_json_def
  by (intro preserves_rules preserves_exec; auto simp: store_wf_def result_simps)+

lemma insert_state_wf [preserves_rules]: "preserves store_wf (insert_state x st)"
  unfolding insert_state_def by (rule preserves_exec) (auto simp: store_wf_def result_simps)

lemma clean_up_wf [preserves_rules]: "preserves store_wf (clean_up x a s n)"
  by (auto simp: preserves_def clean_up_def store_wf_def split: result.splits prod.splits)

lemma insert_address_block_wf [preserves_rules]: "preserves store_wf (insert_address_block x ab)"
  unfolding insert_address_block_def
  by (rule preserves_exec) (auto simp: store_wf_def result_simps tbl_wf_def tbl_insert_def split: if_splits)

lemma insert_block_wf [preserves_rules]: "preserves store_wf (insert_block x b)"
  unfolding insert_block_def
  by (rule preserves_exec) (auto simp: store_wf_def result_simps tbl_wf_def tbl_insert_def split: if_splits)

section \<open>Properties\<close>

lemma sort_key_snoc_least:
  "\<forall>y \<in> set xs. f r < f y \<Longrightarrow> sort_key f (xs @ [r]) = r # sort_key f xs"
proof (induction xs)
  case (Cons y ys)
  then have "sort_key f ((y # ys) @ [r]) = insort_key f y (r # sort_key f ys)" by simp
  also have "\<dots> = r # sort_key f (y # ys)" using Cons.prems by auto
  finally show ?case .
qed simp

lemma state_row_of_Ok:
  "state_row_of x st = Ok r \<Longrightarrow> sr_nonce r = csm_nonce st \<and> sr_state r = enc_contract_state_marker x st \<and>
     (sr_selector_hash r = None \<longleftrightarrow> csm_selector st = None) \<and> opt_address_safe_bytes x (csm_address st) = Ok (sr_address r)"
  by (auto simp: state_row_of_def result_simps split: option.splits)

lemma insert_state_Ok:
  "insert_state x st ds = (Ok (), ds') \<longleftrightarrow> ds_fault ds = None \<and> (\<exists>r. state_row_of x st = Ok r \<and>
     ds' = ds \<lparr> ds_state := filter (\<lambda>r'. \<not> state_conflict r' r) (ds_state ds) @ [r] \<rparr>)"
  by (auto simp: insert_state_def exec_eq_Ok result_simps)

text \<open>The newest contract state wins: after a state is stored whose nonce exceeds those stored
  for its address, the query for the latest state of that address returns it; and a state
  without selector never overwrites an older one.\<close>

theorem recent_state_is_latest:
  assumes "insert_state x st ds = (Ok (), ds')" "csm_address st = Some a" "safe_bytes x (a_address a) = Ok ab"
    and "\<forall>r \<in> set (ds_state ds). sr_address r = ab \<longrightarrow> sint (sr_nonce r) < sint (csm_nonce st)"
    and "dec_contract_state_marker x (enc_contract_state_marker x st) = Inr st"
  shows "query_recent_state x a None (Some 1) ds' = Ok [st] \<and>
     (csm_selector st = None \<longrightarrow> set (ds_state ds) \<subseteq> set (ds_state ds'))"
proof -
  obtain r where r: "ds_fault ds = None" "state_row_of x st = Ok r"
    "ds' = ds \<lparr> ds_state := filter (\<lambda>r'. \<not> state_conflict r' r) (ds_state ds) @ [r] \<rparr>"
    using assms(1) unfolding insert_state_Ok by blast
  have rr: "sr_address r = ab" "sr_nonce r = csm_nonce st" "sr_state r = enc_contract_state_marker x st"
    using state_row_of_Ok [OF r(2)] assms(2,3) by (auto simp: opt_address_safe_bytes_def result_simps)
  define old where "old = filter (\<lambda>r'. sr_address r' = ab \<and> \<not> state_conflict r' r) (ds_state ds)"
  have "order_desc sr_nonce (old @ [r]) = r # order_desc sr_nonce old"
    unfolding order_desc_def using assms(4) rr(2) by (intro sort_key_snoc_least) (auto simp: old_def)
  moreover have "filter (\<lambda>r'. sr_address r' = ab) (ds_state ds') = old @ [r]"
    by (simp add: r(3) rr(1) old_def conj_commute)
  ultimately have "query_recent_state x a None (Some 1) ds' = Ok [st]"
    using r(1,3) assms(3,5) rr(3)
    by (simp add: query_recent_state_def pool_def map_err_sqlx_def sql_limit_def proto_deserialize_def)
  moreover have "set (ds_state ds) \<subseteq> set (ds_state ds')" if "csm_selector st = None"
    using state_row_of_Ok [OF r(2)] that by (auto simp: r(3) state_conflict_def)
  ultimately show ?thesis by blast
qed

lemma insert_block_Ok:
  "insert_block x b ds = (Ok (), ds') \<longleftrightarrow> ds_fault ds = None \<and> (\<exists>r. block_row_of x b = Ok r \<and>
     br_hash r \<notin> br_hash ` set (ds_block ds) \<and> br_height r \<notin> br_height ` set (ds_block ds) \<and>
     ds' = ds \<lparr> ds_block := ds_block ds @ [r] \<rparr>)"
  by (auto simp: insert_block_def exec_eq_Ok result_simps tbl_insert_def split: if_splits)

lemma filter_key_le_1: "distinct (map k t) \<Longrightarrow> length (filter (\<lambda>r. k r = v) t) \<le> 1"
  by (induction t) (auto simp: filter_empty_conv image_iff)

lemma filter_block_le_1:
  assumes "store_wf ds" "hash \<noteq> None \<or> hgt \<noteq> None"
  shows "length (filter (\<lambda>r. (case hash of None \<Rightarrow> True | Some h \<Rightarrow> br_hash r = h) \<and>
     (case hgt of None \<Rightarrow> True | Some n \<Rightarrow> br_height r = n)) (ds_block ds)) \<le> 1" (is "length (filter ?p _) \<le> 1")
proof -
  have d: "distinct (map br_hash (ds_block ds))" "distinct (map br_height (ds_block ds))"
    using assms(1) by (simp_all add: store_wf_def tbl_wf_def)
  have mono: "length (filter p t) \<le> length (filter q t)" if "\<And>r. p r \<Longrightarrow> q r" for p q :: "block_row \<Rightarrow> bool" and t
    using that by (induction t) (auto simp: le_SucI)
  show ?thesis
  proof (cases hash)
    case (Some h)
    then have "length (filter ?p (ds_block ds)) \<le> length (filter (\<lambda>r. br_hash r = h) (ds_block ds))" by (intro mono) auto
    also have "\<dots> \<le> 1" by (rule filter_key_le_1 [OF d(1)])
    finally show ?thesis .
  next
    case None
    then obtain n where "hgt = Some n" using assms(2) by auto
    then have "length (filter ?p (ds_block ds)) \<le> length (filter (\<lambda>r. br_height r = n) (ds_block ds))" by (intro mono) auto
    also have "\<dots> \<le> 1" by (rule filter_key_le_1 [OF d(2)])
    finally show ?thesis .
  qed
qed

lemma error_message_neq:
  "error_i32 c \<noteq> error_i32 c' \<Longrightarrow> error_message x c m \<noteq> error_message x c' m'"
  by (auto simp: error_message_def error_msg_def)

lemma query_block_unique:
  assumes "store_wf ds" "ds_fault ds = None" "r \<in> set (ds_block ds)" "dec_block x (br_raw r) = Inr b"
    and "hash \<noteq> None \<or> hgt \<noteq> None" "hash = None \<or> hash = Some (br_hash r)" "hgt = None \<or> hgt = Some (br_height r)"
  shows "query_block_hash_height x hash hgt ds = Ok (Some b)"
proof -
  let ?l = "filter (\<lambda>r. (case hash of None \<Rightarrow> True | Some h \<Rightarrow> br_hash r = h) \<and>
     (case hgt of None \<Rightarrow> True | Some n \<Rightarrow> br_height r = n)) (ds_block ds)"
  have "r \<in> set ?l" using assms(3,6,7) by auto
  moreover have "length ?l \<le> 1" by (rule filter_block_le_1 [OF assms(1,5)])
  ultimately have "?l = [r]" by (cases ?l) auto
  then show ?thesis using assms(2,4,5)
    by (auto simp: query_block_hash_height_def pool_def map_err_sqlx_def sql_limit_def proto_deserialize_def)
qed

text \<open>A stored block is found by its hash, by its height and by both, every later block with
  its hash or its height is refused, and in a well-formed store the query never reports a
  corrupted table.\<close>

theorem stored_block_found:
  assumes "store_wf ds" "insert_block x b ds = (Ok (), ds')" "block_row_of x b = Ok r"
    and "dec_block x (enc_block x b) = Inr b"
  shows "query_block_hash_height x (Some (br_hash r)) None ds' = Ok (Some b) \<and>
     query_block_hash_height x None (Some (b_height b)) ds' = Ok (Some b) \<and>
     query_block_hash_height x (Some (br_hash r)) (Some (b_height b)) ds' = Ok (Some b) \<and>
     (\<forall>b'. b_height b' = b_height b \<longrightarrow> fst (insert_block x b' ds') \<noteq> Ok ()) \<and>
     (\<forall>h n m. query_block_hash_height x h n ds' \<noteq> Err (error_message x DataStoreInternalCorruption m))"
proof -
  have ds': "ds_fault ds' = None" "r \<in> set (ds_block ds')"
    using assms(2,3) unfolding insert_block_Ok by auto
  have wf: "store_wf ds'" using preservesD [OF insert_block_wf assms(1), of x b] assms(2) by simp
  have r: "br_height r = b_height b" "br_raw r = enc_block x b"
    using assms(3) by (auto simp: block_row_of_def result_simps)
  have "fst (insert_block x b' ds') \<noteq> Ok ()" if h: "b_height b' = b_height b" for b'
  proof
    assume "fst (insert_block x b' ds') = Ok ()"
    then obtain ds2 where "insert_block x b' ds' = (Ok (), ds2)" by (metis prod.collapse)
    then obtain r' where "block_row_of x b' = Ok r'" "br_height r' \<notin> br_height ` set (ds_block ds')"
      unfolding insert_block_Ok by auto
    moreover have "br_height r' = br_height r" using calculation(1) h r(1) by (auto simp: block_row_of_def result_simps)
    ultimately show False using ds'(2) by (metis imageI)
  qed
  moreover have "query_block_hash_height x h n ds' \<noteq> Err (error_message x DataStoreInternalCorruption m)" for h n m
    using filter_block_le_1 [OF wf, of h n] ds'(1)
    by (auto simp: query_block_hash_height_def pool_def map_err_sqlx_def sql_limit_def proto_deserialize_def
        result_simps error_message_neq lib_result_def split: list.splits sum.splits)
  moreover note query_block_unique [OF wf ds', of x b] assms(4) r
  ultimately show ?thesis by simp
qed

text \<open>The address balances keep one height only: after the balance of an address was stored, storing
  it for any other height fails on the primary key and changes nothing.\<close>

theorem address_block_single_height:
  assumes "insert_address_block x ab ds = (Ok (), ds')" "ab_address ab' = ab_address ab"
    and "ab_balance ab' \<noteq> None" "ab_hash ab' = Some g" "has_bytes g"
  shows "insert_address_block x ab' ds' =
     (Err (error_message x InternalDatabaseError (sql_unique_error x ''address_block'')), ds')"
proof -
  obtain a where a: "opt_address_safe_bytes x (ab_address ab) = Ok a" "ds_fault ds' = None"
    "a \<in> abr_address ` set (ds_address_block ds')"
    using assms(1) by (auto simp: insert_address_block_def exec_eq_Ok result_simps tbl_insert_def split: if_splits)
  obtain b where b: "ab_balance ab' = Some b" using assms(3) by auto
  have "hash_vec x g = Ok (vb g)" using assms(5) by (simp add: result_simps)
  then show ?thesis
    using a b assms(2,4) unfolding insert_address_block_def
    by (intro exec_Err) (simp add: pool_def map_err_sqlx_def sql_insert_def tbl_insert_def)
qed

text \<open>A value stored under a configuration key is read back, the other keys keep their values,
  and reading the key as text then fails, since the row was replaced as a whole.\<close>

theorem config_store_get:
  assumes "store_proto x enc k v ds = (Ok (), ds')" "dec (enc v) = Inr v"
  shows "get_maybe_proto x dec k ds' = Ok (Some v) \<and> get_proto x dec k ds' = Ok v \<and>
     (\<forall>k'. k' \<noteq> k \<longrightarrow> select_config_bytes x k' ds' = select_config_bytes x k' ds \<and>
        select_config x k' ds' = select_config x k' ds) \<and>
     select_config x k ds' = Err (error_msg x UnknownError ''value_data not found'' (sql_decode_error x ''value_data''))"
proof -
  have ds': "ds_fault ds = None"
    "ds' = ds \<lparr> ds_config := tbl_replace cr_key_name \<lparr> cr_key_name = k, cr_value_data = None, cr_value_bytes = Some (enc v) \<rparr> (ds_config ds) \<rparr>"
    using assms(1) by (auto simp: store_proto_def insert_update_bytes_def config_replace_def exec_eq_Ok result_simps)
  then show ?thesis using assms(2)
    by (simp add: select_config_bytes_def get_maybe_proto_def get_proto_def select_config_def pool_def map_err_sqlx_def
        tbl_lookup_replace proto_deserialize_def result_error_info_def)
qed

text \<open>Resolving the code of an address does not look at the address: any two resolutions over
  the same store return the same code output and the same transaction.\<close>

theorem resolve_code_ignores_address:
  assumes "resolve_code x a ds = Ok ra" "resolve_code x b ds = Ok rb"
  shows "rc_utxo_entry ra = rc_utxo_entry rb \<and> rc_transaction ra = rc_transaction rb"
proof -
  have "code_utxo x a True ds = code_utxo x b True ds" by (simp add: code_utxo_def)
  with assms show ?thesis by (auto simp: resolve_code_def result_simps split: option.splits)
qed

section \<open>Witnesses\<close>

definition sample_state :: "i64 \<Rightarrow> ContractStateMarker" where
  "sample_state n = \<lparr> csm_address = Some sample_address, csm_state = bytes_data [1], csm_selector = None,
     csm_transaction_marker = Some (hash_new [2]), csm_nonce = n, csm_time = 5 \<rparr>"

definition sample_codec :: externals where
  "sample_codec = sample_ext \<lparr> dec_contract_state_marker := \<lambda>_. Inr (sample_state 1),
     dec_block := \<lambda>_. Inr \<lparr> b_merkle_root = None, b_transactions = [], b_struct_metadata = struct_metadata 5,
       b_previous_block_hash = None, b_metadata = None, b_height = 3 \<rparr> \<rparr>"

theorem recent_state_is_latest_witness:
  "\<exists>ds'. insert_state sample_codec (sample_state 1) empty_store = (Ok (), ds') \<and>
     query_recent_state sample_codec sample_address None (Some 1) ds' = Ok [sample_state 1]"
proof -
  obtain ab where a: "csm_address (sample_state 1) = Some sample_address" "safe_bytes sample_codec (a_address sample_address) = Ok ab"
    by (simp add: sample_state_def sample_address_def new_raw_def)
  obtain r where r: "state_row_of sample_codec (sample_state 1) = Ok r"
    using a by (simp add: state_row_of_def opt_address_safe_bytes_def sample_state_def bytes_data_def bytes_data_from_def
        bytes_data_calculate_hash_def hash_safe_bytes_vb) (simp add: hash_new_def)
  have i: "insert_state sample_codec (sample_state 1) empty_store = (Ok (), empty_store \<lparr> ds_state := [r] \<rparr>)"
    unfolding insert_state_Ok using r by (auto simp: empty_store_def)
  have d: "dec_contract_state_marker sample_codec (enc_contract_state_marker sample_codec (sample_state 1)) = Inr (sample_state 1)"
    by (simp add: sample_codec_def)
  have "\<forall>r \<in> set (ds_state empty_store). sr_address r = ab \<longrightarrow> sint (sr_nonce r) < sint (csm_nonce (sample_state 1))"
    by (simp add: empty_store_def)
  from recent_state_is_latest [OF i a this d] i show ?thesis by blast
qed

definition sample_block :: Block where
  "sample_block = \<lparr> b_merkle_root = None, b_transactions = [], b_struct_metadata = struct_metadata 5,
     b_previous_block_hash = None, b_metadata = None, b_height = 3 \<rparr>"

theorem stored_block_found_witness:
  "\<exists>ds' (r :: block_row). insert_block sample_codec sample_block empty_store = (Ok (), ds') \<and>
     query_block_hash_height sample_codec (Some (br_hash r)) (Some 3) ds' = Ok (Some sample_block)"
proof -
  obtain r where r: "block_row_of sample_codec sample_block = Ok r"
    by (simp add: block_row_of_def block_hash_or_def sample_block_def struct_metadata_def block_time_def digest_def hash_new_def)
  have i: "insert_block sample_codec sample_block empty_store = (Ok (), empty_store \<lparr> ds_block := [r] \<rparr>)"
    unfolding insert_block_Ok using r by (auto simp: empty_store_def)
  have d: "dec_block sample_codec (enc_block sample_codec sample_block) = Inr sample_block"
    by (simp add: sample_codec_def sample_block_def)
  have "b_height sample_block = 3" by (simp add: sample_block_def)
  then have "query_block_hash_height sample_codec (Some (br_hash r)) (Some 3) (empty_store \<lparr> ds_block := [r] \<rparr>) = Ok (Some sample_block)"
    using stored_block_found [OF store_wf_empty i r d] by simp
  with i show ?thesis by blast
qed

definition sample_address_block :: "i64 \<Rightarrow> AddressBlock" where
  "sample_address_block h = \<lparr> ab_address = Some sample_address, ab_balance = Some (currency_amount_from 10),
     ab_height = h, ab_hash = Some (hash_new [4]) \<rparr>"

theorem address_block_single_height_witness:
  "\<exists>ds'. insert_address_block sample_ext (sample_address_block 1) empty_store = (Ok (), ds') \<and>
     insert_address_block sample_ext (sample_address_block 2) ds' =
       (Err (error_message sample_ext InternalDatabaseError (sql_unique_error sample_ext ''address_block'')), ds')"
proof -
  have "\<exists>ds'. insert_address_block sample_ext (sample_address_block 1) empty_store = (Ok (), ds')"
    by (simp add: insert_address_block_def exec_def pool_def map_err_sqlx_def sample_address_block_def
        opt_address_safe_bytes_def sample_address_def new_raw_def sql_insert_def tbl_insert_def)
       (simp add: empty_store_def)
  then obtain ds' where i: "insert_address_block sample_ext (sample_address_block 1) empty_store = (Ok (), ds')" by blast
  show ?thesis
    using i address_block_single_height [OF i, of "sample_address_block 2" "hash_new [4]"]
    by (auto simp: sample_address_block_def)
qed

theorem config_store_get_witness:
  "\<exists>ds'. store_proto sample_ext (\<lambda>v. v) ''genesis'' [1] empty_store = (Ok (), ds') \<and>
     get_maybe_proto sample_ext Inr ''genesis'' ds' = Ok (Some [1])"
proof -
  obtain ds' where i: "store_proto sample_ext (\<lambda>v. v) ''genesis'' [1] empty_store = (Ok (), ds')"
    by (simp add: store_proto_def insert_update_bytes_def config_replace_def exec_def pool_def map_err_sqlx_def)
  show ?thesis using i config_store_get [OF i, of Inr] by blast
qed

definition code_ext :: externals where
  "code_ext = sample_ext \<lparr> dec_utxo_entry := \<lambda>_. Inr (sample_entry_at 0) \<rparr>"

definition code_store :: data_store where
  "code_store = empty_store \<lparr> ds_utxo := [(sample_row_at sample_ext 0) \<lparr> ur_has_code := True \<rparr>] \<rparr>"

lemma resolve_sample_code: "\<exists>r. resolve_code code_ext (new_raw v) code_store = Ok r \<and> rc_utxo_entry r = Some (sample_entry_at 0)"
proof -
  have s: "ds_fault code_store = None" "ds_transactions code_store = []" "ds_state code_store = []"
    "ds_utxo code_store = [(sample_row_at sample_ext 0) \<lparr> ur_has_code := True \<rparr>]"
    by (simp_all add: code_store_def empty_store_def)
  have e: "ue_utxo_id (sample_entry_at 0) = Some (utxo_id_new (hash_new [7]) 0)"
    by (simp add: sample_entry_at_def from_output_new_def)
  have d: "dec_utxo_entry code_ext bs = Inr (sample_entry_at 0)" for bs by (simp add: code_ext_def)
  have c: "code_utxo code_ext (new_raw v) True code_store = Ok (Some (sample_entry_at 0))"
    by (simp add: code_utxo_def pool_def map_err_sqlx_def s proto_deserialize_def d)
  have q: "query_maybe_transaction code_ext (hash_new [7]) code_store = Ok None"
    by (simp add: query_maybe_transaction_def pool_def map_err_sqlx_def s get_def)
  have t: "query_recent_state code_ext (new_raw v) None (Some 1) code_store = Ok []"
    by (simp add: query_recent_state_def pool_def map_err_sqlx_def s sql_limit_def order_desc_def new_raw_def)
  show ?thesis
    by (simp add: resolve_code_def c e utxo_id_new_def resolve_transaction_hash_def q t)
qed

theorem resolve_code_ignores_address_witness:
  "\<exists>ra rb. resolve_code code_ext sample_address code_store = Ok ra \<and>
     resolve_code code_ext (new_raw [9]) code_store = Ok rb \<and>
     rc_utxo_entry ra = rc_utxo_entry rb \<and> rc_utxo_entry rb = Some (sample_entry_at 0)"
proof -
  obtain ra rb where "resolve_code code_ext sample_address code_store = Ok ra"
    "resolve_code code_ext (new_raw [9]) code_store = Ok rb" "rc_utxo_entry rb = Some (sample_entry_at 0)"
    using resolve_sample_code sample_address_def by metis
  with resolve_code_ignores_address [of code_ext sample_address code_store ra "new_raw [9]" rb] show ?thesis by blast
qed

end
