(* ===== verification/Peers.thy ===== *)
theory Peers
  imports Aux_Stores
begin

text \<open>
  The peer and node tables (\<open>data/src/peer.rs\<close>), the metadata of a node
  (\<open>schema/src/peers.rs\<close>) and the distance that assigns hashes to nodes
  (\<open>schema/src/util/xor_distance.rs\<close>).  The current time is an argument.
\<close>

section \<open>Distances\<close>

definition sum_bytes :: "bytes \<Rightarrow> i64" where
  "sum_bytes bs = sum_list (map ucast bs)"

definition xor_bytes :: "bytes \<Rightarrow> bytes \<Rightarrow> bytes" where
  "xor_bytes v1 v2 = map (\<lambda>(x1, x2). xor x1 x2) (zip v1 v2)"

definition xor_distance_vec :: "bytes \<Rightarrow> bytes \<Rightarrow> i64" where
  "xor_distance_vec v1 v2 = sum_bytes (xor_bytes v1 v2)"

definition xorf_conv_distance :: "externals \<Rightarrow> bytes \<Rightarrow> bytes \<Rightarrow> i64 rg_result" where
  "xorf_conv_distance x query_hash peer_marker =
     and_then (hash_vec x (digest x (query_hash @ peer_marker))) (\<lambda>merged.
     and_then (hash_vec x (digest x (peer_marker @ query_hash))) (\<lambda>merged2.
     Ok (sum_bytes (xor_bytes merged merged2))))"

definition xorfc_hash :: "externals \<Rightarrow> Hash \<Rightarrow> PublicKey \<Rightarrow> i64 rg_result" where
  "xorfc_hash x query_hash pk =
     and_then (hash_vec x query_hash) (\<lambda>q.
     and_then (expect ''bytes'' (public_key_bytes x pk)) (\<lambda>pk_bytes.
     xorf_conv_distance x q pk_bytes))"

text \<open>The subset of nodes for a key, nearest first.\<close>

definition xorf_conv_distance_subset ::
    "externals \<Rightarrow> (PartitionInfo \<Rightarrow> i64 option) \<Rightarrow> bytes \<Rightarrow> NodeMetadata list \<Rightarrow> NodeMetadata list rg_result" where
  "xorf_conv_distance_subset x partition_func other nodes =
     and_then (try_map (\<lambda>(p, n). and_then (xorf_conv_distance x other p) (\<lambda>d. Ok (d, n)))
       (List.map_filter (\<lambda>n. map_option (\<lambda>b. (bd_value b, n)) (Option.bind (nm_public_key n) pk_bytes)) nodes)) (\<lambda>ds.
     Ok (map snd (sort_key (\<lambda>(p, n). sint p)
       (filter (\<lambda>(p, n). case Option.bind (nm_partition_info n) partition_func of
          Some d \<Rightarrow> sint d < sint p | None \<Rightarrow> True) ds))))"

section \<open>Node metadata\<close>

definition hash_in_range ::
    "externals \<Rightarrow> (PartitionInfo \<Rightarrow> i64 option) \<Rightarrow> Hash \<Rightarrow> NodeMetadata \<Rightarrow> bool rg_result" where
  "hash_in_range x f h n = (case Option.bind (nm_partition_info n) f of
     Some d \<Rightarrow> and_then (case nm_public_key n of Some pk \<Rightarrow> Ok pk | None \<Rightarrow> Panic ''pk'') (\<lambda>pk.
       and_then (xorfc_hash x h pk) (\<lambda>r. Ok (sint r < sint d)))
   | None \<Rightarrow> Ok True)"

definition tx_in_range :: "externals \<Rightarrow> Hash \<Rightarrow> NodeMetadata \<Rightarrow> bool rg_result" where
  "tx_in_range x h n = hash_in_range x pai_transaction_hash h n"

definition node_public_key_bytes :: "externals \<Rightarrow> NodeMetadata \<Rightarrow> bytes rg_result" where
  "node_public_key_bytes x n =
     and_then (safe_get x (nm_public_key n)) (\<lambda>k. and_then (safe_get x (pk_bytes k)) (\<lambda>y. Ok (bd_value y)))"

definition port_or :: "NetworkEnvironment \<Rightarrow> NodeMetadata \<Rightarrow> 16 word" where
  "port_or network n = (case Option.bind (nm_transport_info n) ti_port_offset of
     Some p \<Rightarrow> ucast p | None \<Rightarrow> ucast (ucast (default_port_offset network) :: i64))"

definition transport_external_address :: "externals \<Rightarrow> TransportInfo \<Rightarrow> string rg_result" where
  "transport_external_address x t = safe_get_msg x ''No external address''
     (case ti_external_host t of Some h \<Rightarrow> Some h | None \<Rightarrow> ti_external_ipv4 t)"

definition external_address :: "externals \<Rightarrow> NodeMetadata \<Rightarrow> string rg_result" where
  "external_address x n = and_then (safe_get_msg x ''Missing transport info'' (nm_transport_info n))
     (transport_external_address x)"

definition nmd_pk :: "externals \<Rightarrow> PeerNodeInfo \<Rightarrow> PublicKey option" where
  "nmd_pk x pni = Option.bind (pni_latest_node_transaction pni) (\<lambda>t.
     case node_metadata x t of Ok n \<Rightarrow> nm_public_key n | _ \<Rightarrow> None)"

definition public_keys :: "externals \<Rightarrow> PeerNodeInfo \<Rightarrow> PublicKey list" where
  "public_keys x pni =
     (case pni_latest_node_transaction pni of
        Some t \<Rightarrow> (case peer_data x t of
          Ok p \<Rightarrow> List.map_filter nm_public_key (pm_node_metadata p) | _ \<Rightarrow> [])
      | None \<Rightarrow> []) @
     (case nmd_pk x pni of Some pk \<Rightarrow> [pk] | None \<Rightarrow> [])"

section \<open>Queries of the peer tables\<close>

definition nodes_tx :: "externals \<Rightarrow> data_store \<Rightarrow> Transaction list rg_result" where
  "nodes_tx x ds = and_then (pool x ds) (\<lambda>_.
     try_map (\<lambda>r. proto_deserialize x (dec_transaction x) (nr_tx r)) (ds_nodes ds))"

definition query_peer_id_tx :: "externals \<Rightarrow> PeerId \<Rightarrow> data_store \<Rightarrow> Transaction option rg_result" where
  "query_peer_id_tx x peer_id ds =
     and_then (pool x ds) (\<lambda>_.
     and_then (safe_get x (pid_peer_id peer_id)) (\<lambda>k.
     and_then (safe_bytes x (pk_bytes k)) (\<lambda>v.
     case tbl_lookup per_id (ds_peers ds) v of
       Some r \<Rightarrow> and_then (proto_deserialize x (dec_transaction x) (per_tx r)) (\<lambda>t. Ok (Some t))
     | None \<Rightarrow> Ok None)))"

definition peer_info_of :: "externals \<Rightarrow> data_store \<Rightarrow> Transaction \<Rightarrow> PeerNodeInfo list rg_result" where
  "peer_info_of x ds n =
     and_then (node_metadata x n) (\<lambda>nmd.
     case nm_peer_id nmd of
       None \<Rightarrow> Ok []
     | Some pid \<Rightarrow> and_then (query_peer_id_tx x pid ds) (\<lambda>tx. case tx of
         Some t \<Rightarrow> Ok [\<lparr> pni_latest_peer_transaction = Some t, pni_latest_node_transaction = Some n,
                         pni_dynamic_node_metadata = None \<rparr>]
       | None \<Rightarrow> Ok []))"

definition all_peers_info :: "externals \<Rightarrow> data_store \<Rightarrow> PeerNodeInfo list rg_result" where
  "all_peers_info x ds =
     and_then (nodes_tx x ds) (\<lambda>nodes. and_then (try_map (peer_info_of x ds) nodes) (\<lambda>rs. Ok (concat rs)))"

definition DAY_MILLIS :: i64 where
  "DAY_MILLIS = 86400000"

definition active_cutoff :: "i64 \<Rightarrow> i64 option \<Rightarrow> i64" where
  "active_cutoff now delay = now - (case delay of Some d \<Rightarrow> d | None \<Rightarrow> DAY_MILLIS)"

definition active_rows :: "i64 \<Rightarrow> i64 option \<Rightarrow> data_store \<Rightarrow> node_row list" where
  "active_rows now delay ds = filter (\<lambda>r. sint (active_cutoff now delay) < sint (nr_last_seen r)) (ds_nodes ds)"

definition active_nodes :: "externals \<Rightarrow> i64 \<Rightarrow> i64 option \<Rightarrow> data_store \<Rightarrow> PublicKey list rg_result" where
  "active_nodes x now delay ds =
     and_then (pool x ds) (\<lambda>_.
     try_map (\<lambda>r. public_key_validate x (public_key_from_bytes (nr_public_key r))) (active_rows now delay ds))"

record PeerIdNode =
  pin_peer_id :: PeerId
  pin_public_key :: PublicKey

definition active_nodes_ids :: "externals \<Rightarrow> i64 \<Rightarrow> i64 option \<Rightarrow> data_store \<Rightarrow> PeerIdNode list rg_result" where
  "active_nodes_ids x now delay ds =
     and_then (pool x ds) (\<lambda>_.
     Ok (map (\<lambda>r. \<lparr> pin_peer_id = peer_id_from_bytes (nr_peer_id r),
                    pin_public_key = public_key_from_bytes (nr_public_key r) \<rparr>) (active_rows now delay ds)))"

definition active_node_info :: "externals \<Rightarrow> i64 \<Rightarrow> i64 option \<Rightarrow> data_store \<Rightarrow> Transaction list rg_result" where
  "active_node_info x now delay ds =
     and_then (pool x ds) (\<lambda>_.
     try_map (\<lambda>r. proto_deserialize x (dec_transaction x) (nr_tx r)) (active_rows now delay ds))"

definition active_node_metadata :: "externals \<Rightarrow> i64 \<Rightarrow> i64 option \<Rightarrow> data_store \<Rightarrow> NodeMetadata list rg_result" where
  "active_node_metadata x now delay ds =
     and_then (active_node_info x now delay ds) (\<lambda>txs.
     Ok (List.map_filter (\<lambda>t. case node_metadata x t of Ok n \<Rightarrow> Some n | _ \<Rightarrow> None) txs))"

definition select_gossip_peers :: "externals \<Rightarrow> i64 \<Rightarrow> Transaction \<Rightarrow> data_store \<Rightarrow> PublicKey list rg_result" where
  "select_gossip_peers x now tx ds = active_nodes x now None ds"

definition peers_near ::
    "externals \<Rightarrow> i64 \<Rightarrow> Hash \<Rightarrow> (PartitionInfo \<Rightarrow> i64 option) \<Rightarrow> data_store \<Rightarrow> PublicKey list rg_result" where
  "peers_near x now hash part_func ds =
     and_then (active_node_info x now None ds) (\<lambda>infos.
     and_then (try_map (\<lambda>p. case node_metadata x p of
         Ok n \<Rightarrow> and_then (hash_in_range x part_func hash n) (\<lambda>b. Ok (if b then nm_public_key n else None))
       | Err _ \<Rightarrow> Ok None
       | Panic m \<Rightarrow> Panic m) infos) (\<lambda>ks.
     Ok (List.map_filter (\<lambda>k. k) ks)))"

definition peer_id_for_node_pk :: "externals \<Rightarrow> PublicKey \<Rightarrow> data_store \<Rightarrow> PeerId option rg_result" where
  "peer_id_for_node_pk x public_key ds =
     and_then (pool x ds) (\<lambda>_.
     and_then (public_key_validate x public_key) (\<lambda>k.
     and_then (public_key_bytes x k) (\<lambda>v.
     Ok (map_option (\<lambda>r. peer_id_from_bytes (nr_peer_id r)) (tbl_lookup nr_public_key (ds_nodes ds) v)))))"

definition peer_id_count_node_pk :: "externals \<Rightarrow> PublicKey \<Rightarrow> data_store \<Rightarrow> i32 rg_result" where
  "peer_id_count_node_pk x public_key ds =
     and_then (pool x ds) (\<lambda>_.
     and_then (public_key_validate x public_key) (\<lambda>k.
     and_then (public_key_bytes x k) (\<lambda>v.
     Ok (sql_count (filter (\<lambda>r. nr_public_key r = v) (ds_nodes ds))))))"

definition query_public_key_node :: "externals \<Rightarrow> PublicKey \<Rightarrow> data_store \<Rightarrow> Transaction option rg_result" where
  "query_public_key_node x public ds =
     and_then (pool x ds) (\<lambda>_.
     and_then (public_key_validate x public) (\<lambda>k.
     and_then (public_key_bytes x k) (\<lambda>v.
     case tbl_lookup nr_public_key (ds_nodes ds) v of
       Some r \<Rightarrow> and_then (proto_deserialize x (dec_transaction x) (nr_tx r)) (\<lambda>t. Ok (Some t))
     | None \<Rightarrow> Ok None)))"

definition query_public_key_metadata :: "externals \<Rightarrow> PublicKey \<Rightarrow> data_store \<Rightarrow> NodeMetadata option rg_result" where
  "query_public_key_metadata x public ds =
     and_then (query_public_key_node x public ds) (\<lambda>v.
     Ok (Option.bind v (\<lambda>t. case node_metadata x t of Ok n \<Rightarrow> Some n | _ \<Rightarrow> None)))"

definition query_nodes_peer_node_info :: "externals \<Rightarrow> PublicKey \<Rightarrow> data_store \<Rightarrow> PeerNodeInfo option rg_result" where
  "query_nodes_peer_node_info x public ds =
     and_then (query_public_key_node x public ds) (\<lambda>tx.
     let pid = Option.bind tx (\<lambda>t. case node_metadata x t of Ok n \<Rightarrow> nm_peer_id n | _ \<Rightarrow> None) in
     case (tx, pid) of
       (Some t, Some p) \<Rightarrow> and_then (query_peer_id_tx x p ds) (\<lambda>q. Ok (map_option (\<lambda>pt.
           \<lparr> pni_latest_peer_transaction = Some pt, pni_latest_node_transaction = Some t,
             pni_dynamic_node_metadata = None \<rparr>) q))
     | _ \<Rightarrow> Ok None)"

definition query_peer_id_info :: "externals \<Rightarrow> PeerId \<Rightarrow> data_store \<Rightarrow> PeerIdInfo option rg_result" where
  "query_peer_id_info x peer_id ds =
     and_then (query_peer_id_tx x peer_id ds) (\<lambda>tx. case tx of
       None \<Rightarrow> Ok None
     | Some t \<Rightarrow>
         and_then (peer_data x t) (\<lambda>pd.
         and_then (try_map (\<lambda>nmd. case nm_public_key nmd of
             Some pk \<Rightarrow> query_public_key_node x pk ds | None \<Rightarrow> Ok None) (pm_node_metadata pd)) (\<lambda>vs.
         Ok (Some \<lparr> pii_latest_peer_transaction = Some t,
           pii_peer_node_info = map (\<lambda>r. \<lparr> pni_latest_peer_transaction = Some t,
             pni_latest_node_transaction = Some r, pni_dynamic_node_metadata = None \<rparr>)
             (List.map_filter (\<lambda>v. v) vs) \<rparr>))))"

definition all_peers_tx :: "externals \<Rightarrow> data_store \<Rightarrow> Transaction list rg_result" where
  "all_peers_tx x ds = and_then (pool x ds) (\<lambda>_.
     try_map (\<lambda>r. proto_deserialize x (dec_transaction x) (per_tx r)) (ds_peers ds))"

definition all_peers :: "externals \<Rightarrow> data_store \<Rightarrow> PeerMetadata list rg_result" where
  "all_peers x ds = and_then (all_peers_tx x ds) (try_map (peer_data x))"

section \<open>Writes of the peer tables\<close>

definition remove_peer_id :: "externals \<Rightarrow> PeerId \<Rightarrow> (data_store, unit) action" where
  "remove_peer_id x p = exec (\<lambda>ds.
     and_then (pool x ds) (\<lambda>_.
     and_then (opt_public_key_safe_bytes x (pid_peer_id p)) (\<lambda>v.
     Ok (ds \<lparr> ds_peers := snd (tbl_delete (\<lambda>r. per_id r = v) (ds_peers ds)) \<rparr>))))"

definition update_last_seen :: "externals \<Rightarrow> i64 \<Rightarrow> PublicKey \<Rightarrow> (data_store, unit) action" where
  "update_last_seen x now node = exec (\<lambda>ds.
     and_then (query_public_key_node x node ds) (\<lambda>res.
     if res = None then Err (error_info x ''Missing node in database'') else
     and_then (pool x ds) (\<lambda>_.
     and_then (safe_bytes x (pk_bytes node)) (\<lambda>bs.
     Ok (ds \<lparr> ds_nodes := map (\<lambda>r. if nr_public_key r = bs then r \<lparr> nr_last_seen := now \<rparr> else r) (ds_nodes ds) \<rparr>)))))"

definition insert_peer :: "externals \<Rightarrow> Transaction \<Rightarrow> (data_store, unit) action" where
  "insert_peer x tx = exec (\<lambda>ds.
     and_then (peer_data x tx) (\<lambda>pd.
     and_then (hash_vec x (hash_or x tx)) (\<lambda>_.
     and_then (pool x ds) (\<lambda>_.
     and_then (safe_get x (pm_peer_id pd)) (\<lambda>p.
     and_then (safe_get x (pid_peer_id p)) (\<lambda>k.
     and_then (public_key_bytes x k) (\<lambda>pid.
     Ok (ds \<lparr> ds_peers := tbl_replace per_id \<lparr> per_id = pid, per_tx = enc_transaction x tx \<rparr> (ds_peers ds) \<rparr>))))))))"

definition insert_node :: "externals \<Rightarrow> i64 \<Rightarrow> Transaction \<Rightarrow> (data_store, unit) action" where
  "insert_node x now tx = exec (\<lambda>ds.
     and_then (pool x ds) (\<lambda>_.
     and_then (node_metadata x tx) (\<lambda>nmd.
     and_then (safe_get x (nm_public_key nmd)) (\<lambda>public_key.
     and_then (public_key_validate x public_key) (\<lambda>_.
     and_then (public_key_bytes x public_key) (\<lambda>bs.
     and_then (safe_get x (nm_peer_id nmd)) (\<lambda>p.
     and_then (safe_get x (pid_peer_id p)) (\<lambda>k.
     and_then (safe_bytes x (pk_bytes k)) (\<lambda>pid.
     Ok (ds \<lparr> ds_nodes := tbl_replace nr_public_key
       \<lparr> nr_public_key = bs, nr_peer_id = pid, nr_status = [], nr_last_seen = now, nr_tx = enc_transaction x tx \<rparr>
       (ds_nodes ds) \<rparr>))))))))))"

definition add_peer_new :: "externals \<Rightarrow> i64 \<Rightarrow> PeerNodeInfo \<Rightarrow> PublicKey \<Rightarrow> (data_store, unit) action" where
  "add_peer_new x now peer_info self_key =
     (if self_key \<in> set (public_keys x peer_info)
      then pure (Err (error_info x (''Self key found in peer info '' @ json_or x (json_peer_node_info x peer_info))))
      else
        seq_do (pure (safe_get_msg x ''Add peer failed due to missing latest peer transaction''
          (pni_latest_peer_transaction peer_info))) (\<lambda>pt.
        seq_do (insert_peer x pt) (\<lambda>_.
        seq_do (pure (safe_get_msg x ''Missing peer info latest node tx''
          (pni_latest_node_transaction peer_info))) (\<lambda>nt.
        insert_node x now nt))))"

definition delete_node :: "externals \<Rightarrow> PublicKey \<Rightarrow> (data_store, unit) action" where
  "delete_node x p0 = exec (\<lambda>ds.
     and_then (pool x ds) (\<lambda>_.
     and_then (public_key_validate x p0) (\<lambda>k.
     and_then (public_key_bytes x k) (\<lambda>v.
     Ok (ds \<lparr> ds_nodes := snd (tbl_delete (\<lambda>r. nr_public_key r = v) (ds_nodes ds)) \<rparr>)))))"

definition remove_node :: "externals \<Rightarrow> PublicKey \<Rightarrow> (data_store, unit) action" where
  "remove_node x p0 =
     seq_do (query (peer_id_for_node_pk x p0)) (\<lambda>pid. case pid of
       None \<Rightarrow> pure (Ok ())
     | Some p \<Rightarrow>
         seq_do (delete_node x p0) (\<lambda>_.
         seq_do (query (peer_id_count_node_pk x p0)) (\<lambda>c.
         if 0 < sint c then remove_peer_id x p else pure (Ok ()))))"

section \<open>The tables stay well formed\<close>

lemma map_last_seen:
  "map nr_public_key (map (\<lambda>r. if c r then r \<lparr> nr_last_seen := now \<rparr> else r) t) = map nr_public_key t"
  by (induction t) auto

lemma update_last_seen_wf [preserves_rules]: "preserves store_wf (update_last_seen x now k)"
  unfolding update_last_seen_def
  by (rule preserves_exec) (auto simp: store_wf_def result_simps tbl_wf_def map_last_seen simp del: map_map split: if_splits)

lemma peer_writes_wf [preserves_rules]:
  "preserves store_wf (remove_peer_id x p)" "preserves store_wf (insert_peer x tx)"
  "preserves store_wf (insert_node x now tx)" "preserves store_wf (delete_node x k)"
  unfolding remove_peer_id_def insert_peer_def insert_node_def delete_node_def
  by (rule preserves_exec, auto simp: store_wf_def result_simps)+

lemma add_peer_new_wf [preserves_rules]: "preserves store_wf (add_peer_new x now pni k)"
  unfolding add_peer_new_def by (intro preserves_rules)

lemma remove_node_wf [preserves_rules]: "preserves store_wf (remove_node x k)"
  unfolding remove_node_def by (intro preserves_rules)

section \<open>Properties of the distance\<close>

lemma sum_bytes_nat:
  "length bs * 255 < 2 ^ 63 \<Longrightarrow> unat (sum_bytes bs) \<le> length bs * 255 \<and> unat (sum_bytes bs) = sum_list (map unat bs)"
proof (induction bs)
  case (Cons b bs)
  then have ih: "unat (sum_bytes bs) \<le> length bs * 255" "unat (sum_bytes bs) = sum_list (map unat bs)" by auto
  have b: "unat b < 256" by (rule unat_u8_less)
  have "unat (ucast b + sum_bytes bs :: i64) = unat b + unat (sum_bytes bs)"
    using ih(1) b Cons.prems by (simp add: unat_word_ariths unsigned_ucast_eq take_bit_nat_eq_self)
  with ih b show ?case by (simp add: sum_bytes_def)
qed (simp add: sum_bytes_def)

lemma sint_small: "unat (w :: i64) < 2 ^ 63 \<Longrightarrow> sint w = int (unat w)"
proof -
  assume "unat w < 2 ^ 63"
  then have "int (unat w) < int (2 ^ 63)" by (simp only: of_nat_less_iff)
  then have "uint w < 2 ^ 63" by simp
  then have "signed_take_bit 63 (uint w) = uint w"
    by (intro signed_take_bit_int_eq_self order.trans [OF _ uint_ge_0]) simp_all
  then show ?thesis by (simp add: sint_uint)
qed

lemma sint_bounds: "unat (w :: i64) \<le> n \<Longrightarrow> n < 2 ^ 63 \<Longrightarrow> 0 \<le> sint w \<and> sint w \<le> int n"
  using sint_small [of w] by (metis of_nat_0_le_iff of_nat_le_iff order.strict_trans1)

lemma length_xor_bytes [simp]: "length (xor_bytes a b) = min (length a) (length b)"
  by (simp add: xor_bytes_def)

lemma xor_bytes_commute: "xor_bytes a b = xor_bytes b a"
  by (induction a arbitrary: b) (auto simp: xor_bytes_def zip_Cons1 xor.commute split: list.split)

lemma xorf_conv_distance_eq:
  "xorf_conv_distance x q m = Ok (sum_bytes (xor_bytes (vb (digest x (q @ m))) (vb (digest x (m @ q)))))"
  by (simp add: xorf_conv_distance_def)

text \<open>The distance between a hash and a node always exists, is symmetric in its arguments, and lies
  between 0 and 8160, so the sum of the bytes never overflows.\<close>

theorem xorf_conv_distance_bounds:
  "\<exists>d. xorf_conv_distance x q m = Ok d \<and> xorf_conv_distance x m q = Ok d \<and> 0 \<le> sint d \<and> sint d \<le> 8160"
proof -
  let ?v = "xor_bytes (vb (digest x (q @ m))) (vb (digest x (m @ q)))"
  have "unat (sum_bytes ?v) \<le> 8160" using sum_bytes_nat [of ?v] by simp
  moreover have "xor_bytes (vb (digest x (m @ q))) (vb (digest x (q @ m))) = ?v" by (rule xor_bytes_commute)
  ultimately show ?thesis unfolding xorf_conv_distance_eq
    using sint_bounds [of "sum_bytes ?v" 8160] by (simp del: vb_digest)
qed

text \<open>The two ways the code assigns a hash to a node by its partition limit exclude one another:
  a node that is in range for a hash is not in the subset selected for the bytes of that
  hash, and a node whose distance is beyond its limit is selected.\<close>

theorem partition_filters_disagree:
  assumes "nm_public_key n = Some pk" "pk_bytes pk = Some b" "Option.bind (nm_partition_info n) f = Some d"
    and "has_bytes h"
  shows "\<exists>r ns. hash_in_range x f h n = Ok r \<and> xorf_conv_distance_subset x f (vb h) [n] = Ok ns \<and>
     (r \<longrightarrow> ns = []) \<and> (xorf_conv_distance x (vb h) (bd_value b) \<noteq> Ok d \<longrightarrow> (r \<longleftrightarrow> ns = []))"
proof -
  obtain e where e: "xorf_conv_distance x (vb h) (bd_value b) = Ok e" by (simp add: xorf_conv_distance_eq)
  have hv: "hash_vec x h = Ok (vb h)" using assms(4) by (simp add: result_simps)
  have "public_key_bytes x pk = Ok (bd_value b)" using assms(2) by (simp add: public_key_bytes_def safe_bytes_def)
  then have r: "hash_in_range x f h n = Ok (sint e < sint d)"
    using assms hv e by (simp add: hash_in_range_def xorfc_hash_def)
  have "xorf_conv_distance_subset x f (vb h) [n] = Ok (if sint d < sint e then [n] else [])"
    using assms e by (simp add: xorf_conv_distance_subset_def List.map_filter_simps)
  moreover have "sint e \<noteq> sint d" if "e \<noteq> d" using that signed_word_eqI by blast
  ultimately show ?thesis using r e by auto
qed

lemma public_key_validate_Ok [result_simps]:
  "public_key_validate x pk = Ok k \<longleftrightarrow> k = pk \<and> (\<exists>l. to_lib_public_key x pk = Ok l)"
  by (auto simp: public_key_validate_def result_simps)

lemma delete_node_Ok:
  "delete_node x pk ds = (Ok (), ds') \<longleftrightarrow> ds_fault ds = None \<and> (\<exists>l. to_lib_public_key x pk = Ok l) \<and>
     (\<exists>v. public_key_bytes x pk = Ok v \<and> ds' = ds \<lparr> ds_nodes := filter (\<lambda>q. nr_public_key q \<noteq> v) (ds_nodes ds) \<rparr>)"
  by (auto simp: delete_node_def exec_eq_Ok result_simps tbl_delete_def)

lemma count_after_delete:
  assumes "delete_node x pk ds = (Ok (), ds')"
  shows "peer_id_count_node_pk x pk ds' = Ok 0"
  using assms unfolding delete_node_Ok
  by (auto simp: peer_id_count_node_pk_def pool_def map_err_sqlx_def public_key_validate_def sql_count_def filter_empty_conv)

lemma delete_node_peers: "ds_peers (snd (delete_node x pk ds)) = ds_peers ds"
  by (auto simp: delete_node_def exec_def result_simps split: result.split)

text \<open>Removing a node never removes its peer: the count that should detect the last node of the peer
  is taken over the key just deleted and is always zero, so the peer table keeps an entry
  whose nodes are all gone, while the node itself and only it is deleted.\<close>

theorem remove_node_keeps_peer:
  assumes "remove_node x pk ds = (r, ds')"
  shows "ds_peers ds' = ds_peers ds \<and>
     (r = Ok () \<longrightarrow> (\<forall>v. public_key_bytes x pk = Ok v \<longrightarrow> ds_nodes ds' = filter (\<lambda>q. nr_public_key q \<noteq> v) (ds_nodes ds)))"
proof (cases "peer_id_for_node_pk x pk ds")
  case (Ok pid)
  show ?thesis
  proof (cases pid)
    case None
    then have "tbl_lookup nr_public_key (ds_nodes ds) v = None" if "public_key_bytes x pk = Ok v" for v
      using Ok that by (auto simp: peer_id_for_node_pk_def result_simps)
    then have "filter (\<lambda>q. nr_public_key q \<noteq> v) (ds_nodes ds) = ds_nodes ds" if "public_key_bytes x pk = Ok v" for v
      using that by (force simp: tbl_lookup_def find_None_iff filter_id_conv)
    then show ?thesis using assms Ok None by (auto simp: remove_node_def seq_do_def query_def pure_def)
  next
    case (Some p)
    obtain w ds1 where d: "delete_node x pk ds = (w, ds1)" by fastforce
    show ?thesis
    proof (cases w)
      case w: (Ok u)
      then have d': "delete_node x pk ds = (Ok (), ds1)" using d by simp
      then have "remove_node x pk ds = (Ok (), ds1)"
        using Ok Some count_after_delete [OF d'] by (simp add: remove_node_def seq_do_def query_def pure_def)
      with d' assms show ?thesis unfolding delete_node_Ok by auto
    qed (use assms d Ok Some delete_node_peers [of x pk ds] in
        \<open>auto simp: remove_node_def seq_do_def query_def pure_def\<close>)
  qed
qed (use assms in \<open>auto simp: remove_node_def seq_do_def query_def\<close>)

text \<open>A peer that was added is found again: after an addition succeeded, with transactions that
  decode to themselves, the query by the node's key returns both of its transactions.\<close>

theorem added_peer_found:
  assumes "add_peer_new x now pni self ds = (Ok (), ds')"
    and "pni_latest_node_transaction pni = Some nt" "pni_latest_peer_transaction pni = Some pt"
    and "node_metadata x nt = Ok nmd" "nm_public_key nmd = Some pk" "nm_peer_id nmd = Some pid"
    and "peer_data x pt = Ok pd" "pm_peer_id pd = Some pid"
    and "dec_transaction x (enc_transaction x nt) = Inr nt" "dec_transaction x (enc_transaction x pt) = Inr pt"
  shows "query_nodes_peer_node_info x pk ds' = Ok (Some \<lparr> pni_latest_peer_transaction = Some pt,
     pni_latest_node_transaction = Some nt, pni_dynamic_node_metadata = None \<rparr>) \<and>
     pk \<in> set (public_keys x pni) \<and> pk \<noteq> self"
proof -
  have keys: "pk \<in> set (public_keys x pni)" using assms(2,4,5) by (simp add: public_keys_def nmd_pk_def)
  moreover have self: "self \<notin> set (public_keys x pni)"
    using assms(1) by (auto simp: add_peer_new_def pure_def split: if_splits)
  obtain ds1 where i: "insert_peer x pt ds = (Ok (), ds1)" "insert_node x now nt ds1 = (Ok (), ds')"
    using assms(1-3) self by (auto simp: add_peer_new_def result_simps)
  obtain k v where p: "pid_peer_id pid = Some k" "public_key_bytes x k = Ok v"
    "tbl_lookup per_id (ds_peers ds1) v = Some \<lparr> per_id = v, per_tx = enc_transaction x pt \<rparr>"
    using i(1) assms(7,8) by (auto simp: insert_peer_def exec_eq_Ok result_simps tbl_lookup_replace)
  have vb: "safe_bytes x (pk_bytes k) = Ok v" using p(2) by (simp add: public_key_bytes_def)
  have n: "ds_fault ds' = None" "\<exists>l. to_lib_public_key x pk = Ok l" "ds_peers ds' = ds_peers ds1"
    "\<exists>w. public_key_bytes x pk = Ok w \<and> tbl_lookup nr_public_key (ds_nodes ds') w =
      Some \<lparr> nr_public_key = w, nr_peer_id = v, nr_status = [], nr_last_seen = now, nr_tx = enc_transaction x nt \<rparr>"
    using i(2) assms(4-6) p(1) vb by (auto simp: insert_node_def exec_eq_Ok result_simps tbl_lookup_replace)
  have "query_public_key_node x pk ds' = Ok (Some nt)"
    using n(1,2,4) assms(9) by (auto simp: query_public_key_node_def public_key_validate_def pool_def map_err_sqlx_def proto_deserialize_def)
  moreover have "query_peer_id_tx x pid ds' = Ok (Some pt)"
    using p n(1,3) vb assms(10) by (simp add: query_peer_id_tx_def pool_def map_err_sqlx_def proto_deserialize_def)
  ultimately show ?thesis using assms(4,6) keys self by (auto simp: query_nodes_peer_node_info_def)
qed

section \<open>Witnesses\<close>

definition sample_public_key :: PublicKey where
  "sample_public_key = public_key_from_bytes [1]"

definition sample_nmd :: NodeMetadata where
  "sample_nmd = \<lparr> nm_transport_info = None, nm_public_key = Some sample_public_key, nm_node_type = None,
     nm_version_info = None, nm_partition_info = Some \<lparr> pai_utxo = None, pai_contract_address = None,
       pai_transaction_hash = Some 5, pai_address = None \<rparr>,
     nm_node_name = None, nm_peer_id = Some (peer_id_from_bytes [2]), nm_parties = [] \<rparr>"

theorem partition_filters_disagree_witness:
  "\<exists>r ns. hash_in_range sample_ext pai_transaction_hash (hash_new [3]) sample_nmd = Ok r \<and>
     xorf_conv_distance_subset sample_ext pai_transaction_hash (vb (hash_new [3])) [sample_nmd] = Ok ns \<and> (\<not> r \<or> ns = [])"
proof -
  have s: "nm_public_key sample_nmd = Some sample_public_key" "\<exists>b. pk_bytes sample_public_key = Some b"
    "Option.bind (nm_partition_info sample_nmd) pai_transaction_hash = Some 5"
    by (simp_all add: sample_nmd_def sample_public_key_def public_key_from_bytes_def bytes_data_def)
  then show ?thesis
    using partition_filters_disagree [of sample_nmd sample_public_key _ pai_transaction_hash 5 "hash_new [3]" sample_ext]
    by fastforce
qed

definition node_store :: data_store where
  "node_store = empty_store \<lparr> ds_peers := [\<lparr> per_id = [2], per_tx = [] \<rparr>],
     ds_nodes := [\<lparr> nr_public_key = [1], nr_peer_id = [2], nr_status = [], nr_last_seen = 5, nr_tx = [] \<rparr>] \<rparr>"

theorem remove_node_keeps_peer_witness:
  "\<exists>ds'. remove_node sample_ext sample_public_key node_store = (Ok (), ds') \<and> ds_nodes ds' = [] \<and> ds_peers ds' \<noteq> []"
proof -
  have s: "ds_fault node_store = None" "ds_nodes node_store = [\<lparr> nr_public_key = [1], nr_peer_id = [2], nr_status = [], nr_last_seen = 5, nr_tx = [] \<rparr>]"
    "ds_peers node_store = [\<lparr> per_id = [2], per_tx = [] \<rparr>]" by (simp_all add: node_store_def empty_store_def)
  have k: "public_key_bytes sample_ext sample_public_key = Ok [1]" "\<exists>l. to_lib_public_key sample_ext sample_public_key = Ok l"
    by (simp_all add: sample_public_key_def public_key_from_bytes_def public_key_bytes_def to_lib_public_key_def
        sample_ext_def lib_result_def)
  have p: "peer_id_for_node_pk sample_ext sample_public_key node_store = Ok (Some (peer_id_from_bytes [2]))"
    using k by (auto simp: peer_id_for_node_pk_def pool_def map_err_sqlx_def public_key_validate_def s tbl_lookup_def)
  obtain ds1 where d: "delete_node sample_ext sample_public_key node_store = (Ok (), ds1)"
    using k s(1) unfolding delete_node_Ok by auto
  have r: "remove_node sample_ext sample_public_key node_store = (Ok (), ds1)"
    using p d count_after_delete [OF d] by (simp add: remove_node_def seq_do_def query_def pure_def)
  show ?thesis using remove_node_keeps_peer [OF r] r k(1) s by auto
qed

definition sample_pd :: PeerMetadata where
  "sample_pd = PeerMetadata (Some (peer_id_from_bytes [2])) [] [] None None [] None 0 None"

text \<open>One transaction with a node and a peer output serves as both.\<close>

definition sample_peer_tx :: Transaction where
  "sample_peer_tx = (new_blank 5 7) \<lparr> t_outputs :=
     [output_from_data (set_sd_node_metadata (Some sample_nmd) standard_data_default),
      output_from_data (set_sd_peer_data (Some sample_pd) standard_data_default)] \<rparr>"

definition sample_pni :: PeerNodeInfo where
  "sample_pni = \<lparr> pni_latest_peer_transaction = Some sample_peer_tx, pni_latest_node_transaction = Some sample_peer_tx,
     pni_dynamic_node_metadata = None \<rparr>"

lemma sample_peer_tx_sel:
  "node_metadata x sample_peer_tx = Ok sample_nmd" "peer_data x sample_peer_tx = Ok sample_pd"
  "\<exists>s. hash_or x sample_peer_tx = digest x s"
  by (simp_all add: node_metadata_def peer_data_def sample_peer_tx_def output_from_data_def standard_data_default_def
      List.map_filter_simps index_def hash_or_def calculate_hash_def new_blank_def struct_metadata_def output_default_def)
     blast

lemma sample_nmd_sel:
  "nm_public_key sample_nmd = Some sample_public_key" "nm_peer_id sample_nmd = Some (peer_id_from_bytes [2])"
  "pm_peer_id sample_pd = Some (peer_id_from_bytes [2])" "pm_node_metadata sample_pd = []"
  by (simp_all add: sample_nmd_def sample_pd_def)

theorem added_peer_found_witness:
  "\<exists>ds'. add_peer_new (echo_ext sample_peer_tx) 5 sample_pni (public_key_from_bytes [9]) empty_store = (Ok (), ds') \<and>
     query_nodes_peer_node_info (echo_ext sample_peer_tx) sample_public_key ds' = Ok (Some sample_pni)"
proof -
  let ?x = "echo_ext sample_peer_tx"
  obtain s where h: "hash_or ?x sample_peer_tx = digest ?x s" using sample_peer_tx_sel(3) by blast
  have pk: "public_key_bytes ?x (public_key_from_bytes v) = Ok v" "safe_bytes ?x (pk_bytes (public_key_from_bytes v)) = Ok v" for v
    by (simp_all add: public_key_bytes_def public_key_from_bytes_def)
  have l: "\<exists>l. to_lib_public_key ?x (public_key_from_bytes v) = Ok l" for v
    by (simp add: to_lib_public_key_def pk(2)) (simp add: echo_ext_def sample_ext_def lib_result_def)
  have pks: "public_keys ?x sample_pni = [sample_public_key]"
    by (simp add: public_keys_def nmd_pk_def sample_pni_def sample_peer_tx_sel sample_nmd_sel List.map_filter_simps)
  have ne: "public_key_from_bytes [9] \<noteq> sample_public_key"
    by (simp add: sample_public_key_def public_key_from_bytes_def bytes_data_def bytes_data_from_def)
  obtain ds1 where i1: "insert_peer ?x sample_peer_tx empty_store = (Ok (), ds1)" "ds_fault ds1 = None"
    by (simp add: insert_peer_def exec_def sample_peer_tx_sel h pool_def map_err_sqlx_def sample_nmd_sel peer_id_from_bytes_def pk)
  obtain ds2 where i2: "insert_node ?x 5 sample_peer_tx ds1 = (Ok (), ds2)"
    using l [of "[1]"] i1(2)
    by (auto simp: insert_node_def exec_def sample_peer_tx_sel pool_def map_err_sqlx_def sample_nmd_sel peer_id_from_bytes_def pk
        public_key_validate_def sample_public_key_def)
  have a: "add_peer_new ?x 5 sample_pni (public_key_from_bytes [9]) empty_store = (Ok (), ds2)"
    using i1(1) i2 ne by (simp add: add_peer_new_def pks) (simp add: seq_do_def pure_def sample_pni_def)
  have "dec_transaction ?x (enc_transaction ?x sample_peer_tx) = Inr sample_peer_tx" by (simp add: echo_ext_def)
  with added_peer_found [OF a, of sample_peer_tx sample_peer_tx sample_nmd sample_public_key "peer_id_from_bytes [2]" sample_pd]
    sample_peer_tx_sel sample_nmd_sel a show ?thesis by (auto simp: sample_pni_def)
qed

end
