(* ===== verification/Messages.thy ===== *)
theory Messages
  imports Keys
begin

text \<open>
  Requests and responses between nodes: their hashes, constructors and error fields
  (\<open>schema/src/lib.rs\<close>, \<open>schema/src/response.rs\<close>), their authentication
  (\<open>keys/src/request_support.rs\<close>), and the counting of observation proofs in the response
  to a submitted transaction.  A hash set of signers is a list without duplicates.
\<close>

section \<open>Requests\<close>

definition request_empty :: Request where
  "request_empty = \<lparr> rq_gossip_transaction_request = None, rq_gossip_observation_request = None,
     rq_resolve_hash_request = None, rq_download_request = None, rq_about_node_request = None,
     rq_proof = None, rq_node_metadata = None, rq_get_peers_info_request = None,
     rq_initiate_keygen = None, rq_initiate_signing = None, rq_submit_transaction_request = None,
     rq_utxo_conflict_resolve_request = None, rq_query_observation_proof_request = None,
     rq_hash_search_request = None, rq_trace_id = None, rq_trace = None,
     rq_multiparty_authentication_request = None, rq_health_request = None,
     rq_get_node_transaction_request = None, rq_get_contract_state_marker_request = None,
     rq_resolve_code_request = None, rq_abridged_node_metadata = None, rq_gossip_observation_proof = [],
     rq_utxo_valid_request = None, rq_recent_transactions_request = None,
     rq_lookup_transaction_request = None, rq_recent_transaction_and_observation_request = None,
     rq_genesis_request = None, rq_faucet_request = None, rq_get_parties_info_request = None,
     rq_origin = None \<rparr>"

definition request_hash_clear :: "Request \<Rightarrow> Request" where
  "request_hash_clear r = r \<lparr> rq_proof := None, rq_origin := None \<rparr>"

definition request_calculate_hash :: "externals \<Rightarrow> Request \<Rightarrow> Hash" where
  "request_calculate_hash x r = digest x (enc_request x (request_hash_clear r))"

definition request_about :: "Request \<Rightarrow> Request" where
  "request_about r = r \<lparr> rq_about_node_request := Some \<lparr> anq_verbose = True \<rparr> \<rparr>"

definition request_with_metadata :: "NodeMetadata \<Rightarrow> Request \<Rightarrow> Request" where
  "request_with_metadata nmd r = r \<lparr> rq_node_metadata := Some nmd \<rparr>"

definition auth_required :: "Request \<Rightarrow> bool" where
  "auth_required r \<longleftrightarrow> rq_initiate_keygen r \<noteq> None \<or> rq_initiate_signing r \<noteq> None"

definition request_with_auth :: "externals \<Rightarrow> KeyPair \<Rightarrow> Request \<Rightarrow> Request rg_result" where
  "request_with_auth x key_pair r =
     (let hash = request_calculate_hash x r in
      and_then (from_keypair_hash x hash key_pair) (\<lambda>pf.
      and_then (expect ''immediate verify'' (proof_verify x hash pf)) (\<lambda>_.
      Ok (r \<lparr> rq_proof := Some pf \<rparr>))))"

definition request_verify_auth_inner :: "externals \<Rightarrow> Request \<Rightarrow> PublicKey rg_result" where
  "request_verify_auth_inner x r =
     (let hash = request_calculate_hash x r in
      and_then (safe_get_msg x ''Missing proof on request authentication verification'' (rq_proof r)) (\<lambda>pf.
      and_then (safe_get_msg x ''Missing node metadata on request authentication verification'' (rq_node_metadata r)) (\<lambda>nmd.
      and_then (safe_get_msg x ''Missing public key on node metadata request authentication verification''
        (nm_public_key nmd)) (\<lambda>nmd_pk.
      and_then (safe_get_msg x ''Missing public key on request authentication verification'' (pr_public_key pf)) (\<lambda>pk.
      and_then (proof_verify x hash pf) (\<lambda>_.
      if nmd_pk \<noteq> pk
      then Err (error_info x ''Node metadata public key and proof public key mismatch on request authentication verification'')
      else Ok pk))))))"

definition request_verify_auth :: "externals \<Rightarrow> Request \<Rightarrow> PublicKey rg_result" where
  "request_verify_auth x r = add (json_or x (json_request x r))
     (add ''Request authorization failure'' (request_verify_auth_inner x r))"

section \<open>Responses\<close>

definition response_default :: Response where
  "response_default = \<lparr> rs_response_metadata = None, rs_resolve_hash_response = None,
     rs_download_response = None, rs_about_node_response = None, rs_get_peers_info_response = None,
     rs_node_metadata = None, rs_proof = None, rs_initiate_keygen_response = None,
     rs_initiate_signing_response = None, rs_submit_transaction_response = None,
     rs_utxo_conflict_resolve_response = None, rs_query_observation_proof_response = None,
     rs_hash_search_response = None, rs_health_response = None,
     rs_get_contract_state_marker_response = None, rs_resolve_code_response = None,
     rs_utxo_valid_response = None, rs_recent_discovery_transactions_response = None,
     rs_lookup_transaction_response = None, rs_recent_transaction_and_observation_response = [],
     rs_genesis_response = None, rs_faucet_response = None, rs_get_parties_info_response = None \<rparr>"

definition response_hash_clear :: "Response \<Rightarrow> Response" where
  "response_hash_clear r = r \<lparr> rs_proof := None \<rparr>"

definition response_calculate_hash :: "externals \<Rightarrow> Response \<Rightarrow> Hash" where
  "response_calculate_hash x r = digest x (enc_response x (response_hash_clear r))"

definition empty_success :: Response where
  "empty_success = response_default \<lparr> rs_response_metadata := response_metadata \<rparr>"

definition response_metadata_from_error :: "ErrorInfo \<Rightarrow> ResponseMetadata rg_result" where
  "response_metadata_from_error e =
     and_then (case response_metadata of Some m \<Rightarrow> Ok m | None \<Rightarrow> Panic ''m'') (\<lambda>rm.
     Ok (rm \<lparr> rm_success := False, rm_error_info := Some e \<rparr>))"

definition from_error_info :: "ErrorInfo \<Rightarrow> Response rg_result" where
  "from_error_info e =
     and_then (case response_metadata of Some m \<Rightarrow> Ok m | None \<Rightarrow> Panic ''m'') (\<lambda>rm.
     Ok (empty_success \<lparr> rs_response_metadata := Some (rm \<lparr> rm_success := False, rm_error_info := Some e \<rparr>) \<rparr>))"

definition response_with_metadata :: "NodeMetadata \<Rightarrow> Response \<Rightarrow> Response" where
  "response_with_metadata nmd r = r \<lparr> rs_node_metadata := Some nmd \<rparr>"

definition as_error_info :: "externals \<Rightarrow> Response \<Rightarrow> unit rg_result" where
  "as_error_info x r =
     and_then (safe_get x (rs_response_metadata r)) (\<lambda>res.
     case rm_error_info res of Some e \<Rightarrow> Err e | None \<Rightarrow> Ok ())"

definition with_error_info :: "externals \<Rightarrow> Response \<Rightarrow> Response rg_result" where
  "with_error_info x r =
     and_then (safe_get x (rs_response_metadata r)) (\<lambda>res.
     case rm_error_info res of Some e \<Rightarrow> Err e | None \<Rightarrow> Ok r)"

definition response_with_auth :: "externals \<Rightarrow> KeyPair \<Rightarrow> Response \<Rightarrow> Response rg_result" where
  "response_with_auth x key_pair r =
     (let hash = response_calculate_hash x r in
      and_then (from_keypair_hash x hash key_pair) (\<lambda>pf. Ok (r \<lparr> rs_proof := Some pf \<rparr>)))"

definition response_verify_auth_inner :: "externals \<Rightarrow> PublicKey option \<Rightarrow> Response \<Rightarrow> Response rg_result" where
  "response_verify_auth_inner x intended_pk r =
     and_then (safe_get_msg x ''Missing node metadata on response authentication verification'' (rs_node_metadata r)) (\<lambda>nmd.
     and_then (safe_get_msg x ''Missing public key on node metadata response authentication verification''
       (nm_public_key nmd)) (\<lambda>nmd_pk.
     and_then (safe_get_msg x ''Missing proof on response authentication verification'' (rs_proof r)) (\<lambda>pf.
     and_then (safe_get_msg x ''Missing public key on proof on response authentication verification''
       (pr_public_key pf)) (\<lambda>proof_pk.
     and_then (add ''proof verification failure on response''
       (proof_verify x (response_calculate_hash x r) pf)) (\<lambda>_.
     if nmd_pk \<noteq> proof_pk
     then Err (error_info x ''Node metadata public key and proof public key mismatch on response authentication verification'')
     else (case intended_pk of
         None \<Rightarrow> Ok r
       | Some intended \<Rightarrow>
           if proof_pk \<noteq> intended
           then Err (error_info x ''Intended public key and proof public key mismatch on response authentication verification'')
           else Ok r))))))"

definition response_verify_auth :: "externals \<Rightarrow> PublicKey option \<Rightarrow> Response \<Rightarrow> Response rg_result" where
  "response_verify_auth x intended_pk r =
     add (json_or x (json_opt_public_key x intended_pk))
       (add (json_or x (json_response x r))
         (add ''Response authorization failure'' (response_verify_auth_inner x intended_pk r)))"

section \<open>Counting observation proofs\<close>

definition signer_state :: "externals \<Rightarrow> ObservationProof \<Rightarrow> (PublicKey \<times> i32) rg_result" where
  "signer_state x p =
     and_then (safe_get x (op_metadata p)) (\<lambda>m.
     and_then (safe_get x (op_proof p)) (\<lambda>pf.
     and_then (safe_get x (pr_public_key pf)) (\<lambda>pk. Ok (pk, om_state m))))"

definition unique_by_state :: "externals \<Rightarrow> SubmitTransactionResponse \<Rightarrow> (PublicKey \<times> i32) list rg_result" where
  "unique_by_state x r =
     and_then (safe_get x (st_query_transaction_response r)) (\<lambda>q.
     and_then (try_map (signer_state x) (qt_observation_proofs q)) (\<lambda>ps. Ok (remdups ps)))"

definition check_by_state :: "externals \<Rightarrow> nat \<Rightarrow> State \<Rightarrow> SubmitTransactionResponse \<Rightarrow> unit rg_result" where
  "check_by_state x expected_count state r =
     and_then (unique_by_state x r) (\<lambda>ps.
     let accepted_count = length (filter (\<lambda>(_, s). s = state_i32 state) ps) in
     if expected_count \<le> accepted_count then Ok ()
     else Err (error_info x (''not enough '' @ json_or x (json_state x state) @ '' observations, expected '' @
       show_nat expected_count @ '', got '' @ show_nat accepted_count)))"

definition accepted :: "externals \<Rightarrow> nat \<Rightarrow> SubmitTransactionResponse \<Rightarrow> unit rg_result" where
  "accepted x expected_count r = check_by_state x expected_count Accepted r"

definition pending :: "externals \<Rightarrow> nat \<Rightarrow> SubmitTransactionResponse \<Rightarrow> unit rg_result" where
  "pending x expected_count r = check_by_state x expected_count Pending r"

definition count_unique_by_state :: "externals \<Rightarrow> SubmitTransactionResponse \<Rightarrow> (i32 \<rightharpoonup> nat) rg_result" where
  "count_unique_by_state x r =
     and_then (unique_by_state x r) (\<lambda>ps.
     Ok (\<lambda>s. let n = length (filter (\<lambda>(_, t). t = s) ps) in if n = 0 then None else Some n))"

definition at_least_n :: "externals \<Rightarrow> nat \<Rightarrow> SubmitTransactionResponse \<Rightarrow> unit rg_result" where
  "at_least_n x n r = and_then (accepted x n r) (\<lambda>_. pending x n r)"

definition at_least_1 :: "externals \<Rightarrow> SubmitTransactionResponse \<Rightarrow> unit rg_result" where
  "at_least_1 x r = at_least_n x 1 r"

section \<open>Authentication\<close>

lemma add_eq_Ok [result_simps]: "add m r = Ok v \<longleftrightarrow> r = Ok v"
  by (cases r) (simp_all add: add_def)

lemma from_keypair_hash_key:
  "from_keypair_hash x h kp = Ok p \<Longrightarrow> pr_public_key p = public_key_ser x (kp_public_key kp)"
  by (auto simp: from_keypair_hash_def proof_new_def result_simps)

lemma request_verify_auth_Ok:
  "request_verify_auth x r = Ok pk \<longleftrightarrow> (\<exists>pf nmd. rq_proof r = Some pf \<and> rq_node_metadata r = Some nmd \<and>
     nm_public_key nmd = Some pk \<and> pr_public_key pf = Some pk \<and> proof_verify x (request_calculate_hash x r) pf = Ok ())"
  by (auto simp: request_verify_auth_def request_verify_auth_inner_def Let_def result_simps split: if_splits)

lemma response_verify_auth_Ok:
  "response_verify_auth x intended r = Ok r' \<longleftrightarrow> r' = r \<and> (\<exists>pf nmd pk. rs_proof r = Some pf \<and>
     rs_node_metadata r = Some nmd \<and> nm_public_key nmd = Some pk \<and> pr_public_key pf = Some pk \<and>
     proof_verify x (response_calculate_hash x r) pf = Ok () \<and> (intended = None \<or> intended = Some pk))"
  by (cases intended) (auto simp: response_verify_auth_def response_verify_auth_inner_def result_simps split: if_splits)



section \<open>Counts\<close>

lemma unique_by_state_Ok:
  "unique_by_state x r = Ok ps \<Longrightarrow> distinct ps \<and> (\<exists>q. st_query_transaction_response r = Some q \<and>
     set ps = {s. \<exists>p \<in> set (qt_observation_proofs q). signer_state x p = Ok s})"
proof -
  assume "unique_by_state x r = Ok ps"
  then obtain q vs where q: "st_query_transaction_response r = Some q"
    "list_all2 (\<lambda>p v. signer_state x p = Ok v) (qt_observation_proofs q) vs" "ps = remdups vs"
    by (auto simp: unique_by_state_def result_simps)
  have "set vs = {s. \<exists>p \<in> set (qt_observation_proofs q). signer_state x p = Ok s}"
    using q(2) by (induction rule: list_all2_induct) auto
  then show ?thesis using q by simp
qed

text \<open>A response is accepted by the check for \<open>n\<close> observations exactly when it carries, for each of the
  two states, proofs of that state by at least \<open>n\<close> different keys; the table of counts
  reports the same numbers.\<close>

theorem at_least_n_iff:
  assumes "st_query_transaction_response r = Some q"
    and "\<forall>p \<in> set (qt_observation_proofs q). \<exists>s. signer_state x p = Ok s"
  shows "(at_least_n x n r = Ok () \<longleftrightarrow> (\<forall>st \<in> {Accepted, Pending}.
       n \<le> card {pk. \<exists>p \<in> set (qt_observation_proofs q). signer_state x p = Ok (pk, state_i32 st)})) \<and>
     (\<exists>m. count_unique_by_state x r = Ok m \<and> (\<forall>s. (case m s of Some c \<Rightarrow> c | None \<Rightarrow> 0) =
       card {pk. \<exists>p \<in> set (qt_observation_proofs q). signer_state x p = Ok (pk, s)}))"
proof -
  have "\<exists>vs. try_map (signer_state x) (qt_observation_proofs q) = Ok vs"
    using assms(2) try_map_Ok_fun [of "qt_observation_proofs q" "signer_state x"] by metis
  then obtain ps where ps: "unique_by_state x r = Ok ps" using assms(1) by (auto simp: unique_by_state_def)
  then have d: "distinct ps" "set ps = {s. \<exists>p \<in> set (qt_observation_proofs q). signer_state x p = Ok s}"
    using unique_by_state_Ok [OF ps] assms(1) by auto
  have c: "length (filter (\<lambda>(_, t). t = s) ps) = card {pk. \<exists>p \<in> set (qt_observation_proofs q). signer_state x p = Ok (pk, s)}" for s
  proof -
    have "length (filter (\<lambda>(_, t). t = s) ps) = card (set (filter (\<lambda>(_, t). t = s) ps))"
      by (metis d(1) distinct_card distinct_filter)
    also have "set (filter (\<lambda>(_, t). t = s) ps) = (\<lambda>pk. (pk, s)) ` {pk. (pk, s) \<in> set ps}" by auto
    also have "card \<dots> = card {pk. (pk, s) \<in> set ps}" by (simp add: card_image inj_on_def)
    finally show ?thesis by (simp add: d(2))
  qed
  have "at_least_n x n r = Ok () \<longleftrightarrow> (\<forall>st \<in> {Accepted, Pending}.
      n \<le> card {pk. \<exists>p \<in> set (qt_observation_proofs q). signer_state x p = Ok (pk, state_i32 st)})"
    using ps by (auto simp: at_least_n_def accepted_def pending_def check_by_state_def Let_def c split: if_splits)
  moreover have "(case (let n = length (filter (\<lambda>(_, t). t = s) ps) in if n = 0 then None else Some n) of Some c \<Rightarrow> c | None \<Rightarrow> 0) =
      card {pk. \<exists>p \<in> set (qt_observation_proofs q). signer_state x p = Ok (pk, s)}" for s
    by (simp add: Let_def c [symmetric])
  ultimately show ?thesis using ps by (simp add: count_unique_by_state_def)
qed

definition sample_signed :: "State \<Rightarrow> ObservationProof" where
  "sample_signed st = \<lparr> op_observation_hash = None, op_merkle_proof = None,
     op_metadata = Some (ObservationMetadata None 0 (state_i32 st) None None 0 None),
     op_proof = Some \<lparr> pr_signature = None, pr_public_key = Some (public_key_from_bytes [1]) \<rparr> \<rparr>"

definition sample_submitted :: SubmitTransactionResponse where
  "sample_submitted = \<lparr> st_transaction_hash = None, st_query_transaction_response =
     Some \<lparr> qt_observation_proofs = [sample_signed Accepted, sample_signed Pending, sample_signed Accepted] \<rparr>,
     st_transaction = None \<rparr>"

theorem at_least_n_iff_witness:
  "at_least_n sample_ext 1 sample_submitted = Ok () \<and> at_least_n sample_ext 2 sample_submitted \<noteq> Ok ()"
proof -
  have s: "signer_state sample_ext (sample_signed st) = Ok (public_key_from_bytes [1], state_i32 st)" for st
    by (simp add: signer_state_def sample_signed_def)
  have "{pk. \<exists>p \<in> {sample_signed Accepted, sample_signed Pending}. signer_state sample_ext p = Ok (pk, state_i32 st)} =
      {public_key_from_bytes [1]}" if "st \<in> {Accepted, Pending}" for st
    using that by (auto simp: s)
  with at_least_n_iff [of sample_submitted "\<lparr> qt_observation_proofs = [sample_signed Accepted, sample_signed Pending, sample_signed Accepted] \<rparr>" sample_ext]
  show ?thesis by (simp add: sample_submitted_def s insert_commute)
qed

end
