(* ===== verification/Relay.thy ===== *)
theory Relay
  imports Peers Messages "HOL-Library.AList"
begin

text \<open>
  The relay of \<open>src/core/relay.rs\<close>: the state the tasks of a node share, sending to peers,
  the faucet rate limiter, the authorizations of multiparty rooms, lookups of transactions,
  and the hand-over of a submitted transaction.  A hash map behind a mutex is an
  association list or a map; no code panics while it holds one of these locks, so locking
  succeeds.  What a peer answers is part of the argument \<open>network\<close>, and instants are
  numbers of milliseconds.
\<close>

section \<open>Messages to peers\<close>

text \<open>The outcome of handing a request to the sending task, what the peer answers (or that the
  response channel closed), and whether the answer missed the timeout of a waiting caller.\<close>

record network =
  nw_send :: "PublicKey \<Rightarrow> Request \<Rightarrow> string + unit"
  nw_reply :: "PublicKey \<Rightarrow> Request \<Rightarrow> string + Response"
  nw_late :: "PublicKey \<Rightarrow> Request \<Rightarrow> string option"

definition channel_send :: "externals \<Rightarrow> string + unit \<Rightarrow> unit rg_result" where
  "channel_send x r = lib_result (error_message x InternalChannelReceiveError) r"

definition recv_async_err :: "externals \<Rightarrow> string + 'a \<Rightarrow> 'a rg_result" where
  "recv_async_err x r = lib_result (error_message x InternalChannelReceiveError) r"

definition send_message :: "externals \<Rightarrow> network \<Rightarrow> Request \<Rightarrow> PublicKey \<Rightarrow> unit rg_result" where
  "send_message x nw request node = channel_send x (nw_send nw node request)"

definition send_message_async :: "externals \<Rightarrow> network \<Rightarrow> Request \<Rightarrow> PublicKey \<Rightarrow> (string + Response) rg_result" where
  "send_message_async x nw request node =
     and_then (channel_send x (nw_send nw node request)) (\<lambda>_. Ok (nw_reply nw node request))"

definition send_message_sync :: "externals \<Rightarrow> network \<Rightarrow> Request \<Rightarrow> PublicKey \<Rightarrow> Response rg_result" where
  "send_message_sync x nw request node =
     and_then (channel_send x (nw_send nw node request)) (\<lambda>_.
     case nw_late nw node request of
       Some m \<Rightarrow> Err (error_info x m)
     | None \<Rightarrow> recv_async_err x (nw_reply nw node request))"

definition send_message_sync_static :: "externals \<Rightarrow> network \<Rightarrow> Request \<Rightarrow> PublicKey \<Rightarrow> Response rg_result" where
  "send_message_sync_static x nw request node =
     and_then (channel_send x (nw_send nw node request)) (\<lambda>_.
     and_then (recv_async_err x (nw_reply nw node request)) (\<lambda>res.
     and_then (as_error_info x res) (\<lambda>_. Ok res)))"

definition broadcast_async ::
    "externals \<Rightarrow> network \<Rightarrow> PublicKey list \<Rightarrow> Request \<Rightarrow> Response rg_result list rg_result" where
  "broadcast_async x nw nodes request =
     and_then (try_map (send_message_async x nw request) nodes) (\<lambda>results.
     Ok (map (recv_async_err x) results))"

text \<open>The older broadcast runs one task per node; a panic in a task becomes an error of that task.\<close>

definition join_task :: "externals \<Rightarrow> 'a rg_result \<Rightarrow> 'a rg_result" where
  "join_task x r = (case r of Panic m \<Rightarrow> Err (error_msg x UnknownError ''join handle failure on broadcast'' m) | v \<Rightarrow> v)"

definition broadcast ::
    "externals \<Rightarrow> network \<Rightarrow> PublicKey list \<Rightarrow> Request \<Rightarrow> (PublicKey \<times> Response rg_result) list" where
  "broadcast x nw nodes request = map (\<lambda>n. (n, join_task x (send_message_sync_static x nw request n))) nodes"

definition gossip :: "externals \<Rightarrow> network \<Rightarrow> i64 \<Rightarrow> Transaction \<Rightarrow> data_store \<Rightarrow> unit rg_result" where
  "gossip x nw now tx ds =
     and_then (select_gossip_peers x now tx ds) (\<lambda>ps.
     for_each (\<lambda>p. send_message x nw
       (request_empty \<lparr> rq_gossip_transaction_request := Some \<lparr> gtr_transaction = Some tx \<rparr> \<rparr>) p) ps)"

definition gossip_req :: "externals \<Rightarrow> network \<Rightarrow> i64 \<Rightarrow> Request \<Rightarrow> Hash \<Rightarrow> data_store \<Rightarrow> unit rg_result" where
  "gossip_req x nw now req hash ds =
     and_then (peers_near x now hash pai_transaction_hash ds) (\<lambda>ps.
     for_each (send_message x nw req) ps)"

text \<open>The first peer near the hash that answers with a transaction of that hash.\<close>

fun first_lookup :: "externals \<Rightarrow> network \<Rightarrow> Hash \<Rightarrow> Request \<Rightarrow> PublicKey list \<Rightarrow> Transaction option rg_result" where
  "first_lookup x nw h request [] = Ok None"
| "first_lookup x nw h request (p # ps) =
     (case send_message_sync x nw request p of
        Ok r \<Rightarrow> (case rs_lookup_transaction_response r of
            Some t \<Rightarrow> if hash_or x t = h then Ok (Some t) else first_lookup x nw h request ps
          | None \<Rightarrow> first_lookup x nw h request ps)
      | Err _ \<Rightarrow> first_lookup x nw h request ps
      | Panic m \<Rightarrow> Panic m)"

definition lookup_transaction_serial ::
    "externals \<Rightarrow> network \<Rightarrow> i64 \<Rightarrow> Hash \<Rightarrow> data_store \<Rightarrow> Transaction option rg_result" where
  "lookup_transaction_serial x nw now h ds =
     and_then (peers_near x now h pai_transaction_hash ds) (\<lambda>ps.
     first_lookup x nw h (request_empty \<lparr> rq_lookup_transaction_request := Some h \<rparr>) ps)"

section \<open>Shared state of the transaction tasks\<close>

text \<open>
  A request processor is known by its request id; its channels are kept by that id, see
  the theory of transaction processing.
\<close>

record RequestProcessor =
  rp_request_id :: string
  rp_transaction_hash :: Hash
  rp_transaction :: Transaction

record Conflict =
  cf_transaction_hash :: Hash
  cf_abort :: bool
  cf_processing_start_time :: i64
  cf_request_processer :: RequestProcessor

record UTXOContentionPool =
  up_active_requests :: "Conflict list"

record relay =
  rl_ds :: data_store
  rl_transaction_channels :: "Hash \<rightharpoonup> RequestProcessor"
  rl_utxo_channels :: "UtxoId \<rightharpoonup> UTXOContentionPool"
  rl_mempool_entries :: "Hash \<rightharpoonup> Transaction"

definition relay_transaction_known :: "externals \<Rightarrow> Hash \<Rightarrow> relay \<Rightarrow> bool rg_result" where
  "relay_transaction_known x hash rl =
     (if rl_mempool_entries rl hash \<noteq> None then Ok True
      else if rl_transaction_channels rl hash \<noteq> None then Ok True
      else and_then (query_maybe_transaction x hash (rl_ds rl)) (\<lambda>v. Ok (v \<noteq> None)))"

definition lookup_transaction :: "externals \<Rightarrow> Hash \<Rightarrow> relay \<Rightarrow> Transaction option rg_result" where
  "lookup_transaction x hash rl =
     (case (case rl_mempool_entries rl hash of
              Some t \<Rightarrow> Some t
            | None \<Rightarrow> map_option rp_transaction (rl_transaction_channels rl hash)) of
        None \<Rightarrow> and_then (query_maybe_transaction x hash (rl_ds rl)) (\<lambda>v. Ok (map_option fst v))
      | Some t \<Rightarrow> Ok (Some t))"

section \<open>The node's own metadata\<close>

text \<open>\<open>fixed_peer_tx\<close> and \<open>fixed_node_tx\<close> stand for what the node configuration generates.\<close>

definition peer_tx :: "externals \<Rightarrow> Transaction \<Rightarrow> (data_store, Transaction) action" where
  "peer_tx x fixed_peer_tx =
     seq_do (query (get_peer_tx x)) (\<lambda>tx. case tx of
       Some t \<Rightarrow> pure (Ok t)
     | None \<Rightarrow> seq_do (set_peer_tx x fixed_peer_tx) (\<lambda>_. pure (Ok fixed_peer_tx)))"

definition node_tx ::
    "externals \<Rightarrow> PublicKey \<Rightarrow> Transaction \<Rightarrow> (NodeMetadata option \<Rightarrow> Transaction) \<Rightarrow> (data_store, Transaction) action" where
  "node_tx x self_key fixed_peer_tx fixed_node_tx =
     seq_do (query (get_node_tx x)) (\<lambda>tx. case tx of
       Some t \<Rightarrow> pure (Ok t)
     | None \<Rightarrow>
         seq_do (peer_tx x fixed_peer_tx) (\<lambda>pt.
         seq_do (pure (peer_data x pt)) (\<lambda>pd.
         let t = fixed_node_tx (find (\<lambda>nmd. nm_public_key nmd = Some self_key) (pm_node_metadata pd)) in
         seq_do (set_node_tx x t) (\<lambda>_. pure (Ok t)))))"

definition relay_node_metadata ::
    "externals \<Rightarrow> PublicKey \<Rightarrow> Transaction \<Rightarrow> (NodeMetadata option \<Rightarrow> Transaction) \<Rightarrow> (data_store, NodeMetadata) action" where
  "relay_node_metadata x self_key fixed_peer_tx fixed_node_tx =
     seq_do (node_tx x self_key fixed_peer_tx fixed_node_tx) (\<lambda>t. pure (node_metadata x t))"

definition tx_hash_distance :: "externals \<Rightarrow> PublicKey \<Rightarrow> PartitionInfo option \<Rightarrow> Hash \<Rightarrow> bool rg_result" where
  "tx_hash_distance x self_key pi hash =
     and_then (xorfc_hash x hash self_key) (\<lambda>d.
     Ok (case Option.bind pi pai_transaction_hash of Some d_max \<Rightarrow> sint d < sint d_max | None \<Rightarrow> True))"

section \<open>The faucet rate limiter\<close>

definition DAY_SECONDS :: nat where
  "DAY_SECONDS = 86400"

definition check_rate_limit ::
    "externals \<Rightarrow> nat \<Rightarrow> string \<Rightarrow> ((string \<times> (nat \<times> i32)) list, bool) action" where
  "check_rate_limit x now ip l =
     (if 1000000 < length l
      then (Err (error_info x ''Faucet rate limiter has exceeded 1 million entries, this is a problem''), l)
      else (case map_of l ip of
         None \<Rightarrow> (Ok True, AList.update ip (now, 0) l)
       | Some (v, cnt) \<Rightarrow>
           if DAY_SECONDS < (now - v) div 1000 then (Ok True, AList.update ip (now, 1) l)
           else if 30 < sint cnt then (Ok False, l)
           else (Ok True, AList.update ip (now, cnt + 1) l)))"

section \<open>Multiparty authorizations\<close>

record mp_authorizations =
  mp_keygen :: "string \<rightharpoonup> InitiateMultipartyKeygenRequest"
  mp_signing :: "string \<rightharpoonup> InitiateMultipartySigningRequest"

definition party_index :: "PublicKey \<Rightarrow> MultipartyIdentifier \<Rightarrow> nat option" where
  "party_index pk i = map_option (\<lambda>(n, _). n + 1) (find (\<lambda>(_, k). k = pk) (enumerate 0 (mpi_party_keys i)))"

definition authorize_signing :: "InitiateMultipartySigningRequest \<Rightarrow> mp_authorizations \<Rightarrow> mp_authorizations" where
  "authorize_signing p0 a = a \<lparr> mp_signing := (mp_signing a)(msq_signing_room_id p0 \<mapsto> p0) \<rparr>"

definition remove_signing_authorization :: "string \<Rightarrow> mp_authorizations \<Rightarrow> mp_authorizations" where
  "remove_signing_authorization room_id a = a \<lparr> mp_signing := (mp_signing a)(room_id := None) \<rparr>"

definition check_signing_authorized :: "string \<Rightarrow> PublicKey \<Rightarrow> mp_authorizations \<Rightarrow> nat option" where
  "check_signing_authorized room_id pk a =
     Option.bind (Option.bind (mp_signing a room_id) msq_identifier) (party_index pk)"

definition authorize_keygen ::
    "externals \<Rightarrow> InitiateMultipartyKeygenRequest \<Rightarrow> (mp_authorizations, unit) action" where
  "authorize_keygen x p0 a =
     (case safe_get_msg x ''missing identifier'' (mkq_identifier p0) of
        Ok i \<Rightarrow> (Ok (), a \<lparr> mp_keygen := (mp_keygen a)(mpi_uuid i \<mapsto> p0) \<rparr>)
      | Err e \<Rightarrow> (Err e, a)
      | Panic m \<Rightarrow> (Panic m, a))"

definition remove_keygen_authorization :: "string \<Rightarrow> mp_authorizations \<Rightarrow> mp_authorizations" where
  "remove_keygen_authorization room_id a = a \<lparr> mp_keygen := (mp_keygen a)(room_id := None) \<rparr>"

definition check_keygen_authorized :: "string \<Rightarrow> PublicKey \<Rightarrow> mp_authorizations \<Rightarrow> nat option" where
  "check_keygen_authorized room_id pk a =
     Option.bind (Option.bind (mp_keygen a room_id) mkq_identifier) (party_index pk)"

definition strip_suffix :: "string \<Rightarrow> string \<Rightarrow> string option" where
  "strip_suffix suf s = (if suf = drop (length s - length suf) s \<and> length suf \<le> length s
     then Some (take (length s - length suf) s) else None)"

definition strip_or :: "string \<Rightarrow> string \<Rightarrow> string" where
  "strip_or suf s = (case strip_suffix suf s of Some v \<Rightarrow> v | None \<Rightarrow> s)"

definition check_mp_authorized :: "string \<Rightarrow> PublicKey \<Rightarrow> mp_authorizations \<Rightarrow> nat option" where
  "check_mp_authorized room_id pk a =
     (let room = strip_or ''-offline'' (strip_or ''-online'' room_id) in
      case check_keygen_authorized room pk a of
        Some i \<Rightarrow> Some i
      | None \<Rightarrow> check_signing_authorized room pk a)"

section \<open>Observing and submitting\<close>

definition om_with_hash :: "externals \<Rightarrow> ObservationMetadata \<Rightarrow> ObservationMetadata rg_result" where
  "om_with_hash x m =
     (let hash = om_calculate_hash x m in
      case m of ObservationMetadata a b c d e f g \<Rightarrow>
        (case e of
           None \<Rightarrow> Panic ''set''
         | Some s \<Rightarrow> Ok (ObservationMetadata a b c d (Some (s \<lparr> sm_hash := Some hash \<rparr>)) f g)))"

text \<open>The metadata a node signs for a transaction.\<close>

definition observe_tx_metadata ::
    "i64 \<Rightarrow> Hash \<Rightarrow> State \<Rightarrow> ValidationType \<Rightarrow> ValidationLiveness \<Rightarrow> ObservationMetadata" where
  "observe_tx_metadata now tx_hash state validation_type liveness =
     ObservationMetadata (Some (tx_hash \<lparr> h_hash_type := hash_type_i32 HT_Transaction \<rparr>))
       (validation_type_i32 validation_type) (state_i32 state) None (struct_metadata now)
       (validation_liveness_i32 liveness) None"

text \<open>\<open>buffer\<close> is what the observation buffer answers for the metadata sent to it.\<close>

definition observe :: "externals \<Rightarrow> (ObservationMetadata \<Rightarrow> ObservationProof rg_result) \<Rightarrow>
    ObservationMetadata \<Rightarrow> ObservationProof rg_result" where
  "observe x buffer om = and_then (om_with_hash x om) buffer"

definition observe_tx :: "externals \<Rightarrow> (ObservationMetadata \<Rightarrow> ObservationProof rg_result) \<Rightarrow> i64 \<Rightarrow>
    Hash \<Rightarrow> State \<Rightarrow> ValidationType \<Rightarrow> ValidationLiveness \<Rightarrow> ObservationProof rg_result" where
  "observe_tx x buffer now tx_hash state validation_type liveness =
     observe x buffer (observe_tx_metadata now tx_hash state validation_type liveness)"

text \<open>
  Submission: the transaction is sent to the mempool; \<open>sent\<close> is the outcome of that send and
  \<open>answer\<close> what arrives on the response channel when one was requested.
\<close>

definition submit_transaction ::
    "externals \<Rightarrow> string + unit \<Rightarrow> string + Response \<Rightarrow> SubmitTransactionRequest \<Rightarrow> SubmitTransactionResponse rg_result" where
  "submit_transaction x sent answer tx_req =
     and_then (safe_get_msg x ''Missing transaction field on submit request'' (stq_transaction tx_req)) (\<lambda>tx.
     and_then (lib_result (error_message x InternalChannelSendError) sent) (\<lambda>_.
     if stq_sync_query_response tx_req then
       and_then (recv_async_err x answer) (\<lambda>r1.
       and_then (as_error_info x r1) (\<lambda>_.
       safe_get x (rs_submit_transaction_response r1)))
     else Ok \<lparr> st_transaction_hash = Some (hash_or x tx), st_query_transaction_response = None,
               st_transaction = Some tx \<rparr>))"

section \<open>Properties\<close>

fun rate_run :: "externals \<Rightarrow> string \<Rightarrow> nat list \<Rightarrow> (string \<times> (nat \<times> i32)) list \<Rightarrow> bool rg_result list" where
  "rate_run x ip [] l = []"
| "rate_run x ip (t # ts) l = fst (check_rate_limit x t ip l) # rate_run x ip ts (snd (check_rate_limit x t ip l))"

definition same_day :: "nat list \<Rightarrow> bool" where
  "same_day ts \<longleftrightarrow> (\<forall>t \<in> set ts. \<forall>u \<in> set ts. (t - u) div 1000 \<le> DAY_SECONDS)"

lemma length_alist_update: "length (AList.update k v l) \<le> Suc (length l)"
  by (induction l) auto

lemma length_alist_update_known: "map_of l k \<noteq> None \<Longrightarrow> length (AList.update k v l) = length l"
  by (induction l) auto

lemma rate_run_counts:
  assumes "map_of l ip = Some (v, of_nat c)" "c \<le> 31" "length l \<le> 1000000" "same_day (v # ts)"
  shows "rate_run x ip ts l = map (\<lambda>k. Ok (c + k < 31)) [0..<length ts]"
  using assms
proof (induction ts arbitrary: l v c)
  case (Cons t ts)
  have day: "\<not> DAY_SECONDS < (t - v) div 1000" using Cons.prems(4) by (auto simp: same_day_def)
  have c: "sint (of_nat c :: i32) = int c" using Cons.prems(2)
    by (simp add: signed_of_nat signed_take_bit_int_eq_self)
  show ?case
  proof (cases "c < 31")
    case True
    let ?l = "AList.update ip (t, of_nat c + 1) l"
    have step: "check_rate_limit x t ip l = (Ok True, ?l)"
      using Cons.prems(1,3) day c True by (simp add: check_rate_limit_def)
    have m: "map_of ?l ip = Some (t, of_nat (Suc c))" by (simp add: update_conv' add.commute)
    have "length ?l \<le> 1000000" using Cons.prems(1,3) length_alist_update_known [of l ip] by simp
    moreover have "same_day (t # ts)" using Cons.prems(4) by (auto simp: same_day_def)
    ultimately have "rate_run x ip ts ?l = map (\<lambda>k. Ok (Suc c + k < 31)) [0..<length ts]"
      using Cons.IH [OF m] True by simp
    then show ?thesis using step True by (simp add: map_upt_Suc del: upt_Suc)
  next
    case False
    then have c31: "c = 31" using Cons.prems(2) by simp
    have "check_rate_limit x t ip l = (Ok False, l)"
      using Cons.prems(1,3) day c c31 by (simp add: check_rate_limit_def)
    moreover have "rate_run x ip ts l = map (\<lambda>k. Ok (c + k < 31)) [0..<length ts]"
      using Cons.prems by (intro Cons.IH [of l v c]) (auto simp: same_day_def)
    ultimately show ?thesis using c31 by (simp add: map_upt_Suc del: upt_Suc)
  qed
qed simp

text \<open>The faucet limiter admits exactly thirty-two requests of a new address within a day and
  refuses every further one.\<close>

theorem rate_limit_admits_32:
  assumes "map_of l ip = None" "length l < 1000000" "same_day ts"
  shows "rate_run x ip ts l = map (\<lambda>k. Ok (k < 32)) [0..<length ts]"
proof (cases ts)
  case (Cons t us)
  let ?l = "AList.update ip (t, 0) l"
  have "check_rate_limit x t ip l = (Ok True, ?l)" using assms by (simp add: check_rate_limit_def)
  moreover have "rate_run x ip us ?l = map (\<lambda>k. Ok (0 + k < 31)) [0..<length us]"
    using assms length_alist_update [of ip "(t, 0)" l] Cons by (intro rate_run_counts) (auto simp: update_conv')
  ultimately show ?thesis using Cons by (simp add: map_upt_Suc del: upt_Suc)
qed simp

theorem rate_limit_admits_32_witness:
  "rate_run sample_ext ''a'' (replicate 40 5) [] ! 31 = Ok True \<and> rate_run sample_ext ''a'' (replicate 40 5) [] ! 32 = Ok False"
  using rate_limit_admits_32 [of "[]" "''a''" "replicate 40 5" sample_ext] by (simp add: same_day_def)

text \<open>A key joins a multiparty room, with or without the suffix of a signing phase, exactly with its
  position in the room's party, counted from one: once a signing request is authorized for
  a room that has no key generation, the check returns that position for the parties of
  its identifier and nothing for other keys, and nothing at all after the removal.\<close>

theorem signing_room_authorization:
  assumes "msq_identifier req = Some i" "room = msq_signing_room_id req" "mp_keygen a room = None"
    and "strip_suffix ''-online'' room = None" "strip_suffix ''-offline'' room = None"
    and "suf \<in> {[], ''-online'', ''-offline''}"
  shows "check_mp_authorized (room @ suf) pk (authorize_signing req a) = party_index pk i \<and>
     (party_index pk i \<noteq> None \<longleftrightarrow> pk \<in> set (mpi_party_keys i)) \<and>
     check_mp_authorized (room @ suf) pk (remove_signing_authorization room (authorize_signing req a)) = None"
proof -
  have app: "strip_suffix u (v @ u) = Some v" for u v by (simp add: strip_suffix_def)
  have on: "strip_suffix ''-online'' (room @ ''-offline'') = None" by (simp add: strip_suffix_def)
  have "strip_or ''-offline'' (strip_or ''-online'' (room @ suf)) = room"
    using assms(4-6) by (auto simp: strip_or_def app on)
  then have c: "check_mp_authorized (room @ suf) pk b = (case check_keygen_authorized room pk b of
      Some k \<Rightarrow> Some k | None \<Rightarrow> check_signing_authorized room pk b)" for b
    by (simp add: check_mp_authorized_def Let_def)
  have "pk \<in> snd ` set (enumerate 0 (mpi_party_keys i)) \<longleftrightarrow> pk \<in> set (mpi_party_keys i)"
    by (simp flip: set_map)
  then have "party_index pk i \<noteq> None \<longleftrightarrow> pk \<in> set (mpi_party_keys i)"
    by (force simp: party_index_def find_None_iff)
  with assms(1-3) show ?thesis
    unfolding c by (simp add: check_keygen_authorized_def check_signing_authorized_def authorize_signing_def
        remove_signing_authorization_def)
qed

definition sample_party :: MultipartyIdentifier where
  "sample_party = \<lparr> mpi_party_keys = [public_key_from_bytes [1], public_key_from_bytes [2]],
     mpi_threshold = 1, mpi_uuid = ''u'' \<rparr>"

definition sample_signing :: InitiateMultipartySigningRequest where
  "sample_signing = \<lparr> msq_identifier = Some sample_party, msq_signing_room_id = ''r'',
     msq_signing_party_keys = [], msq_data_to_sign = None \<rparr>"

theorem signing_room_authorization_witness:
  "check_mp_authorized (''r'' @ ''-online'') (public_key_from_bytes [2]) (authorize_signing sample_signing
     \<lparr> mp_keygen = Map.empty, mp_signing = Map.empty \<rparr>) = Some 2"
proof -
  have "public_key_from_bytes [1] \<noteq> public_key_from_bytes [2]"
    by (simp add: public_key_from_bytes_def bytes_data_def bytes_data_from_def)
  then have i: "party_index (public_key_from_bytes [2]) sample_party = Some 2"
    by (simp add: sample_party_def party_index_def)
  have r: "msq_identifier sample_signing = Some sample_party" "''r'' = msq_signing_room_id sample_signing"
    by (simp_all add: sample_signing_def)
  have s: "strip_suffix ''-online'' ''r'' = None" "strip_suffix ''-offline'' ''r'' = None"
    by (simp_all add: strip_suffix_def)
  show ?thesis
    using signing_room_authorization [OF r _ s, of "\<lparr> mp_keygen = Map.empty, mp_signing = Map.empty \<rparr>" "''-online''"
        "public_key_from_bytes [2]"] i by (simp del: append_Cons)
qed

text \<open>C37: The serial lookup of a transaction trusts the hash a transaction claims for itself: a peer
  near the hash that answers with any content under that claimed hash decides the result,
  whatever the content hashes to.\<close>

theorem lookup_trusts_claimed_hash:
  assumes "peers_near x now h pai_transaction_hash ds = Ok (p # ps)"
    and "nw_send nw p (request_empty \<lparr> rq_lookup_transaction_request := Some h \<rparr>) = Inr ()"
    and "nw_late nw p (request_empty \<lparr> rq_lookup_transaction_request := Some h \<rparr>) = None"
    and "nw_reply nw p (request_empty \<lparr> rq_lookup_transaction_request := Some h \<rparr>) =
      Inr (response_default \<lparr> rs_lookup_transaction_response := Some t \<rparr>)"
    and "Option.bind (t_struct_metadata t) sm_hash = Some h"
  shows "lookup_transaction_serial x nw now h ds = Ok (Some t)"
  using assms
  by (simp add: lookup_transaction_serial_def send_message_sync_def channel_send_def recv_async_err_def hash_or_def)

text \<open>A node without partition limits, and a transaction that claims a hash it does not have.\<close>

definition near_tx :: Transaction where
  "near_tx = (new_blank 5 7) \<lparr> t_outputs := [output_from_data
     (set_sd_node_metadata (Some (sample_nmd \<lparr> nm_partition_info := None \<rparr>)) standard_data_default)] \<rparr>"

definition forged_tx :: Transaction where
  "forged_tx = (new_blank 5 7) \<lparr> t_struct_metadata := map_option (\<lambda>m. m \<lparr> sm_hash := Some (hash_new [7]) \<rparr>) (struct_metadata 5) \<rparr>"

definition near_store :: data_store where
  "near_store = empty_store \<lparr> ds_nodes := [\<lparr> nr_public_key = [1], nr_peer_id = [2], nr_status = [], nr_last_seen = 100, nr_tx = [] \<rparr>] \<rparr>"

definition near_network :: network where
  "near_network = \<lparr> nw_send = \<lambda>_ _. Inr (),
     nw_reply = \<lambda>_ _. Inr (response_default \<lparr> rs_lookup_transaction_response := Some forged_tx \<rparr>),
     nw_late = \<lambda>_ _. None \<rparr>"

theorem lookup_trusts_claimed_hash_witness:
  "lookup_transaction_serial (echo_ext near_tx) near_network 100 (hash_new [7]) near_store = Ok (Some forged_tx) \<and>
   calculate_hash (echo_ext near_tx) forged_tx \<noteq> hash_new [7]"
proof -
  let ?x = "echo_ext near_tx"
  have nm: "node_metadata ?x near_tx = Ok (sample_nmd \<lparr> nm_partition_info := None \<rparr>)"
    by (simp add: node_metadata_def near_tx_def output_from_data_def standard_data_default_def List.map_filter_simps
        index_def output_default_def)
  have dec: "dec_transaction ?x bs = Inr near_tx" for bs by (simp add: echo_ext_def)
  have ds: "ds_fault near_store = None"
    "ds_nodes near_store = [\<lparr> nr_public_key = [1], nr_peer_id = [2], nr_status = [], nr_last_seen = 100, nr_tx = [] \<rparr>]"
    by (simp_all add: near_store_def)
  have near: "peers_near ?x 100 (hash_new [7]) pai_transaction_hash near_store = Ok [sample_public_key]"
    by (simp add: peers_near_def active_node_info_def pool_def map_err_sqlx_def ds active_rows_def active_cutoff_def
        DAY_MILLIS_def proto_deserialize_def dec nm hash_in_range_def sample_nmd_sel List.map_filter_simps)
  have "Option.bind (t_struct_metadata forged_tx) sm_hash = Some (hash_new [7])"
    by (simp add: forged_tx_def struct_metadata_def)
  moreover have "vb (calculate_hash ?x forged_tx) \<noteq> vb (hash_new [7])"
    using digest_not_short [of "[7]"] by (simp add: calculate_hash_def del: vb_digest)
  ultimately show ?thesis
    using lookup_trusts_claimed_hash [OF near, of near_network forged_tx] by (auto simp: near_network_def)
qed

end
