(* ===== verification/Resolver.thy ===== *)
theory Resolver
  imports Relay
begin

text \<open>
  Resolution of the inputs and outputs of a transaction against the store and the peers:
  \<open>src/core/resolver.rs\<close> and \<open>src/core/resolve/resolve_output.rs\<close>.  Every task started
  for an input reads the same store; a panic of such a task becomes an error whose text is
  that of the panic.
\<close>

section \<open>Answers of the peers\<close>

record ResolvedInput =
  ri_input :: Input
  ri_parent_transaction :: Transaction
  ri_internal_accepted :: bool
  ri_internal_valid_index :: bool
  ri_observation_proofs :: "ObservationProof list"
  ri_peer_valid_index :: "PublicKey list"
  ri_peer_invalid_index :: "PublicKey list"
  ri_signable_hash :: Hash

definition prior_output :: "externals \<Rightarrow> ResolvedInput \<Rightarrow> Output rg_result" where
  "prior_output x r =
     and_then (safe_get_msg x ''missing utxoid'' (i_utxo_id (ri_input r))) (\<lambda>u.
     ok_or (get (t_outputs (ri_parent_transaction r)) (unat (u_output_index u)))
       (error_info x ''Output index out of bounds''))"

definition ri_verify_proof :: "externals \<Rightarrow> ResolvedInput \<Rightarrow> unit rg_result" where
  "ri_verify_proof x r =
     and_then (prior_output x r) (\<lambda>prior.
     and_then (safe_get x (o_address prior)) (\<lambda>address.
     input_verify_proof x address (ri_signable_hash r) (ri_input r)))"

definition ri_amount :: "externals \<Rightarrow> ResolvedInput \<Rightarrow> i64 option rg_result" where
  "ri_amount x r = and_then (prior_output x r) (\<lambda>prior. Ok (opt_amount prior))"

record ResolvedTransactionHash =
  rth_hash :: Hash
  rth_transaction :: Transaction
  rth_observation_proofs :: "ObservationProof list"
  rth_peer_valid_index :: "PublicKey list"
  rth_peer_invalid_index :: "PublicKey list"

definition validate_single_result ::
    "externals \<Rightarrow> Hash \<Rightarrow> Response rg_result \<Rightarrow> (Transaction \<times> ObservationProof list \<times> bool) rg_result" where
  "validate_single_result x hash response =
     and_then response (\<lambda>response.
     and_then (as_error_info x response) (\<lambda>_.
     and_then (safe_get_msg x ''Missing resolve response'' (rs_resolve_hash_response response)) (\<lambda>response.
     and_then (safe_get_msg x ''Missing transaction info'' (rhr_transaction_info response)) (\<lambda>response.
     and_then (safe_get_msg x ''Missing transaction'' (tin_transaction response)) (\<lambda>tx.
     if calculate_hash x tx \<noteq> hash then Err (error_info x ''Invalid transaction hash'')
     else Ok (tx, tin_observation_proofs response,
       case tin_queried_output_index_valid response of Some b \<Rightarrow> b | None \<Rightarrow> False))))))"

text \<open>The sets the loop over the answers collects, and the transaction of the last valid answer.\<close>

record peer_answers =
  pan_res :: "Transaction option"
  pan_observation_proofs :: "ObservationProof list"
  pan_peer_valid_index :: "PublicKey list"
  pan_peer_invalid_index :: "PublicKey list"

definition add_answer :: "externals \<Rightarrow> Hash \<Rightarrow> peer_answers \<Rightarrow> Response rg_result \<Rightarrow> peer_answers" where
  "add_answer x hash a result =
     (case Option.bind (Option.bind (case result of Ok r \<Rightarrow> Some r | _ \<Rightarrow> None) rs_proof) pr_public_key of
        None \<Rightarrow> a
      | Some pk \<Rightarrow> (case validate_single_result x hash result of
          Ok (tx, proofs, valid_idx) \<Rightarrow>
            (let a = a \<lparr> pan_res := Some tx,
               pan_observation_proofs := fold List.insert proofs (pan_observation_proofs a) \<rparr> in
             if valid_idx then a \<lparr> pan_peer_valid_index := List.insert pk (pan_peer_valid_index a) \<rparr>
             else a \<lparr> pan_peer_invalid_index := List.insert pk (pan_peer_invalid_index a) \<rparr>)
        | _ \<Rightarrow> a))"

definition no_answers :: peer_answers where
  "no_answers = \<lparr> pan_res = None, pan_observation_proofs = [], pan_peer_valid_index = [], pan_peer_invalid_index = [] \<rparr>"

definition resolve_hash_request :: "Hash \<Rightarrow> i64 option \<Rightarrow> Request" where
  "resolve_hash_request hash output_index =
     request_empty \<lparr> rq_resolve_hash_request := Some \<lparr> rhq_hash = Some hash, rhq_output_index = output_index \<rparr> \<rparr>"

definition resolve_transaction_hash_peers ::
    "externals \<Rightarrow> network \<Rightarrow> i64 \<Rightarrow> PublicKey list option \<Rightarrow> Hash \<Rightarrow> i64 option \<Rightarrow> data_store \<Rightarrow>
     ResolvedTransactionHash option rg_result" where
  "resolve_transaction_hash_peers x nw now peers hash output_index ds =
     and_then (peers_near x now hash pai_transaction_hash ds) (\<lambda>near.
     let all = (case peers of Some ps \<Rightarrow> ps | None \<Rightarrow> near) in
     and_then (broadcast_async x nw all (resolve_hash_request hash output_index)) (\<lambda>results.
     let a = foldl (add_answer x hash) no_answers results in
     Ok (map_option (\<lambda>r. \<lparr> rth_hash = hash, rth_transaction = r,
       rth_observation_proofs = pan_observation_proofs a, rth_peer_valid_index = pan_peer_valid_index a,
       rth_peer_invalid_index = pan_peer_invalid_index a \<rparr>) (pan_res a))))"

section \<open>Inputs\<close>

text \<open>What the store says of the parent transaction; a stored rejection is an error.\<close>

definition local_parent :: "externals \<Rightarrow> Hash \<Rightarrow> data_store \<Rightarrow> Transaction option rg_result" where
  "local_parent x hash ds =
     and_then (query_maybe_transaction x hash ds) (\<lambda>r. case r of
       None \<Rightarrow> Ok None
     | Some (t, Some e) \<Rightarrow> Err e
     | Some (t, None) \<Rightarrow> Ok (Some t))"

text \<open>The part of the resolution that asks the peers, for a parent the store does not have.\<close>

definition resolve_from_peers ::
    "externals \<Rightarrow> network \<Rightarrow> i64 \<Rightarrow> Hash \<Rightarrow> i64 \<Rightarrow> ObservationProof list \<Rightarrow> bool \<Rightarrow> bool \<Rightarrow> data_store \<Rightarrow>
     peer_answers rg_result" where
  "resolve_from_peers x nw now hash output_index oe internal_valid_index check_liveness ds =
     and_then (resolve_transaction_hash_peers x nw now None hash (Some output_index) ds) (\<lambda>resolved.
     let a = (case resolved of
         Some r \<Rightarrow> \<lparr> pan_res = Some (rth_transaction r), pan_observation_proofs = rth_observation_proofs r,
           pan_peer_valid_index = rth_peer_valid_index r, pan_peer_invalid_index = rth_peer_invalid_index r \<rparr>
       | None \<Rightarrow> no_answers \<lparr> pan_observation_proofs := oe \<rparr>) in
     if pan_observation_proofs a = [] then Err (error_info x ''Missing observation proofs'')
     else if length (pan_peer_valid_index a) < length (pan_peer_invalid_index a) \<and> check_liveness
     then Err (error_info x ''UTXO considered invalid by peer selection'')
     else if pan_peer_valid_index a = [] \<and> \<not> internal_valid_index \<and> check_liveness
     then Err (error_info x ''No peers considered UTXO valid'')
     else Ok a)"

definition resolve_input ::
    "externals \<Rightarrow> network \<Rightarrow> i64 \<Rightarrow> Input \<Rightarrow> Hash \<Rightarrow> bool \<Rightarrow> data_store \<Rightarrow> ResolvedInput rg_result" where
  "resolve_input x nw now input signable check_liveness ds =
     and_then (safe_get_msg x ''Missing utxo id'' (i_utxo_id input)) (\<lambda>u.
     and_then (safe_get_msg x ''Missing transaction hash on input'' (u_transaction_hash u)) (\<lambda>hash.
     and_then (local_parent x hash ds) (\<lambda>res.
     and_then (query_utxo_id_valid x hash (u_output_index u) ds) (\<lambda>internal_valid_index.
     let internal_accepted = (res \<noteq> None) in
     if internal_accepted \<and> \<not> internal_valid_index \<and> check_liveness
     then Err (error_info x ''Missing valid UTXO index on accepted transaction'')
     else
     and_then (select_observation_edge x hash ds) (\<lambda>oe.
     and_then (if internal_accepted
       then Ok (no_answers \<lparr> pan_res := res, pan_observation_proofs := remdups oe \<rparr>)
       else resolve_from_peers x nw now hash (u_output_index u) (remdups oe) internal_valid_index check_liveness ds) (\<lambda>a.
     and_then (ok_or (pan_res a) (error_info x ''Missing parent transaction'')) (\<lambda>parent.
     let resolved = \<lparr> ri_input = input, ri_parent_transaction = parent, ri_internal_accepted = internal_accepted,
           ri_internal_valid_index = internal_valid_index, ri_observation_proofs = pan_observation_proofs a,
           ri_peer_valid_index = pan_peer_valid_index a, ri_peer_invalid_index = pan_peer_invalid_index a,
           ri_signable_hash = signable \<rparr> in
     and_then (ri_verify_proof x resolved) (\<lambda>_. Ok resolved))))))))"

section \<open>Outputs\<close>

record ResolvedOutputChild =
  roc_output :: Output
  roc_resolve :: ResolveCodeResponse

definition validate_resolve_output_response ::
    "externals \<Rightarrow> Address \<Rightarrow> Response rg_result \<Rightarrow> ResolveCodeResponse rg_result" where
  "validate_resolve_output_response x code_address response =
     and_then response (\<lambda>res.
     and_then (safe_get_msg x ''Missing resolve code response'' (rs_resolve_code_response res)) (\<lambda>rcr.
     case Option.bind (rc_transaction rcr) tin_transaction of
       Some tx \<Rightarrow>
         and_then (safe_get_msg x ''Missing head output'' (get (output_of code_address tx) 0)) (\<lambda>o1.
         and_then (validate_deploy_code x o1) (\<lambda>_. Ok rcr))
     | None \<Rightarrow> Err (error_info x ''Missing transaction in resolve code response'')))"

definition majority_resolve :: "externals \<Rightarrow> Address \<Rightarrow> Response rg_result list \<Rightarrow> ResolveCodeResponse option" where
  "majority_resolve x addr results = foldl (\<lambda>m result.
     case validate_resolve_output_response x addr result of Ok r \<Rightarrow> Some r | _ \<Rightarrow> m) None results"

definition fill_missing :: "ResolveCodeResponse option \<Rightarrow> ResolveCodeResponse \<Rightarrow> ResolveCodeResponse" where
  "fill_missing m r =
     \<lparr> rc_utxo_entry = (case rc_utxo_entry r of None \<Rightarrow> Option.bind m rc_utxo_entry | v \<Rightarrow> v),
       rc_transaction = (case rc_transaction r of None \<Rightarrow> Option.bind m rc_transaction | v \<Rightarrow> v),
       rc_contract_state_marker =
         (case rc_contract_state_marker r of None \<Rightarrow> Option.bind m rc_contract_state_marker | v \<Rightarrow> v) \<rparr>"

definition resolve_output ::
    "externals \<Rightarrow> network \<Rightarrow> Output \<Rightarrow> NodeMetadata list \<Rightarrow> data_store \<Rightarrow> ResolvedOutputChild rg_result" where
  "resolve_output x nw output peers ds =
     (if \<not> pay_update_descendents output
      then Err (error_info x ''Attempting to resolve transaction output children which does not require update'')
      else
      and_then (safe_get_msg x ''Missing address'' (o_address output)) (\<lambda>addr.
      and_then (resolve_code x addr ds) (\<lambda>internal_resolve.
      and_then (if rc_transaction internal_resolve \<noteq> None then Ok None else
        and_then (safe_bytes x (a_address addr)) (\<lambda>addr_bytes.
        and_then (xorf_conv_distance_subset x pai_contract_address addr_bytes peers) (\<lambda>peer_subset.
        let peer_keys = List.map_filter nm_public_key peer_subset in
        and_then (broadcast_async x nw peer_keys (request_empty \<lparr> rq_resolve_code_request := Some addr \<rparr>)) (\<lambda>results.
        Ok (majority_resolve x addr (map fst (zip results peer_keys))))))) (\<lambda>m.
      Ok \<lparr> roc_output = output, roc_resolve = fill_missing m internal_resolve \<rparr>))))"

section \<open>Transactions\<close>

record ResolvedTransaction =
  rtx_transaction :: Transaction
  rtx_fixed_resolutions :: "ResolvedInput list"
  rtx_resolved_internally :: bool
  rtx_descendents :: "ResolvedOutputChild list"

definition total_parent_amount_available :: "externals \<Rightarrow> ResolvedTransaction \<Rightarrow> i64 rg_result" where
  "total_parent_amount_available x r =
     try_fold (\<lambda>total ri. and_then (ri_amount x ri) (\<lambda>a. Ok (case a of Some n \<Rightarrow> total + n | None \<Rightarrow> total)))
       0 (rtx_fixed_resolutions r)"

definition rtx_validate :: "externals \<Rightarrow> ResolvedTransaction \<Rightarrow> unit rg_result" where
  "rtx_validate x r =
     and_then (total_parent_amount_available x r) (\<lambda>available_total.
     if available_total \<noteq> total_output_amount (rtx_transaction r)
     then Err (error_info x ''Balance mismatch'') else Ok ())"

definition spawn_join :: "externals \<Rightarrow> 'a rg_result \<Rightarrow> 'a rg_result" where
  "spawn_join x r = (case r of Panic m \<Rightarrow> Err (error_info x m) | v \<Rightarrow> v)"

text \<open>\<open>unknown\<close> is the outcome of reporting an input whose parent was not stored.\<close>

definition collect_resolution ::
    "externals \<Rightarrow> (ResolvedInput \<Rightarrow> string + unit) \<Rightarrow> bool \<times> ResolvedInput list \<Rightarrow> ResolvedInput rg_result \<Rightarrow>
     (bool \<times> ResolvedInput list) rg_result" where
  "collect_resolution x unknown acc result =
     and_then result (\<lambda>r.
     if ri_internal_accepted r then Ok (fst acc, snd acc @ [r])
     else and_then (mark_abort (channel_send x (unknown r))) (\<lambda>_. Ok (False, snd acc @ [r])))"

definition resolve_transaction ::
    "externals \<Rightarrow> network \<Rightarrow> (ResolvedInput \<Rightarrow> string + unit) \<Rightarrow> i64 \<Rightarrow> Transaction \<Rightarrow> data_store \<Rightarrow>
     ResolvedTransaction rg_result" where
  "resolve_transaction x nw unknown now tx ds =
     and_then (active_nodes x now None ds) (\<lambda>peers.
     and_then (try_fold (collect_resolution x unknown) (True, [])
       (map (\<lambda>input. spawn_join x (resolve_input x nw now input (signable_hash x tx) True ds))
         (filter (\<lambda>i. i_floating_utxo_id i = None) (t_inputs tx)))) (\<lambda>(resolved_internally, v).
     Ok \<lparr> rtx_transaction = tx, rtx_fixed_resolutions = v, rtx_resolved_internally = resolved_internally,
          rtx_descendents = [] \<rparr>))"

section \<open>Properties\<close>

lemma answers_have_hash:
  assumes "pan_res (foldl (add_answer x h) a rs) = Some t" "\<And>u. pan_res a = Some u \<Longrightarrow> calculate_hash x u = h"
  shows "calculate_hash x t = h"
  using assms
proof (induction rs arbitrary: a)
  case (Cons r rs)
  have "calculate_hash x u = h" if "pan_res (add_answer x h a r) = Some u" for u
    using that Cons.prems(2)
    by (auto simp: add_answer_def validate_single_result_def Let_def result_simps split: option.splits result.splits if_splits)
  with Cons show ?case by simp
qed simp

lemma resolve_peers_hash:
  assumes "resolve_transaction_hash_peers x nw now ps h i ds = Ok (Some r)"
  shows "calculate_hash x (rth_transaction r) = h"
  using assms answers_have_hash [of x h no_answers]
  by (auto simp: resolve_transaction_hash_peers_def result_simps Let_def no_answers_def)

lemma local_parent_eq_Ok:
  "local_parent x h ds = Ok v \<longleftrightarrow> query_maybe_transaction x h ds = Ok (map_option (\<lambda>t. (t, None)) v)"
proof (cases "query_maybe_transaction x h ds")
  case (Ok m)
  show ?thesis
  proof (cases m)
    case (Some p)
    then show ?thesis using Ok by (cases v; cases p; cases "snd p") (auto simp: local_parent_def)
  qed (use Ok in \<open>auto simp: local_parent_def\<close>)
qed (auto simp: local_parent_def)

lemma resolve_from_peers_Ok:
  assumes "resolve_from_peers x nw now h i oe v True ds = Ok a" "pan_res a = Some t"
  shows "calculate_hash x t = h \<and> pan_observation_proofs a \<noteq> [] \<and>
     length (pan_peer_invalid_index a) \<le> length (pan_peer_valid_index a) \<and> (pan_peer_valid_index a = [] \<longrightarrow> v)"
proof -
  obtain m where m: "resolve_transaction_hash_peers x nw now None h (Some i) ds = Ok m"
    using assms(1) by (auto simp: resolve_from_peers_def result_simps)
  show ?thesis
  proof (cases m)
    case None
    with m assms show ?thesis by (auto simp: resolve_from_peers_def no_answers_def Let_def split: if_splits)
  next
    case (Some r)
    with m have "calculate_hash x (rth_transaction r) = h" by (simp add: resolve_peers_hash)
    with Some m assms show ?thesis by (auto simp: resolve_from_peers_def Let_def split: if_splits)
  qed
qed

lemma ri_verify_proof_Ok:
  "ri_verify_proof x r = Ok () \<longleftrightarrow> (\<exists>u o1 a. i_utxo_id (ri_input r) = Some u \<and>
     get (t_outputs (ri_parent_transaction r)) (unat (u_output_index u)) = Some o1 \<and> o_address o1 = Some a \<and>
     verify_proofs x (i_proof (ri_input r)) (ri_signable_hash r) a = Ok ())"
  by (auto simp: ri_verify_proof_def prior_output_def input_verify_proof_def result_simps)

text \<open>Resolving an input with the liveness check proves ownership and liveness: the output it
  names exists in the parent transaction and the proofs of the input verify for the address
  of that output; a parent taken from the store was stored as accepted and the output is
  unspent in the store, and a parent taken from the peers hashes to the named hash, carries
  an observation proof, is not called spent by more peers than call it unspent, and is
  called unspent by some peer unless the store has the output.\<close>

theorem resolve_input_sound:
  assumes "resolve_input x nw now i s True ds = Ok r"
  shows "\<exists>u h b o1 a. i_utxo_id i = Some u \<and> u_transaction_hash u = Some h \<and> hash_safe_bytes x h = Ok b \<and>
     ri_input r = i \<and> get (t_outputs (ri_parent_transaction r)) (unat (u_output_index u)) = Some o1 \<and>
     o_address o1 = Some a \<and> verify_proofs x (i_proof i) s a = Ok () \<and>
     (if ri_internal_accepted r
      then query_maybe_transaction x h ds = Ok (Some (ri_parent_transaction r, None)) \<and>
        unspent ds (b, u_output_index u) \<noteq> None
      else query_maybe_transaction x h ds = Ok None \<and> calculate_hash x (ri_parent_transaction r) = h \<and>
        ri_observation_proofs r \<noteq> [] \<and> length (ri_peer_invalid_index r) \<le> length (ri_peer_valid_index r) \<and>
        (ri_peer_valid_index r = [] \<longrightarrow> unspent ds (b, u_output_index u) \<noteq> None))"
proof -
  obtain u h res v oe a parent where
    u: "i_utxo_id i = Some u" and h: "u_transaction_hash u = Some h" and res: "local_parent x h ds = Ok res"
    and v: "query_utxo_id_valid x h (u_output_index u) ds = Ok v" and live: "res \<noteq> None \<Longrightarrow> v"
    and a: "(if res \<noteq> None then Ok (no_answers \<lparr> pan_res := res, pan_observation_proofs := remdups oe \<rparr>)
       else resolve_from_peers x nw now h (u_output_index u) (remdups oe) v True ds) = Ok a"
    and parent: "pan_res a = Some parent"
    and r: "r = \<lparr> ri_input = i, ri_parent_transaction = parent, ri_internal_accepted = (res \<noteq> None),
           ri_internal_valid_index = v, ri_observation_proofs = pan_observation_proofs a,
           ri_peer_valid_index = pan_peer_valid_index a, ri_peer_invalid_index = pan_peer_invalid_index a,
           ri_signable_hash = s \<rparr>" and ver: "ri_verify_proof x r = Ok ()"
    using assms by (auto simp: resolve_input_def result_simps Let_def split: if_splits)
  obtain b where b: "hash_safe_bytes x h = Ok b" "v = (unspent ds (b, u_output_index u) \<noteq> None)"
    using v by (auto simp: query_utxo_id_valid_eq_Ok)
  obtain o1 ad where o1: "get (t_outputs parent) (unat (u_output_index u)) = Some o1" "o_address o1 = Some ad"
      "verify_proofs x (i_proof i) s ad = Ok ()"
    using ver u r by (auto simp: ri_verify_proof_Ok)
  have q: "query_maybe_transaction x h ds = Ok (map_option (\<lambda>t. (t, None)) res)"
    using res by (simp add: local_parent_eq_Ok)
  show ?thesis
  proof (cases res)
    case None
    with a parent have "calculate_hash x parent = h \<and> pan_observation_proofs a \<noteq> [] \<and>
       length (pan_peer_invalid_index a) \<le> length (pan_peer_valid_index a) \<and> (pan_peer_valid_index a = [] \<longrightarrow> v)"
      by (intro resolve_from_peers_Ok) auto
    with None q b o1 u h r show ?thesis by auto
  next
    case (Some t)
    with a parent have "t = parent" by auto
    with Some live q b o1 u h r show ?thesis by auto
  qed
qed

lemma spawn_join_eq_Ok [result_simps]: "spawn_join x r = Ok v \<longleftrightarrow> r = Ok v"
  by (cases r) (simp_all add: spawn_join_def)

lemma collect_resolution_Ok:
  "collect_resolution x unknown acc r = Ok acc' \<Longrightarrow>
     \<exists>u. r = Ok u \<and> acc' = (fst acc \<and> ri_internal_accepted u, snd acc @ [u])"
  by (auto simp: collect_resolution_def result_simps split: if_splits)

lemma collect_resolutions_Ok:
  assumes "try_fold (collect_resolution x unknown) (b, vs) rs = Ok (b', vs')"
  shows "\<exists>us. vs' = vs @ us \<and> list_all2 (\<lambda>r u. r = Ok u) rs us \<and> b' = (b \<and> list_all ri_internal_accepted us)"
  using assms
proof (induction rs arbitrary: b vs)
  case (Cons r rs)
  obtain u where u: "r = Ok u" "try_fold (collect_resolution x unknown) (b \<and> ri_internal_accepted u, vs @ [u]) rs = Ok (b', vs')"
    using Cons.prems by (auto simp: and_then_eq_Ok dest!: collect_resolution_Ok)
  from Cons.IH [OF u(2)] show ?case using u(1) by (auto simp: list_all2_Cons1)
qed simp

lemma total_parent_amount_Ok:
  "total_parent_amount_available x r = Ok n \<longleftrightarrow>
     (\<exists>os. list_all2 (\<lambda>ri o1. prior_output x ri = Ok o1) (rtx_fixed_resolutions r) os \<and>
       n = sum_list (List.map_filter opt_amount os))"
proof -
  have "try_fold (\<lambda>total ri. and_then (ri_amount x ri) (\<lambda>a. Ok (case a of Some n \<Rightarrow> total + n | None \<Rightarrow> total))) k rs = Ok n \<longleftrightarrow>
     (\<exists>os. list_all2 (\<lambda>ri o1. prior_output x ri = Ok o1) rs os \<and> n = k + sum_list (List.map_filter opt_amount os))" for k rs
  proof (induction rs arbitrary: k)
    case (Cons ri rs)
    show ?case
    proof (cases "prior_output x ri")
      case (Ok o1)
      then have "ri_amount x ri = Ok (opt_amount o1)" by (simp add: ri_amount_def)
      with Ok show ?thesis
        by (cases "opt_amount o1") (auto simp: Cons.IH list_all2_Cons1 List.map_filter_simps add.assoc)
    qed (auto simp: ri_amount_def list_all2_Cons1)
  qed auto
  then show ?thesis by (simp add: total_parent_amount_available_def)
qed

text \<open>C3: A transaction whose resolution succeeds and validates spends what it owns, apart from its
  floating inputs: every input without a floating identifier was resolved with the liveness
  check against the hash the transaction signs, the resolution counts as internal exactly
  when every parent was in the store, and the amounts of the outputs spent add up, in
  wrapping arithmetic, to the total of the new outputs.\<close>

theorem resolve_transaction_sound:
  assumes "resolve_transaction x nw unknown now tx ds = Ok r" "rtx_validate x r = Ok ()"
  shows "\<exists>os. list_all2 (\<lambda>i ri. resolve_input x nw now i (signable_hash x tx) True ds = Ok ri)
       (filter (\<lambda>i. i_floating_utxo_id i = None) (t_inputs tx)) (rtx_fixed_resolutions r) \<and>
     rtx_resolved_internally r = list_all ri_internal_accepted (rtx_fixed_resolutions r) \<and>
     list_all2 (\<lambda>ri o1. prior_output x ri = Ok o1) (rtx_fixed_resolutions r) os \<and>
     sum_list (List.map_filter opt_amount os) = total_output_amount tx"
proof -
  obtain b us where us: "try_fold (collect_resolution x unknown) (True, [])
       (map (\<lambda>input. spawn_join x (resolve_input x nw now input (signable_hash x tx) True ds))
         (filter (\<lambda>i. i_floating_utxo_id i = None) (t_inputs tx))) = Ok (b, us)"
    and r: "r = \<lparr> rtx_transaction = tx, rtx_fixed_resolutions = us, rtx_resolved_internally = b, rtx_descendents = [] \<rparr>"
    using assms(1) by (auto simp: resolve_transaction_def result_simps)
  have "list_all2 (\<lambda>i ri. resolve_input x nw now i (signable_hash x tx) True ds = Ok ri)
       (filter (\<lambda>i. i_floating_utxo_id i = None) (t_inputs tx)) us" "b = list_all ri_internal_accepted us"
    using collect_resolutions_Ok [OF us] by (auto simp: list_all2_map1 result_simps)
  moreover obtain os where "list_all2 (\<lambda>ri o1. prior_output x ri = Ok o1) us os"
      "sum_list (List.map_filter opt_amount os) = total_output_amount tx"
    using assms(2) r by (auto simp: rtx_validate_def result_simps total_parent_amount_Ok split: if_splits)
  ultimately show ?thesis using r by auto
qed

section \<open>A spendable output\<close>

definition owner_proof :: Proof where
  "owner_proof = \<lparr> pr_signature = signature_data [1], pr_public_key = Some (public_key_from_bytes [9]) \<rparr>"

definition owner :: Address where
  "owner = new_raw (digest_to_vec 28 (sha3_224 sample_ext [9]) @
     take 4 (digest_to_vec 32 (sha3_256 sample_ext (digest_to_vec 28 (sha3_224 sample_ext [9])))))"

definition owned_tx :: Transaction where
  "owned_tx = (new_blank 5 7) \<lparr> t_outputs := [output_new owner 10] \<rparr>"

definition spend_input :: Input where
  "spend_input = input_default \<lparr> i_utxo_id := Some (utxo_id_new (hash_new [1]) 0), i_proof := [owner_proof] \<rparr>"

text \<open>Spends of that output, told apart by the hash they claim.\<close>

definition spend_tx :: "u8 \<Rightarrow> Transaction" where
  "spend_tx c = (new_blank 5 7) \<lparr> t_inputs := [spend_input], t_outputs := [output_new owner 10],
     t_options := Some (tx_options_default \<lparr> to_network_type := Some (network_i32 Test) \<rparr>),
     t_struct_metadata := map_option (\<lambda>m. m \<lparr> sm_hash := Some (hash_new [c]) \<rparr>) (struct_metadata 5) \<rparr>"

definition owned_store :: data_store where
  "owned_store = empty_store
     \<lparr> ds_transactions := [\<lparr> tr_hash = [1], tr_raw = [], tr_time = 0, tr_rejection_reason = None,
         tr_accepted = True, tr_is_test = False \<rparr>],
       ds_utxo := [\<lparr> ur_transaction_hash = [1], ur_output_index = 0, ur_address = [], ur_output = [], ur_time = 0,
         ur_amount = Some 10, ur_raw = [], ur_has_code = False \<rparr>] \<rparr>"

abbreviation owned_ext :: externals where
  "owned_ext \<equiv> echo_ext owned_tx"

lemma owner_verifies: "verify_proofs owned_ext [owner_proof] (digest owned_ext s) owner = Ok ()"
proof -
  have k: "proof_public_key_bytes owned_ext owner_proof = Ok [9]"
    by (simp add: proof_public_key_bytes_def owner_proof_def public_key_from_bytes_def bytes_data_def bytes_data_from_def)
  then have "proofs_to_address owned_ext [owner_proof] = Ok owner"
    by (simp add: proofs_to_address_single address_of_hash owner_def) (simp add: echo_ext_def)
  moreover have "proof_verify owned_ext (digest owned_ext s) owner_proof = Ok ()"
  proof -
    have "signature_bytes owned_ext owner_proof = Ok [1]" "hash_safe_bytes owned_ext (digest owned_ext s) = Ok (vb (digest owned_ext s))"
      "\<exists>g. pr_signature owner_proof = Some g \<and> sig_signature_type g = signature_type_ecdsa"
      by (simp_all add: owner_proof_def signature_data_def signature_bytes_def bytes_data_def bytes_data_from_def
          hash_safe_bytes_vb)
    moreover have "util_verify owned_ext (vb (digest owned_ext s)) [1] [9] = Ok ()"
      by (simp add: util_verify_def slice_def result_error_msg_def echo_ext_def sample_ext_def)
    ultimately show ?thesis using k by (auto simp: proof_verify_def)
  qed
  ultimately show ?thesis by (simp add: verify_proofs_def)
qed

lemma owned_store_sel:
  "ds_fault owned_store = None" "ds_observation_edge owned_store = []" "ds_nodes owned_store = []"
  "query_maybe_transaction owned_ext (hash_new [1]) owned_store = Ok (Some (owned_tx, None))"
  "query_utxo_id_valid owned_ext (hash_new [1]) 0 owned_store = Ok True"
  by (simp_all add: owned_store_def query_maybe_transaction_def query_utxo_id_valid_def read_rejection_def
      proto_deserialize_def echo_ext_def get_def pool_def map_err_sqlx_def utxo_key_def)
     (simp_all add: empty_store_def)

lemma spend_input_sel:
  "i_utxo_id spend_input = Some (utxo_id_new (hash_new [1]) 0)" "i_proof spend_input = [owner_proof]"
  "i_floating_utxo_id spend_input = None" "i_output spend_input = None"
  by (simp_all add: spend_input_def input_default_def)

definition resolved_spend :: "Hash \<Rightarrow> ResolvedInput" where
  "resolved_spend s = \<lparr> ri_input = spend_input, ri_parent_transaction = owned_tx, ri_internal_accepted = True,
     ri_internal_valid_index = True, ri_observation_proofs = [], ri_peer_valid_index = [],
     ri_peer_invalid_index = [], ri_signable_hash = s \<rparr>"

lemma resolve_spend:
  assumes "query_maybe_transaction owned_ext (hash_new [1]) ds = Ok (Some (owned_tx, None))"
    "query_utxo_id_valid owned_ext (hash_new [1]) 0 ds = Ok True" "ds_fault ds = None" "ds_observation_edge ds = []"
  shows "resolve_input owned_ext nw now spend_input (digest owned_ext s) True ds = Ok (resolved_spend (digest owned_ext s))"
proof -
  have u: "u_transaction_hash (utxo_id_new (hash_new [1]) 0) = Some (hash_new [1])"
    "u_output_index (utxo_id_new (hash_new [1]) 0) = 0" by (simp_all add: utxo_id_new_def)
  have "local_parent owned_ext (hash_new [1]) ds = Ok (Some owned_tx)" using assms by (simp add: local_parent_eq_Ok)
  moreover have "select_observation_edge owned_ext (hash_new [1]) ds = Ok []"
    using assms by (simp add: select_observation_edge_def)
  moreover have "ri_verify_proof owned_ext (resolved_spend (digest owned_ext s)) = Ok ()"
    using owner_verifies [of s] by (simp add: ri_verify_proof_Ok resolved_spend_def spend_input_sel u owned_tx_def
        output_new_sel get_def)
  ultimately show ?thesis
    using assms(2) by (simp add: resolve_input_def spend_input_sel u no_answers_def resolved_spend_def)
qed

theorem resolve_input_sound_witness:
  "\<exists>r. resolve_input owned_ext near_network 5 spend_input (digest owned_ext []) True owned_store = Ok r \<and>
     unspent owned_store ([1], 0) \<noteq> None"
proof -
  have r: "resolve_input owned_ext near_network 5 spend_input (digest owned_ext []) True owned_store =
      Ok (resolved_spend (digest owned_ext []))"
    using owned_store_sel by (intro resolve_spend) auto
  from resolve_input_sound [OF r] show ?thesis
    using r by (auto simp: resolved_spend_def spend_input_sel utxo_id_new_def)
qed

lemma spend_tx_sel [simp]:
  "t_inputs (spend_tx c) = [spend_input]" "t_outputs (spend_tx c) = [output_new owner 10]"
  "hash_or x (spend_tx c) = hash_new [c]"
  by (simp_all add: spend_tx_def hash_or_def struct_metadata_def)

lemma resolve_spend_tx:
  assumes "query_maybe_transaction owned_ext (hash_new [1]) ds = Ok (Some (owned_tx, None))"
    "query_utxo_id_valid owned_ext (hash_new [1]) 0 ds = Ok True" "ds_fault ds = None" "ds_observation_edge ds = []"
    "ds_nodes ds = []"
  shows "\<exists>r. resolve_transaction owned_ext nw unknown now (spend_tx c) ds = Ok r \<and> rtx_validate owned_ext r = Ok () \<and>
     rtx_resolved_internally r"
proof -
  obtain b where s: "signable_hash owned_ext (spend_tx c) = digest owned_ext b" by (simp add: signable_hash_content)
  have "active_nodes owned_ext now None ds = Ok []" using assms by (simp add: active_nodes_def active_rows_def)
  moreover have "prior_output owned_ext (resolved_spend (digest owned_ext b)) = Ok (output_new owner 10)"
    by (simp add: prior_output_def resolved_spend_def spend_input_sel owned_tx_def utxo_id_new_def get_def)
  ultimately show ?thesis
    using resolve_spend [OF assms(1-4), of nw now b] s
    by (simp add: resolve_transaction_def spend_input_sel spawn_join_def collect_resolution_def resolved_spend_def
        rtx_validate_def total_parent_amount_available_def ri_amount_def total_output_amount_def)
qed

theorem resolve_transaction_sound_witness:
  "\<exists>r. resolve_transaction owned_ext near_network (\<lambda>_. Inr ()) 5 (spend_tx 3) owned_store = Ok r \<and>
     rtx_validate owned_ext r = Ok () \<and> length (rtx_fixed_resolutions r) = 1"
proof -
  obtain r where r: "resolve_transaction owned_ext near_network (\<lambda>_. Inr ()) 5 (spend_tx 3) owned_store = Ok r"
    "rtx_validate owned_ext r = Ok ()"
    using resolve_spend_tx [of owned_store near_network "\<lambda>_. Inr ()" 5 3] owned_store_sel by auto
  from resolve_transaction_sound [OF this] show ?thesis
    using r by (auto simp: spend_input_sel dest: list_all2_lengthD)
qed

end
