(* ===== verification/Contracts.thy ===== *)
theory Contracts
  imports Relay
begin

text \<open>
  Contract execution and ordering: the wrapper around the wasm runtime
  (\<open>executor/src/extism_wrapper.rs\<close>), the contention manager
  (\<open>src/core/transact/contention_conflicts.rs\<close>), the contract state manager
  (\<open>src/core/contract/contract_state_manager.rs\<close>) and the relay's messages to both.  Response
  channels are known by a number; \<open>deliver\<close> is the outcome of sending on one.  The hash maps
  that are iterated are association lists.
\<close>

section \<open>Executing code\<close>

definition invoke_wasm :: "externals \<Rightarrow> bytes \<Rightarrow> string \<Rightarrow> ExecutionInput \<Rightarrow> ExecutionResult rg_result" where
  "invoke_wasm x wasm_bytes fname args =
     and_then (lib_result (\<lambda>e. error_info x (''Unable to build plugin while invoking wasm '' @ e))
       (extism_plugin_new x wasm_bytes)) (\<lambda>plugin.
     if \<not> extism_has_function x plugin fname then Err (error_info x (''Function not found '' @ fname))
     else
     and_then (add fname (lib_result (\<lambda>e. error_info x (''Error calling function '' @ e))
       (extism_call x plugin fname (enc_execution_input x args)))) (\<lambda>bs.
     proto_deserialize x (dec_execution_result x) bs))"

definition execution_input_default :: ExecutionInput where
  "execution_input_default = \<lparr> xi_tx = None, xi_input = None, xi_state = None \<rparr>"

definition invoke_extism_wasm :: "externals \<Rightarrow> bytes \<Rightarrow> ExecutionInput \<Rightarrow> ExecutionResult rg_result" where
  "invoke_extism_wasm x wasm_bytes args = invoke_wasm x wasm_bytes ''extism_entrypoint'' args"

definition invoke_extism_wasm_direct :: "externals \<Rightarrow> bytes \<Rightarrow> bytes \<Rightarrow> bytes \<Rightarrow> ExecutionResult rg_result" where
  "invoke_extism_wasm_direct x wasm_bytes input state =
     invoke_wasm x wasm_bytes ''extism_entrypoint''
       (execution_input_default \<lparr> xi_input := bytes_data input, xi_state := bytes_data state \<rparr>)"

section \<open>Contention\<close>

definition key_div_mod :: "externals \<Rightarrow> ContentionKey \<Rightarrow> nat \<Rightarrow> i64 rg_result" where
  "key_div_mod x k bucket = div_mod x (digest x (enc_contention_key x k)) bucket"

record ContentionResult =
  cr_winner :: "Hash option"
  cr_no_contest :: bool
  cr_proofs :: "ObservationProof list"

datatype ContentionMessageInner =
    RegisterPotentialContention Hash
  | ObservationInfo ObservationMetadata
  | CheckContentionAccepted Hash

type_synonym contentions = "ContentionKey \<Rightarrow> (Hash \<Rightarrow> i64 option) option"

text \<open>The subscribers and the proof buffer of the manager are never written.\<close>

definition process_message ::
    "externals \<Rightarrow> i64 \<Rightarrow> ContentionKey \<Rightarrow> ContentionMessageInner \<Rightarrow> (contentions, ContentionResult) action" where
  "process_message x now key msg c =
     (let unanswered = Ok \<lparr> cr_winner = None, cr_no_contest = False, cr_proofs = [] \<rparr> in
      case msg of
        RegisterPotentialContention hash \<Rightarrow>
          (case c key of
             Some m \<Rightarrow>
               (case m hash of
                  Some ts \<Rightarrow> (Err (error_info x (''Duplicate contention, hash already registered at time '' @
                    show_int (sint ts) @ '' '' @ json_or x (json_hash x hash))), c)
                | None \<Rightarrow> (Ok \<lparr> cr_winner = Some hash, cr_no_contest = True, cr_proofs = [] \<rparr>,
                    c(key \<mapsto> m(hash \<mapsto> now))))
           | None \<Rightarrow> (unanswered, c(key \<mapsto> [hash \<mapsto> now])))
      | ObservationInfo _ \<Rightarrow> (unanswered, c)
      | CheckContentionAccepted _ \<Rightarrow> (unanswered, c))"

text \<open>The channel a contention message is sent to.\<close>

definition contention_message ::
    "externals \<Rightarrow> nat \<Rightarrow> (nat \<Rightarrow> string + unit) \<Rightarrow> 'c list \<Rightarrow> ContentionKey \<Rightarrow> nat rg_result" where
  "contention_message x bucket_parallelism sent contention key =
     and_then (key_div_mod x key bucket_parallelism) (\<lambda>i.
     and_then (index contention (unat i)) (\<lambda>_.
     and_then (channel_send x (sent (unat i))) (\<lambda>_. Ok (unat i))))"

text \<open>\<open>answer\<close> is what arrives on the response channel of the state manager of that bucket.\<close>

definition send_contract_ordering_message ::
    "externals \<Rightarrow> nat \<Rightarrow> (nat \<Rightarrow> string + unit) \<Rightarrow> (nat \<Rightarrow> string + ContractStateMarker rg_result) \<Rightarrow> 'c list \<Rightarrow>
     Output \<Rightarrow> ContractStateMarker rg_result" where
  "send_contract_ordering_message x bucket_parallelism sent answer channels output =
     and_then (request_contention_key x output) (\<lambda>ck.
     and_then (key_div_mod x ck bucket_parallelism) (\<lambda>h.
     and_then (case get channels (unat h) of Some _ \<Rightarrow> Ok () | None \<Rightarrow> Panic ''missing channel'') (\<lambda>_.
     and_then (channel_send x (sent (unat h))) (\<lambda>_.
     and_then (recv_async_err x (answer (unat h))) (\<lambda>r. r)))))"

section \<open>The contract state manager\<close>

record contract_manager =
  cm_ds :: data_store
  cm_unordered :: "(ContentionKey \<times> (Transaction \<times> i64) list) list"
  cm_subscribers :: "(ContentionKey \<times> nat list) list"
  cm_sent :: "(nat \<times> ContractStateMarker rg_result) list"

definition on_state :: "(data_store, 'a) action \<Rightarrow> (contract_manager, 'a) action" where
  "on_state a m = (case a (cm_ds m) of (r, ds) \<Rightarrow> (r, m \<lparr> cm_ds := ds \<rparr>))"

definition send_response ::
    "externals \<Rightarrow> (nat \<Rightarrow> string + unit) \<Rightarrow> ContractStateMarker rg_result \<Rightarrow> nat \<Rightarrow> (contract_manager, unit) action" where
  "send_response x deliver r s m = (case channel_send x (deliver s) of
     Ok _ \<Rightarrow> (Ok (), m \<lparr> cm_sent := cm_sent m @ [(s, r)] \<rparr>) | Err e \<Rightarrow> (Err e, m) | Panic p \<Rightarrow> (Panic p, m))"

definition process_tx ::
    "externals \<Rightarrow> i64 \<Rightarrow> Transaction \<Rightarrow> Output \<Rightarrow> nat \<Rightarrow> (contract_manager, unit) action" where
  "process_tx x now transaction output response m =
     (if is_deploy output then (Err (error_info x ''Deploy transactions not supported''), m)
      else if \<not> is_request output then (Err (error_info x ''Non-request transaction outputs not supported''), m)
      else case request_contention_key x output of
        Err e \<Rightarrow> (Err e, m)
      | Panic p \<Rightarrow> (Panic p, m)
      | Ok contention_key \<Rightarrow> (Ok (), m
          \<lparr> cm_unordered := AList.update contention_key
              ((case map_of (cm_unordered m) contention_key of Some v \<Rightarrow> v | None \<Rightarrow> []) @ [(transaction, now)])
              (cm_unordered m),
            cm_subscribers := AList.update contention_key
              ((case map_of (cm_subscribers m) contention_key of Some v \<Rightarrow> v | None \<Rightarrow> []) @ [response])
              (cm_subscribers m) \<rparr>))"

text \<open>The new state a request produces from the most recent one.\<close>

definition request_marker ::
    "externals \<Rightarrow> Address \<Rightarrow> StateSelector option \<Rightarrow> bytes \<Rightarrow> ContractStateMarker \<Rightarrow> Transaction \<Rightarrow>
     ContractStateMarker rg_result" where
  "request_marker x address sel code_bytes most_recent tx =
     and_then (safe_get_msg x ''Missing output'' (get (output_of address tx) 0)) (\<lambda>output.
     and_then (request_data x output) (\<lambda>input.
     and_then (safe_bytes x (csm_state most_recent)) (\<lambda>state.
     and_then (invoke_extism_wasm_direct x code_bytes input state) (\<lambda>er.
     and_then (safe_get_msg x ''data'' (xr_data er)) (\<lambda>d.
     and_then (safe_get_msg x ''state'' (sd_state d)) (\<lambda>updated_state.
     and_then (time x tx) (\<lambda>t.
     Ok \<lparr> csm_address = Some address, csm_state = Some updated_state, csm_selector = sel,
          csm_transaction_marker = Some (hash_or x tx), csm_nonce = csm_nonce most_recent + 1, csm_time = t \<rparr>)))))))"

definition notify_state :: "externals \<Rightarrow> (nat \<Rightarrow> string + unit) \<Rightarrow> ContentionKey \<Rightarrow> ContractStateMarker \<Rightarrow>
    (contract_manager, unit) action" where
  "notify_state x deliver k csm m =
     (case map_of (cm_subscribers m) k of
        Some subs \<Rightarrow> for_each_do (send_response x deliver (Ok csm)) subs
          (m \<lparr> cm_subscribers := AList.delete k (cm_subscribers m) \<rparr>)
      | None \<Rightarrow> (Ok (), m))"

definition vec_remove :: "nat \<Rightarrow> 'a list \<Rightarrow> ('a list, 'e) result" where
  "vec_remove i v = (if i < length v then Ok (take i v @ drop (Suc i) v) else Panic ''removal index out of bounds'')"

definition remove_request :: "ContentionKey \<Rightarrow> nat \<Rightarrow> (contract_manager, unit) action" where
  "remove_request k idx m =
     (case vec_remove idx (case map_of (cm_unordered m) k of Some v \<Rightarrow> v | None \<Rightarrow> []) of
        Ok v \<Rightarrow> (Ok (), m \<lparr> cm_unordered := AList.update k v (cm_unordered m) \<rparr>)
      | Err e \<Rightarrow> (Err e, m)
      | Panic p \<Rightarrow> (Panic p, m))"

definition run_request ::
    "externals \<Rightarrow> (nat \<Rightarrow> string + unit) \<Rightarrow> ContentionKey \<Rightarrow> Address \<Rightarrow> bytes \<Rightarrow> ContractStateMarker \<Rightarrow>
     nat \<times> Transaction \<Rightarrow> (contract_manager, unit) action" where
  "run_request x deliver k address code_bytes most_recent p =
     seq_do (pure (request_marker x address (ck_selector k) code_bytes most_recent (snd p))) (\<lambda>csm.
     seq_do (on_state (insert_state x csm)) (\<lambda>_.
     seq_do (notify_state x deliver k csm) (\<lambda>_.
     remove_request k (fst p))))"

text \<open>The requests of a key in order of their times; comparing needs a time in each.\<close>

definition order_requests :: "externals \<Rightarrow> (Transaction \<times> i64) list \<Rightarrow> Transaction list rg_result" where
  "order_requests x v =
     (if length v \<le> 1 then Ok (map fst v)
      else and_then (try_map (\<lambda>(tx, _). and_then (expect ''t'' (time x tx)) (\<lambda>t. Ok (t, tx))) v) (\<lambda>ts.
        Ok (map snd (sort_key (\<lambda>(t, _). sint t) ts))))"

definition run_key ::
    "externals \<Rightarrow> (nat \<Rightarrow> string + unit) \<Rightarrow> ContentionKey \<times> (Transaction \<times> i64) list \<Rightarrow> (contract_manager, unit) action" where
  "run_key x deliver p = (case p of (k, v) \<Rightarrow>
     seq_do (pure (safe_get_msg x ''Missing address on contention key'' (ck_address k))) (\<lambda>address.
     seq_do (on_state (query (query_recent_state x address (ck_selector k) (Some 1)))) (\<lambda>recent.
     seq_do (pure (safe_get_msg x ''Missing most recent contract state'' (get recent 0))) (\<lambda>most_recent.
     seq_do (on_state (query (resolve_code x address))) (\<lambda>resolve.
     seq_do (pure (safe_get_msg x ''Code Utxo'' (rc_utxo_entry resolve))) (\<lambda>u.
     seq_do (pure (safe_get_msg x ''Output'' (ue_output u))) (\<lambda>o1.
     seq_do (pure (safe_get_msg x ''Code'' (code o1))) (\<lambda>code_bytes.
     seq_do (pure (order_requests x v)) (\<lambda>v2.
     for_each_do (run_request x deliver k address code_bytes most_recent) (enumerate 0 v2))))))))))"

definition interval :: "externals \<Rightarrow> (nat \<Rightarrow> string + unit) \<Rightarrow> (contract_manager, unit) action" where
  "interval x deliver m =
     seq_do (for_each_do (run_key x deliver) (cm_unordered m)) (\<lambda>_ m'.
       (Ok (), m' \<lparr> cm_unordered := filter (\<lambda>(k, _). k \<notin> fst ` set (cm_unordered m)) (cm_unordered m') \<rparr>)) m"

datatype contract_event = ProcessTransaction Transaction Output nat i64 | Interval

definition interval_fold_or_recv ::
    "externals \<Rightarrow> (nat \<Rightarrow> string + unit) \<Rightarrow> contract_event \<Rightarrow> (contract_manager, unit) action" where
  "interval_fold_or_recv x deliver message m =
     (case message of
        ProcessTransaction transaction output response now \<Rightarrow>
          (case process_tx x now transaction output response m of
             (Err e, m') \<Rightarrow> send_response x deliver (Err e) response m'
           | r \<Rightarrow> r)
      | Interval \<Rightarrow> interval x deliver m)"

section \<open>Properties\<close>

lemma sint_byte_sum: "length bs \<le> 32 \<Longrightarrow> 0 \<le> sint (sum_list (map ucast (bs :: bytes)) :: i64)"
  using sum_bytes_nat [of bs] sint_bounds [of "sum_bytes bs" 8160] by (simp add: sum_bytes_def)

lemma unat_small_i64: "n < 2 ^ 63 \<Longrightarrow> unat (word_of_nat n :: i64) = n"
  by (simp add: unsigned_of_nat take_bit_nat_eq_self)

lemma div_mod_range:
  assumes "hash_vec x h = Ok v" "length v \<le> 32" "0 < n" "n < 2 ^ 63"
  shows "\<exists>i. div_mod x h n = Ok i \<and> unat i < n"
proof -
  define s :: i64 where "s = sum_list (map ucast v)"
  have n: "sint (word_of_nat n :: i64) = int n" using assms(4) by (simp add: sint_small unat_small_i64)
  have b: "(word_of_nat n :: i64) \<noteq> 0" using n assms(3) by auto
  have "0 \<le> sint s" using sint_byte_sum [OF assms(2)] by (simp add: s_def)
  then obtain m where m: "sint s smod int n = int m" "m < n"
    using smod_int_compares(1,2) [of "sint s" "int n"] assms(3) by (metis of_nat_0_less_iff of_nat_less_iff zero_le_imp_eq_int)
  then have "unat (word_of_int (sint s smod int n) :: i64) = m" using assms(4) by (simp add: unat_small_i64)
  with b n m assms(1) show ?thesis by (auto simp: div_mod_def Let_def s_def)
qed

text \<open>Messages about a contract find their bucket: with a positive number of buckets below
  \<open>2\<^sup>6\<^sup>3\<close> and one channel per bucket, the index computed from a contention key lies within
  the channels, so neither the indexing of the contention channels nor the lookup of the
  state manager's channel panics, and the ordering message returns what the manager of that
  bucket answers.\<close>

theorem contract_bucket_in_range:
  assumes "0 < n" "n < 2 ^ 63" "length channels = n" "\<And>i. sent i = Inr ()"
  shows "\<exists>i. i < n \<and> key_div_mod x k n = Ok (word_of_nat i) \<and>
     contention_message x n sent channels k = Ok i \<and>
     (\<forall>output r. request_contention_key x output = Ok k \<longrightarrow> answer i = Inr r \<longrightarrow>
        send_contract_ordering_message x n sent answer channels output = r)"
proof -
  obtain i where i: "key_div_mod x k n = Ok i" "unat i < n"
    using div_mod_range [of x "digest x (enc_contention_key x k)" "vb (digest x (enc_contention_key x k))" n] assms(1,2)
    by (auto simp: key_div_mod_def)
  then show ?thesis
    using assms(3,4)
    by (intro exI [of _ "unat i"]) (auto simp: contention_message_def send_contract_ordering_message_def channel_send_def
        recv_async_err_def index_def get_def)
qed

text \<open>The answers of the contention manager are the wrong way round: on a key no transaction
  holds, the first registration is answered with no winner and as contested; a second
  transaction registering on the same key is then named the winner without contest, and a
  repeated registration is an error that changes nothing.\<close>

theorem contention_answers_inverted:
  assumes "c k = None" "h \<noteq> g"
  shows "\<exists>c1 c2. process_message x t k (RegisterPotentialContention h) c =
       (Ok \<lparr> cr_winner = None, cr_no_contest = False, cr_proofs = [] \<rparr>, c1) \<and>
     process_message x u k (RegisterPotentialContention g) c1 =
       (Ok \<lparr> cr_winner = Some g, cr_no_contest = True, cr_proofs = [] \<rparr>, c2) \<and>
     c2 = c(k \<mapsto> [h \<mapsto> t, g \<mapsto> u]) \<and>
     (\<forall>f \<in> {h, g}. \<exists>e. process_message x w k (RegisterPotentialContention f) c2 = (Err e, c2))"
  using assms by (auto simp: process_message_def)

text \<open>How many requests of a key wait, and that no operation on one key touches another.\<close>

definition waiting :: "ContentionKey \<Rightarrow> contract_manager \<Rightarrow> nat" where
  "waiting k m = length (case map_of (cm_unordered m) k of Some v \<Rightarrow> v | None \<Rightarrow> [])"

lemma pure_Ok: "pure r s = (Ok a, s') \<longleftrightarrow> r = Ok a \<and> s' = s"
  by (auto simp: pure_def)

lemma on_state_unordered: "on_state a m = (r, m') \<Longrightarrow> cm_unordered m' = cm_unordered m"
  by (auto simp: on_state_def split: prod.splits)

lemma for_each_unordered:
  assumes "\<And>s m r m'. f s m = (r, m') \<Longrightarrow> cm_unordered m' = cm_unordered m" "for_each_do f ss m = (r, m')"
  shows "cm_unordered m' = cm_unordered m"
  using assms(2)
proof (induction ss arbitrary: m)
  case (Cons s ss)
  then show ?case using assms(1) [of s m] by (auto simp: seq_do_def split: prod.splits result.splits dest!: assms(1))
qed (simp add: pure_def)

lemma notify_state_unordered: "notify_state x deliver k csm m = (r, m') \<Longrightarrow> cm_unordered m' = cm_unordered m"
  by (auto simp: notify_state_def send_response_def split: option.splits result.splits dest!: for_each_unordered [rotated])

lemma remove_request_Ok:
  assumes "remove_request k i m = (Ok u, m')"
  shows "i < waiting k m \<and> waiting k m' = waiting k m - 1 \<and> (\<forall>j. j \<noteq> k \<longrightarrow> waiting j m' = waiting j m)"
  using assms
  by (auto simp: remove_request_def vec_remove_def waiting_def update_conv' split: option.splits result.splits if_splits)

lemma run_request_Ok:
  assumes "run_request x deliver k a c r p m = (Ok u, m')"
  shows "fst p < waiting k m \<and> waiting k m' = waiting k m - 1 \<and> (\<forall>j. j \<noteq> k \<longrightarrow> waiting j m' = waiting j m)"
proof -
  obtain m1 where "cm_unordered m1 = cm_unordered m" "remove_request k (fst p) m1 = (Ok u, m')"
    using assms by (auto simp: run_request_def seq_do_eq_Ok pure_Ok dest!: on_state_unordered notify_state_unordered)
  with remove_request_Ok [of k "fst p" m1] show ?thesis by (simp add: waiting_def)
qed

lemma run_requests_Ok:
  assumes "for_each_do (run_request x deliver k a c r) (enumerate i ts) m = (Ok u, m')"
  shows "(ts \<noteq> [] \<longrightarrow> i + 2 * length ts < waiting k m + 2) \<and> (\<forall>j. j \<noteq> k \<longrightarrow> waiting j m' = waiting j m)"
  using assms
proof (induction ts arbitrary: i m)
  case (Cons t ts)
  obtain m1 where m1: "run_request x deliver k a c r (i, t) m = (Ok (), m1)"
    "for_each_do (run_request x deliver k a c r) (enumerate (Suc i) ts) m1 = (Ok u, m')"
    using Cons.prems by (auto simp: seq_do_eq_Ok)
  from run_request_Ok [OF m1(1)] Cons.IH [OF m1(2)] show ?case by (cases ts) auto
qed (simp add: pure_eq)

lemma order_requests_length: "order_requests x v = Ok ts \<Longrightarrow> length ts = length v"
  by (auto simp: order_requests_def result_simps split: if_splits dest: list_all2_lengthD)

lemma run_key_Ok:
  assumes "run_key x deliver (k, v) m = (Ok u, m')"
  shows "(v \<noteq> [] \<longrightarrow> 2 * length v < waiting k m + 2) \<and> (\<forall>j. j \<noteq> k \<longrightarrow> waiting j m' = waiting j m)"
proof -
  obtain a c r v2 m1 where "order_requests x v = Ok v2" "cm_unordered m1 = cm_unordered m"
    "for_each_do (run_request x deliver k a c r) (enumerate 0 v2) m1 = (Ok u, m')"
    using assms by (auto simp: run_key_def seq_do_eq_Ok pure_Ok dest!: on_state_unordered)
  with run_requests_Ok [of x deliver k a c r 0 v2 m1 u m'] order_requests_length [of x v v2] show ?thesis
    by (auto simp: waiting_def)
qed

lemma run_keys_Ok:
  assumes "for_each_do (run_key x deliver) ps m = (Ok u, m')" "(k, v) \<in> set ps" "distinct (map fst ps)" "2 \<le> length v"
  shows "waiting k m \<noteq> length v"
  using assms
proof (induction ps arbitrary: m)
  case (Cons p ps)
  obtain m1 where m1: "run_key x deliver p m = (Ok (), m1)" "for_each_do (run_key x deliver) ps m1 = (Ok u, m')"
    using Cons.prems(1) by (auto simp: seq_do_eq_Ok)
  show ?case
  proof (cases "p = (k, v)")
    case True
    with run_key_Ok [of x deliver k v m] m1 Cons.prems(4) show ?thesis by auto
  next
    case False
    with Cons.prems have "(k, v) \<in> set ps" "fst p \<noteq> k" by (auto simp: image_iff)
    with run_key_Ok [of x deliver "fst p" "snd p" m] m1(1) have "waiting k m1 = waiting k m" by auto
    with Cons.IH [OF m1(2) \<open>(k, v) \<in> set ps\<close>] Cons.prems show ?thesis by simp
  qed
qed simp

text \<open>C36: A contract cannot serve two requests of one interval: whenever two or more requests wait
  under the same contention key, the interval of the contract state manager does not
  complete, whatever the requests, the stored states and the executed code are, because
  the loop removes from the waiting list by an index of the list it had before.\<close>

theorem contract_batch_fails:
  assumes "distinct (map fst (cm_unordered m))" "map_of (cm_unordered m) k = Some v" "2 \<le> length v"
  shows "fst (interval x deliver m) \<noteq> Ok ()"
proof
  assume "fst (interval x deliver m) = Ok ()"
  then obtain m' where "for_each_do (run_key x deliver) (cm_unordered m) m = (Ok (), m')"
    by (auto simp: interval_def seq_do_def split: prod.splits result.splits)
  from run_keys_Ok [OF this _ assms(1), of k v] assms(2,3) show False
    by (auto simp: waiting_def dest: map_of_SomeD)
qed

section \<open>Witnesses\<close>

definition sample_key :: ContentionKey where
  "sample_key = contract_request (new_raw [1]) None"

theorem contract_bucket_in_range_witness:
  "\<exists>i < 10. contention_message sample_ext 10 (\<lambda>_. Inr ()) (replicate 10 ()) sample_key = Ok i"
  using contract_bucket_in_range [of 10 "replicate 10 ()" "\<lambda>_. Inr ()" sample_ext sample_key "\<lambda>_. Inl []"] by auto

theorem contention_answers_inverted_witness:
  "\<exists>c1 c2. process_message sample_ext 5 sample_key (RegisterPotentialContention (hash_new [1])) Map.empty =
       (Ok \<lparr> cr_winner = None, cr_no_contest = False, cr_proofs = [] \<rparr>, c1) \<and>
     process_message sample_ext 6 sample_key (RegisterPotentialContention (hash_new [2])) c1 =
       (Ok \<lparr> cr_winner = Some (hash_new [2]), cr_no_contest = True, cr_proofs = [] \<rparr>, c2)"
  using contention_answers_inverted [of Map.empty sample_key "hash_new [1]" "hash_new [2]" sample_ext 5 6 7] by auto

definition sample_manager :: contract_manager where
  "sample_manager = \<lparr> cm_ds = empty_store, cm_unordered = [(sample_key, [(new_blank 5 7, 1), (new_blank 6 7, 2)])],
     cm_subscribers = [(sample_key, [1, 2])], cm_sent = [] \<rparr>"

theorem contract_batch_fails_witness: "fst (interval sample_ext (\<lambda>_. Inr ()) sample_manager) \<noteq> Ok ()"
  by (rule contract_batch_fails) (auto simp: sample_manager_def)

end
