(* ===== verification/Process_Transaction.thy ===== *)
theory Process_Transaction
  imports Complex_Main Resolver Contracts "HOL-Library.List_Lexorder"
begin

text \<open>
  Transaction processing, \<open>src/core/process_transaction.rs\<close>: the life of a transaction from its
  arrival to its acceptance, as a task that runs in stages between which other tasks run.
  A stage is a stretch of the code that this model does not interleave: registration, each
  resolution, each lock, each observation, the gossip, each turn of the waiting loop, the
  settling of conflicts, the commit and the response.

  The conflict channel of a request is its mailbox, kept by request id; sending on it cannot
  fail, since every holder of a sender also holds the receiver.  \<open>process_env\<close> is what the
  surroundings answer during a stage.  Trust values are exact rationals instead of floats.
  Log statements are left out where they cannot fail.
\<close>

section \<open>Configuration and surroundings\<close>

record node_config =
  nc_network :: NetworkEnvironment
  nc_finalization :: i64
  nc_seeds :: "(PeerId option \<times> TrustData list) list"
  nc_fixed_peer_tx :: Transaction
  nc_predicted_trust :: "PeerId \<Rightarrow> rat option"
  nc_contract_buckets :: nat

record process_env =
  pe_now :: i64
  pe_network :: network
  pe_unknown :: "ResolvedInput \<Rightarrow> string + unit"
  pe_buffer :: "ObservationMetadata \<Rightarrow> ObservationProof rg_result"
  pe_contract_sent :: "nat \<Rightarrow> string + unit"
  pe_contract_answer :: "nat \<Rightarrow> string + ContractStateMarker rg_result"

section \<open>Trust\<close>

definition maybe_label :: "TrustData \<Rightarrow> rat option" where
  "maybe_label d = map_option (\<lambda>l. of_int (sint l) / 1000) (td_label_rating d)"

definition label :: "TrustData \<Rightarrow> (rat, 'e) result" where
  "label d = (case maybe_label d of Some l \<Rightarrow> Ok l | None \<Rightarrow> Panic ''label is not set'')"

definition seed_labels :: "node_config \<Rightarrow> (PeerId \<times> rat) list rg_result" where
  "seed_labels cfg = try_map (\<lambda>(p, ts).
       and_then (case ts of [] \<Rightarrow> Ok (4 / 5) | t # _ \<Rightarrow> label t) (\<lambda>l. Ok (p, l)))
     (List.map_filter (\<lambda>(p, ts). map_option (\<lambda>q. (q, ts)) p) (nc_seeds cfg))"

definition apply_label :: "(PeerId \<Rightarrow> rat option) \<Rightarrow> TrustRatingLabel \<Rightarrow> PeerId \<Rightarrow> rat option" where
  "apply_label hm l = (case trl_peer_id l of
     None \<Rightarrow> hm
   | Some p \<Rightarrow> foldl (\<lambda>hm d. if td_allow_model_override d then hm
         else (case maybe_label d of Some r \<Rightarrow> hm(p \<mapsto> r) | None \<Rightarrow> hm)) hm (trl_trust_data l))"

definition get_trust :: "externals \<Rightarrow> node_config \<Rightarrow> (data_store, PeerId \<Rightarrow> rat option) action" where
  "get_trust x cfg =
     seq_do (pure (seed_labels cfg)) (\<lambda>_.
     seq_do (peer_tx x (nc_fixed_peer_tx cfg)) (\<lambda>pt.
     seq_do (pure (peer_data x pt)) (\<lambda>pd.
     pure (Ok (foldl apply_label (nc_predicted_trust cfg) (pm_labels pd))))))"

definition get_trust_of_peer :: "externals \<Rightarrow> node_config \<Rightarrow> PeerId \<Rightarrow> (data_store, rat option) action" where
  "get_trust_of_peer x cfg peer_id = seq_do (get_trust x cfg) (\<lambda>hm. pure (Ok (hm peer_id)))"

definition get_trust_of_node :: "externals \<Rightarrow> node_config \<Rightarrow> PublicKey \<Rightarrow> (data_store, rat option) action" where
  "get_trust_of_node x cfg public_key =
     seq_do (get_trust x cfg) (\<lambda>hm.
     seq_do (query (peer_id_for_node_pk x public_key)) (\<lambda>p. pure (Ok (Option.bind p hm))))"

section \<open>Conflict resolution\<close>

fun node_trust :: "externals \<Rightarrow> node_config \<Rightarrow> PublicKey list \<Rightarrow> (bytes \<Rightarrow> rat option) \<Rightarrow>
    (data_store, bytes \<Rightarrow> rat option) action" where
  "node_trust x cfg [] m = pure (Ok m)"
| "node_trust x cfg (peer # ps) m =
     seq_do (get_trust_of_node x cfg peer) (\<lambda>t.
     seq_do (pure (safe_bytes x (pk_bytes peer))) (\<lambda>b.
     node_trust x cfg ps (m(b \<mapsto> (case t of Some v \<Rightarrow> v | None \<Rightarrow> 0)))))"

definition proof_key :: "externals \<Rightarrow> ObservationProof \<Rightarrow> bytes rg_result" where
  "proof_key x p = (case op_proof p of
     Some pr \<Rightarrow> expect ''unwrap'' (proof_public_key_bytes x pr)
   | None \<Rightarrow> Panic ''unwrap'')"

definition sum_trust :: "externals \<Rightarrow> (bytes \<Rightarrow> rat option) \<Rightarrow> ObservationProof list \<Rightarrow> rat rg_result" where
  "sum_trust x m ps = and_then (try_map (proof_key x) ps) (\<lambda>ks.
     Ok (sum_list (map (\<lambda>k. case m k of Some v \<Rightarrow> v | None \<Rightarrow> 0) (remdups ks))))"

definition trust_conflict ::
    "externals \<Rightarrow> (bytes \<Rightarrow> rat option) \<Rightarrow> data_store \<Rightarrow> Conflict \<Rightarrow> (rat \<times> i64 \<times> Hash) rg_result" where
  "trust_conflict x m ds c =
     and_then (select_observation_edge x (cf_transaction_hash c) ds) (\<lambda>res.
     and_then (sum_trust x m res) (\<lambda>s.
     Ok (- 1 * s, cf_processing_start_time c, cf_transaction_hash c)))"

text \<open>Sorting compares the bytes of the hashes, which each must have as soon as there are two.\<close>

definition sort_by_hash :: "externals \<Rightarrow> (rat \<times> i64 \<times> Hash) list \<Rightarrow> (rat \<times> i64 \<times> Hash) list rg_result" where
  "sort_by_hash x ts =
     (if length ts \<le> 1 then Ok ts
      else and_then (try_map (\<lambda>t. and_then (hash_vec x (snd (snd t))) (\<lambda>v. Ok (v, t))) ts) (\<lambda>vs.
        Ok (map snd (sort_key fst vs))))"

definition resolve_conflict :: "externals \<Rightarrow> node_config \<Rightarrow> i64 \<Rightarrow> Conflict list \<Rightarrow> (data_store, Hash) action" where
  "resolve_conflict x cfg now conflicts =
     seq_do (query (active_nodes x now None)) (\<lambda>an.
     seq_do (node_trust x cfg an Map.empty) (\<lambda>m.
     seq_do (query (\<lambda>ds. try_map (trust_conflict x m ds) conflicts)) (\<lambda>trust_conflicts.
     seq_do (pure (sort_by_hash x trust_conflicts)) (\<lambda>sorted.
     pure (case sorted of [] \<Rightarrow> Panic ''unwrap'' | t # _ \<Rightarrow> Ok (snd (snd t)))))))"

section \<open>Shared state\<close>

record node_state =
  ns_relay :: relay
  ns_mail :: "string \<Rightarrow> Conflict list"

record TransactionProcessContext =
  tpc_request_processor :: "RequestProcessor option"
  tpc_transaction_hash :: "Hash option"
  tpc_utxo_ids :: "UtxoId list option"

definition on_store :: "(data_store, 'a) action \<Rightarrow> (node_state, 'a) action" where
  "on_store a s = (case a (rl_ds (ns_relay s)) of (r, ds) \<Rightarrow> (r, s \<lparr> ns_relay := ns_relay s \<lparr> rl_ds := ds \<rparr> \<rparr>))"

definition send_conflict :: "Conflict \<Rightarrow> Conflict \<Rightarrow> (node_state, unit) action" where
  "send_conflict c msg s =
     (let rid = rp_request_id (cf_request_processer c) in
      (Ok (), s \<lparr> ns_mail := (ns_mail s)(rid := ns_mail s rid @ [msg]) \<rparr>))"

definition create_receiver_or_err ::
    "externals \<Rightarrow> Hash \<Rightarrow> string \<Rightarrow> Transaction \<Rightarrow> (node_state, RequestProcessor) action" where
  "create_receiver_or_err x transaction_hash request_uuid transaction s =
     (case rl_transaction_channels (ns_relay s) transaction_hash of
        Some _ \<Rightarrow> (Err (error_message x TransactionAlreadyProcessing ''Duplicate TX hash found in processing queue''), s)
      | None \<Rightarrow>
          (let req = \<lparr> rp_request_id = request_uuid, rp_transaction_hash = transaction_hash, rp_transaction = transaction \<rparr> in
           (Ok req, s \<lparr> ns_relay := ns_relay s \<lparr> rl_transaction_channels :=
              (rl_transaction_channels (ns_relay s))(transaction_hash \<mapsto> req) \<rparr>,
              ns_mail := (ns_mail s)(request_uuid := []) \<rparr>)))"

definition remove_first :: "('a \<Rightarrow> bool) \<Rightarrow> 'a list \<Rightarrow> 'a list" where
  "remove_first p xs = takeWhile (\<lambda>a. \<not> p a) xs @ tl (dropWhile (\<lambda>a. \<not> p a) xs)"

definition release_utxo :: "RequestProcessor \<Rightarrow> (UtxoId \<Rightarrow> UTXOContentionPool option) \<Rightarrow> UtxoId \<Rightarrow>
    UtxoId \<Rightarrow> UTXOContentionPool option" where
  "release_utxo rp ch u = (case ch u of
     None \<Rightarrow> ch
   | Some p \<Rightarrow> ch(u \<mapsto> \<lparr> up_active_requests = remove_first
       (\<lambda>req. rp_request_id (cf_request_processer req) = rp_request_id rp) (up_active_requests p) \<rparr>))"

definition clean_utxo :: "RequestProcessor \<Rightarrow> UtxoId list \<Rightarrow> nat option \<Rightarrow> (node_state, unit) action" where
  "clean_utxo rp utxo_ids i s =
     (case slice utxo_ids 0 (case i of Some n \<Rightarrow> n | None \<Rightarrow> length utxo_ids) of
        Ok us \<Rightarrow> (Ok (), s \<lparr> ns_relay := ns_relay s \<lparr> rl_utxo_channels :=
            foldl (release_utxo rp) (rl_utxo_channels (ns_relay s)) us \<rparr> \<rparr>)
      | Err e \<Rightarrow> (Err e, s)
      | Panic p \<Rightarrow> (Panic p, s))"

definition cleanup :: "externals \<Rightarrow> TransactionProcessContext \<Rightarrow> nat option \<Rightarrow> (node_state, unit) action" where
  "cleanup x ctx ii =
     seq_do (pure (safe_get x (tpc_transaction_hash ctx))) (\<lambda>h.
     seq_do (\<lambda>s. (Ok (), s \<lparr> ns_relay := ns_relay s \<lparr> rl_transaction_channels :=
       (rl_transaction_channels (ns_relay s))(h := None) \<rparr> \<rparr>)) (\<lambda>_.
     case (tpc_request_processor ctx, tpc_utxo_ids ctx) of
       (Some rp, Some ids) \<Rightarrow> clean_utxo rp ids ii
     | _ \<Rightarrow> pure (Ok ())))"

section \<open>Validation, locks and observation\<close>

definition immediate_validation :: "externals \<Rightarrow> node_config \<Rightarrow> Transaction \<Rightarrow> data_store \<Rightarrow> unit rg_result" where
  "immediate_validation x cfg transaction ds =
     and_then (query_maybe_transaction x (hash_or x transaction) ds) (\<lambda>r.
     and_then (case r of Some (_, Some pre_rejection) \<Rightarrow> Err pre_rejection | _ \<Rightarrow> Ok ()) (\<lambda>_.
     and_then (prevalidate x transaction) (\<lambda>_.
     validate_network x (nc_network cfg) transaction)))"

definition check_peer_message :: "externals \<Rightarrow> Transaction \<Rightarrow> bool" where
  "check_peer_message x t \<longleftrightarrow> is_ok (node_metadata x t) \<or> is_ok (peer_data x t)"

definition check_utxo_conflicts :: "UtxoId list \<Rightarrow> Hash \<Rightarrow> unit rg_result" where
  "check_utxo_conflicts ids h = Ok ()"

text \<open>The log line of a conflict renders the three hashes, which panics when one is missing.\<close>

definition log_conflict :: "externals \<Rightarrow> Hash \<Rightarrow> Conflict \<Rightarrow> UtxoId \<Rightarrow> unit rg_result" where
  "log_conflict x hash active u =
     and_then (hash_hex x hash) (\<lambda>_.
     and_then (hash_hex x (cf_transaction_hash active)) (\<lambda>_.
     and_then (case u_transaction_hash u of Some h \<Rightarrow> Ok h | None \<Rightarrow> Panic ''h'') (\<lambda>h.
     and_then (hash_hex x h) (\<lambda>_. Ok ()))))"

definition set_pool :: "UtxoId \<Rightarrow> Conflict list \<Rightarrow> node_state \<Rightarrow> node_state" where
  "set_pool u cs s = s \<lparr> ns_relay := ns_relay s \<lparr> rl_utxo_channels :=
     (rl_utxo_channels (ns_relay s))(u \<mapsto> \<lparr> up_active_requests = cs \<rparr>) \<rparr> \<rparr>"

text \<open>Locking one UTXO: whether it was taken, and the requests that hold it.\<close>

definition lock_utxo :: "externals \<Rightarrow> Conflict \<Rightarrow> UtxoId \<Rightarrow> (node_state, bool \<times> Conflict list) action" where
  "lock_utxo x self_conflict u s =
     (case rl_utxo_channels (ns_relay s) u of
        Some p \<Rightarrow>
          seq_do (for_each_do (\<lambda>active. seq_do (pure (log_conflict x (cf_transaction_hash self_conflict) active u)) (\<lambda>_. send_conflict active self_conflict))
            (up_active_requests p)) (\<lambda>_ s'.
          (Ok (True, up_active_requests p), set_pool u (up_active_requests p @ [self_conflict]) s')) s
      | None \<Rightarrow> (Ok (False, []), set_pool u [self_conflict] s))"

definition process_observe :: "externals \<Rightarrow> process_env \<Rightarrow> TransactionProcessContext \<Rightarrow> ValidationType \<Rightarrow> State \<Rightarrow>
    ObservationProof rg_result" where
  "process_observe x e ctx validation_type state =
     and_then (safe_get x (tpc_transaction_hash ctx)) (\<lambda>hash.
     observe_tx x (pe_buffer e) (pe_now e) hash state validation_type Live)"

section \<open>Commit and response\<close>

definition delete_spent :: "externals \<Rightarrow> UtxoId \<Rightarrow> (data_store, unit) action" where
  "delete_spent x fixed =
     seq_do (pure (utxo_id_format_str x fixed)) (\<lambda>_.
     seq_do (delete_utxo x fixed) (\<lambda>_.
     seq_do (pure (safe_get x (u_transaction_hash fixed))) (\<lambda>h.
     seq_do (query (query_utxo_id_valid x h (u_output_index fixed))) (\<lambda>_. pure (Ok ())))))"

definition process_insert_transaction :: "externals \<Rightarrow> i64 \<Rightarrow> Transaction \<Rightarrow> (data_store, unit) action" where
  "process_insert_transaction x now transaction =
     seq_do (insert_transaction x transaction now True None True) (\<lambda>_.
     seq_do (pure (fixed_utxo_ids_of_inputs transaction)) (\<lambda>ids.
     for_each_do (delete_spent x) ids))"

text \<open>The proofs of the peers; an error of one peer is only logged.\<close>

definition collect_peer_proofs ::
    "externals \<Rightarrow> network \<Rightarrow> Hash \<Rightarrow> PublicKey list \<Rightarrow> ObservationProof list \<Rightarrow> ObservationProof list rg_result" where
  "collect_peer_proofs x nw hash peers proofs =
     try_fold (\<lambda>ps (pk, r). case r of
         Ok r \<Rightarrow> and_then (public_key_short_id x pk) (\<lambda>_. Ok (case rs_query_observation_proof_response r of
             Some o1 \<Rightarrow> fold List.insert (qor_observation_proof o1) ps | None \<Rightarrow> ps))
       | Err _ \<Rightarrow> and_then (public_key_short_id x pk) (\<lambda>_. Ok ps)
       | Panic p \<Rightarrow> Panic p)
     proofs (broadcast x nw peers (request_empty \<lparr> rq_query_observation_proof_request := Some \<lparr> qoq_hash = Some hash \<rparr> \<rparr>))"

text \<open>The code of an output that deploys a contract for the wasm executor.\<close>

definition deploy_code :: "Output \<Rightarrow> bytes option" where
  "deploy_code o1 = Option.bind (Option.bind (o_contract o1) oc_code_execution_contract) (\<lambda>c.
     if cec_executor c = Some executor_backend_extism then map_option bd_value (cec_code c) else None)"

definition process_deploy :: "externals \<Rightarrow> Transaction \<Rightarrow> Output \<Rightarrow> (data_store, unit) action" where
  "process_deploy x transaction o1 = (case deploy_code o1 of
     None \<Rightarrow> pure (Ok ())
   | Some code_bytes \<Rightarrow>
       seq_do (pure (invoke_wasm x code_bytes ''extism_entrypoint'' (execution_input_default \<lparr> xi_tx := Some transaction \<rparr>))) (\<lambda>er.
       seq_do (pure (time x transaction)) (\<lambda>t.
       insert_state x \<lparr> csm_address = o_address o1, csm_state = Option.bind (xr_data er) sd_state, csm_selector = None,
         csm_transaction_marker = Some (hash_or x transaction), csm_nonce = 0, csm_time = t \<rparr>)))"

definition process_output :: "externals \<Rightarrow> node_config \<Rightarrow> process_env \<Rightarrow> Transaction \<Rightarrow> Output \<Rightarrow> (data_store, unit) action" where
  "process_output x cfg e transaction o1 =
     seq_do (process_deploy x transaction o1) (\<lambda>_.
     if is_request o1 then
       seq_do (pure (send_contract_ordering_message x (nc_contract_buckets cfg) (pe_contract_sent e) (pe_contract_answer e)
         (replicate (nc_contract_buckets cfg) ()) o1)) (\<lambda>_. pure (Ok ()))
     else pure (Ok ()))"

definition build_response ::
    "externals \<Rightarrow> node_config \<Rightarrow> process_env \<Rightarrow> Transaction \<Rightarrow> Hash \<Rightarrow> ObservationProof list \<Rightarrow>
     (data_store, SubmitTransactionResponse) action" where
  "build_response x cfg e transaction hash observation_proofs =
     seq_do (query (select_observation_edge x hash)) (\<lambda>stored_proofs.
     seq_do (query (active_nodes x (pe_now e) None)) (\<lambda>peers.
     seq_do (pure (collect_peer_proofs x (pe_network e) hash peers (fold List.insert stored_proofs observation_proofs))) (\<lambda>proofs.
     seq_do (query (select_observation_edge x hash)) (\<lambda>again.
     let submit_response = \<lparr> st_transaction_hash = Some hash, st_query_transaction_response =
           Some \<lparr> qt_observation_proofs = fold List.insert again proofs \<rparr>, st_transaction = Some transaction \<rparr> in
     seq_do (for_each_do (process_output x cfg e transaction) (t_outputs transaction)) (\<lambda>_.
     seq_do (pure (count_unique_by_state x submit_response)) (\<lambda>_.
     pure (Ok submit_response)))))))"

text \<open>What the submitter receives.\<close>

definition transaction_response :: "SubmitTransactionResponse rg_result \<Rightarrow> Response rg_result" where
  "transaction_response r = (case r of
     Ok v \<Rightarrow> Ok (response_default \<lparr> rs_submit_transaction_response := Some v, rs_response_metadata :=
       Some \<lparr> rm_success = True, rm_error_info = None, rm_task_local_details = [], rm_request_id = None, rm_trace_id = None \<rparr> \<rparr>)
   | Err e \<Rightarrow> Ok (response_default \<lparr> rs_response_metadata :=
       Some \<lparr> rm_success = False, rm_error_info = Some e, rm_task_local_details = [], rm_request_id = None, rm_trace_id = None \<rparr> \<rparr>)
   | Panic p \<Rightarrow> Panic p)"

section \<open>The stages of a task\<close>

datatype stage =
    Receive | Register | Resolve | Lock "UtxoId list" | Revalidate | Sign_Pending | Gossip_Tx | Wait | Settle
  | Sign_Accepted | Commit | Respond | Peer_Message | Done "SubmitTransactionResponse rg_result"

record tx_task =
  tk_transaction :: Transaction
  tk_hash :: Hash
  tk_request_id :: string
  tk_start :: i64
  tk_stage :: stage
  tk_context :: TransactionProcessContext
  tk_conflict_detected :: bool
  tk_conflicts :: "Conflict list"
  tk_validation_type :: ValidationType
  tk_proofs :: "ObservationProof list"
  tk_self_signed_pending :: bool

definition new_task :: "externals \<Rightarrow> string \<Rightarrow> i64 \<Rightarrow> Transaction \<Rightarrow> tx_task" where
  "new_task x request_uuid current_time tx = \<lparr> tk_transaction = tx, tk_hash = hash_or x tx, tk_request_id = request_uuid,
     tk_start = current_time, tk_stage = Receive,
     tk_context = \<lparr> tpc_request_processor = None, tpc_transaction_hash = Some (hash_or x tx), tpc_utxo_ids = None \<rparr>,
     tk_conflict_detected = False, tk_conflicts = [], tk_validation_type = VT_Full, tk_proofs = [],
     tk_self_signed_pending = False \<rparr>"

definition task_processor :: "tx_task \<Rightarrow> RequestProcessor" where
  "task_processor tk = \<lparr> rp_request_id = tk_request_id tk, rp_transaction_hash = tk_hash tk, rp_transaction = tk_transaction tk \<rparr>"

definition task_conflict :: "bool \<Rightarrow> tx_task \<Rightarrow> Conflict" where
  "task_conflict abort tk = \<lparr> cf_transaction_hash = tk_hash tk, cf_abort = abort, cf_processing_start_time = tk_start tk,
     cf_request_processer = task_processor tk \<rparr>"

definition receive_stage :: "externals \<Rightarrow> node_config \<Rightarrow> tx_task \<Rightarrow> (node_state, tx_task) action" where
  "receive_stage x cfg tk =
     (if check_peer_message x (tk_transaction tk) then pure (Ok (tk \<lparr> tk_stage := Peer_Message \<rparr>))
      else seq_do (on_store (query (immediate_validation x cfg (tk_transaction tk)))) (\<lambda>_.
        pure (Ok (tk \<lparr> tk_stage := Register \<rparr>))))"

definition register_stage :: "externals \<Rightarrow> tx_task \<Rightarrow> (node_state, tx_task) action" where
  "register_stage x tk =
     seq_do (create_receiver_or_err x (tk_hash tk) (tk_request_id tk) (tk_transaction tk)) (\<lambda>_.
     pure (Ok (tk \<lparr> tk_stage := Resolve \<rparr>)))"

definition resolve_and_validate ::
    "externals \<Rightarrow> process_env \<Rightarrow> Transaction \<Rightarrow> data_store \<Rightarrow> ResolvedTransaction rg_result" where
  "resolve_and_validate x e tx ds =
     and_then (resolve_transaction x (pe_network e) (pe_unknown e) (pe_now e) tx ds) (\<lambda>r.
     and_then (rtx_validate x r) (\<lambda>_. Ok r))"

definition resolve_stage :: "externals \<Rightarrow> process_env \<Rightarrow> tx_task \<Rightarrow> (node_state, tx_task) action" where
  "resolve_stage x e tk =
     seq_do (on_store (query (resolve_and_validate x e (tk_transaction tk)))) (\<lambda>_.
     seq_do (pure (fixed_utxo_ids_of_inputs (tk_transaction tk))) (\<lambda>ids.
     seq_do (pure (check_utxo_conflicts ids (tk_hash tk))) (\<lambda>_.
     pure (Ok (tk \<lparr> tk_stage := Lock ids, tk_context := tk_context tk \<lparr> tpc_utxo_ids := Some ids \<rparr> \<rparr>)))))"

definition lock_stage :: "externals \<Rightarrow> UtxoId list \<Rightarrow> tx_task \<Rightarrow> (node_state, tx_task) action" where
  "lock_stage x ids tk = (case ids of
     [] \<Rightarrow> pure (Ok (tk \<lparr> tk_stage := Revalidate \<rparr>))
   | u # us \<Rightarrow> seq_do (lock_utxo x (task_conflict False tk) u) (\<lambda>(taken, active).
       pure (Ok (tk \<lparr> tk_stage := Lock us, tk_conflict_detected := tk_conflict_detected tk \<or> taken,
         tk_conflicts := tk_conflicts tk @ active \<rparr>))))"

definition revalidate_stage :: "externals \<Rightarrow> process_env \<Rightarrow> tx_task \<Rightarrow> (node_state, tx_task) action" where
  "revalidate_stage x e tk =
     seq_do (on_store (query (resolve_and_validate x e (tk_transaction tk)))) (\<lambda>r.
     pure (Ok (tk \<lparr> tk_stage := Sign_Pending,
       tk_validation_type := (if rtx_resolved_internally r then VT_Full else VT_Partial) \<rparr>)))"

definition pending_stage :: "externals \<Rightarrow> process_env \<Rightarrow> tx_task \<Rightarrow> (node_state, tx_task) action" where
  "pending_stage x e tk =
     (if tk_conflict_detected tk then seq_do (pure (hash_hex x (tk_hash tk))) (\<lambda>_. pure (Ok (tk \<lparr> tk_stage := Gossip_Tx \<rparr>)))
      else seq_do (pure (process_observe x e (tk_context tk) (tk_validation_type tk) Pending)) (\<lambda>prf.
        pure (Ok (tk \<lparr> tk_stage := Gossip_Tx, tk_self_signed_pending := True,
          tk_proofs := List.insert prf (tk_proofs tk) \<rparr>))))"

definition gossip_stage :: "externals \<Rightarrow> process_env \<Rightarrow> tx_task \<Rightarrow> (node_state, tx_task) action" where
  "gossip_stage x e tk =
     seq_do (on_store (query (gossip x (pe_network e) (pe_now e) (tk_transaction tk)))) (\<lambda>_.
     pure (Ok (tk \<lparr> tk_stage := Wait \<rparr>)))"

text \<open>One turn of the waiting loop: a second passes without a message, or one is received.\<close>

definition wait_stage :: "externals \<Rightarrow> node_config \<Rightarrow> process_env \<Rightarrow> tx_task \<Rightarrow> (node_state, tx_task) action" where
  "wait_stage x cfg e tk s =
     (if sint (pe_now e - tk_start tk) < sint (nc_finalization cfg) then
        (case ns_mail s (tk_request_id tk) of
           [] \<Rightarrow> (Ok tk, s)
         | c # cs \<Rightarrow>
             (let s' = s \<lparr> ns_mail := (ns_mail s)(tk_request_id tk := cs) \<rparr> in
              if cf_abort c
              then (Err (error_message x TransactionRejectedDoubleSpend ''Double spend detected in live context''), s')
              else (Ok (tk \<lparr> tk_conflicts := tk_conflicts tk @ [c] \<rparr>), s')))
      else (Ok (tk \<lparr> tk_stage := Settle \<rparr>), s))"

definition settle_stage :: "externals \<Rightarrow> node_config \<Rightarrow> process_env \<Rightarrow> tx_task \<Rightarrow> (node_state, tx_task) action" where
  "settle_stage x cfg e tk =
     (if tk_conflicts tk = [] then pure (Ok (tk \<lparr> tk_stage := Sign_Accepted \<rparr>))
      else
      let this_as_conflict = task_conflict True tk in
      seq_do (on_store (resolve_conflict x cfg (pe_now e) (tk_conflicts tk @ [this_as_conflict]))) (\<lambda>winner.
      if winner \<noteq> tk_hash tk then
        pure (and_then (hash_hex x winner) (\<lambda>h. Err (error_message x TransactionRejectedDoubleSpend
          (''Lost conflict to other transaction winner: '' @ h))))
      else seq_do (for_each_do (\<lambda>c. send_conflict c this_as_conflict) (tk_conflicts tk)) (\<lambda>_.
        pure (Ok (tk \<lparr> tk_stage := Sign_Accepted \<rparr>)))))"

definition accepted_stage :: "externals \<Rightarrow> process_env \<Rightarrow> tx_task \<Rightarrow> (node_state, tx_task) action" where
  "accepted_stage x e tk =
     seq_do (pure (process_observe x e (tk_context tk) (tk_validation_type tk) Accepted)) (\<lambda>prf.
     pure (Ok (tk \<lparr> tk_stage := Commit, tk_proofs := List.insert prf (tk_proofs tk) \<rparr>)))"

definition commit_stage :: "externals \<Rightarrow> process_env \<Rightarrow> tx_task \<Rightarrow> (node_state, tx_task) action" where
  "commit_stage x e tk =
     seq_do (on_store (process_insert_transaction x (pe_now e) (tk_transaction tk))) (\<lambda>_.
     pure (Ok (tk \<lparr> tk_stage := Respond \<rparr>)))"

definition respond_stage :: "externals \<Rightarrow> node_config \<Rightarrow> process_env \<Rightarrow> tx_task \<Rightarrow> (node_state, tx_task) action" where
  "respond_stage x cfg e tk =
     seq_do (on_store (build_response x cfg e (tk_transaction tk) (tk_hash tk) (tk_proofs tk))) (\<lambda>r.
     pure (Ok (tk \<lparr> tk_stage := Done (Ok r) \<rparr>)))"

definition run_stage :: "externals \<Rightarrow> node_config \<Rightarrow> process_env \<Rightarrow> tx_task \<Rightarrow> (node_state, tx_task) action" where
  "run_stage x cfg e tk = (case tk_stage tk of
     Receive \<Rightarrow> receive_stage x cfg tk
   | Register \<Rightarrow> register_stage x tk
   | Resolve \<Rightarrow> resolve_stage x e tk
   | Lock ids \<Rightarrow> lock_stage x ids tk
   | Revalidate \<Rightarrow> revalidate_stage x e tk
   | Sign_Pending \<Rightarrow> pending_stage x e tk
   | Gossip_Tx \<Rightarrow> gossip_stage x e tk
   | Wait \<Rightarrow> wait_stage x cfg e tk
   | Settle \<Rightarrow> settle_stage x cfg e tk
   | Sign_Accepted \<Rightarrow> accepted_stage x e tk
   | Commit \<Rightarrow> commit_stage x e tk
   | Respond \<Rightarrow> respond_stage x cfg e tk
   | _ \<Rightarrow> pure (Ok tk))"

text \<open>
  A result or an error ends the task with the cleanup; a panic ends it without.  After a
  cleanup that fails the handler returns that error instead.
\<close>

definition end_task :: "externals \<Rightarrow> SubmitTransactionResponse rg_result \<Rightarrow> tx_task \<Rightarrow> node_state \<Rightarrow> tx_task \<times> node_state" where
  "end_task x r tk s = (if is_panic r then (tk \<lparr> tk_stage := Done r \<rparr>, s)
     else (case cleanup x (tk_context tk) None s of
       (Ok _, s') \<Rightarrow> (tk \<lparr> tk_stage := Done r \<rparr>, s')
     | (Err e, s') \<Rightarrow> (tk \<lparr> tk_stage := Done (Err e) \<rparr>, s')
     | (Panic p, s') \<Rightarrow> (tk \<lparr> tk_stage := Done (Panic p) \<rparr>, s')))"

definition task_step :: "externals \<Rightarrow> node_config \<Rightarrow> process_env \<Rightarrow> tx_task \<Rightarrow> node_state \<Rightarrow> tx_task \<times> node_state" where
  "task_step x cfg e tk s = (case run_stage x cfg e tk s of
     (Ok tk', s') \<Rightarrow> (case tk_stage tk' of Done r \<Rightarrow> end_task x r tk' s' | _ \<Rightarrow> (tk', s'))
   | (Err er, s') \<Rightarrow> end_task x (Err er) tk s'
   | (Panic p, s') \<Rightarrow> end_task x (Panic p) tk s')"

definition finished :: "tx_task \<Rightarrow> bool" where
  "finished tk = (case tk_stage tk of Done _ \<Rightarrow> True | Peer_Message \<Rightarrow> True | _ \<Rightarrow> False)"

section \<open>The node as interleaved tasks\<close>

text \<open>
  All tasks run inside one stream: a panic in one of them unwinds the loop that polls the
  others, after which no task runs and no message is taken from the queue.
\<close>

record node =
  nd_state :: node_state
  nd_tasks :: "string \<Rightarrow> tx_task option"
  nd_running :: bool

definition panicked :: "tx_task \<Rightarrow> bool" where
  "panicked tk = (case tk_stage tk of Done r \<Rightarrow> is_panic r | _ \<Rightarrow> False)"

definition accept_task :: "externals \<Rightarrow> string \<Rightarrow> i64 \<Rightarrow> Transaction \<Rightarrow> node \<Rightarrow> node" where
  "accept_task x rid now tx n = n \<lparr> nd_tasks := (nd_tasks n)(rid \<mapsto> new_task x rid now tx) \<rparr>"

definition advance_task :: "string \<Rightarrow> tx_task \<Rightarrow> node_state \<Rightarrow> node \<Rightarrow> node" where
  "advance_task rid tk s n = n \<lparr> nd_state := s, nd_tasks := (nd_tasks n)(rid \<mapsto> tk), nd_running := \<not> panicked tk \<rparr>"

inductive node_step :: "externals \<Rightarrow> node_config \<Rightarrow> node \<Rightarrow> node \<Rightarrow> bool" for x cfg where
  arrive: "nd_running n \<Longrightarrow> nd_tasks n rid = None \<Longrightarrow> node_step x cfg n (accept_task x rid now tx n)"
| run: "nd_running n \<Longrightarrow> nd_tasks n rid = Some tk \<Longrightarrow> \<not> finished tk \<Longrightarrow>
    task_step x cfg e tk (nd_state n) = (tk', s') \<Longrightarrow> node_step x cfg n (advance_task rid tk' s' n)"

inductive_cases node_step_cases: "node_step x cfg n n'"

definition initial_node :: "data_store \<Rightarrow> node" where
  "initial_node ds = \<lparr> nd_state = \<lparr> ns_relay = \<lparr> rl_ds = ds, rl_transaction_channels = Map.empty,
       rl_utxo_channels = Map.empty, rl_mempool_entries = Map.empty \<rparr>, ns_mail = (\<lambda>_. []) \<rparr>, nd_tasks = Map.empty,
     nd_running = True \<rparr>"

text \<open>A schedule names the task of each step and what its surroundings answer.\<close>

datatype event = Arrive string i64 Transaction | Run string process_env

fun run_event :: "externals \<Rightarrow> node_config \<Rightarrow> event \<Rightarrow> node \<Rightarrow> node" where
  "run_event x cfg (Arrive rid now tx) n =
     (if nd_running n \<and> nd_tasks n rid = None then accept_task x rid now tx n else n)"
| "run_event x cfg (Run rid e) n =
     (case nd_tasks n rid of
        Some tk \<Rightarrow> if \<not> nd_running n \<or> finished tk then n else
          (case task_step x cfg e tk (nd_state n) of (tk', s') \<Rightarrow> advance_task rid tk' s' n)
      | None \<Rightarrow> n)"

definition run_events :: "externals \<Rightarrow> node_config \<Rightarrow> event list \<Rightarrow> node \<Rightarrow> node" where
  "run_events x cfg es n = foldl (\<lambda>n e. run_event x cfg e n) n es"

lemma run_events_reachable: "(node_step x cfg)\<^sup>*\<^sup>* n (run_events x cfg es n)"
proof (induction es arbitrary: n)
  case (Cons e es)
  have "(node_step x cfg)\<^sup>*\<^sup>* n (run_event x cfg e n)"
    by (cases e) (auto split: option.splits prod.splits intro: node_step.intros)
  with Cons show ?case by (simp add: run_events_def) (meson rtranclp_trans)
qed (simp add: run_events_def)

end
