(* ===== verification/Ledger.thy ===== *)
theory Ledger
  imports Process_Transaction
begin

text \<open>
  What transaction processing does to the ledger and to the locks: the commit as an update of
  the map of unspent outputs, the choice among conflicting transactions, and what the locks
  and registrations of the tasks guarantee and do not guarantee.
\<close>

section \<open>The ledger\<close>

definition utxo_ids :: "Transaction \<Rightarrow> UtxoId list" where
  "utxo_ids t = List.map_filter i_utxo_id (t_inputs t)"

lemma fixed_utxo_ids_eq: "fixed_utxo_ids_of_inputs t = Ok (utxo_ids t)"
proof -
  have "foldl (\<lambda>us i. case i_utxo_id i of Some f \<Rightarrow> us @ [f] | None \<Rightarrow> us) acc is = acc @ List.map_filter i_utxo_id is" for acc and "is" :: "Input list"
    by (induction "is" arbitrary: acc) (auto simp: List.map_filter_simps split: option.splits)
  then show ?thesis by (simp add: fixed_utxo_ids_of_inputs_def utxo_ids_def)
qed

text \<open>The keys of the UTXO table that a list of identifiers names.\<close>

definition spent_keys :: "externals \<Rightarrow> UtxoId list \<Rightarrow> (bytes \<times> i64) set" where
  "spent_keys x us = {(b, u_output_index u) | u h b. u \<in> set us \<and> u_transaction_hash u = Some h \<and> hash_safe_bytes x h = Ok b}"

lemma delete_spent_Ok:
  assumes "delete_spent x u ds = (Ok v, ds')"
  shows "\<exists>h b. u_transaction_hash u = Some h \<and> hash_safe_bytes x h = Ok b \<and>
     ds' = ds \<lparr> ds_utxo := filter (\<lambda>r. utxo_key r \<noteq> (b, u_output_index u)) (ds_utxo ds) \<rparr>"
  using assms by (auto simp: delete_spent_def seq_do_eq_Ok pure_Ok query_eq delete_utxo_eq_Ok)

lemma delete_all_spent:
  assumes "for_each_do (delete_spent x) us ds = (Ok v, ds')"
  shows "unspent ds' = unspent ds |` (- spent_keys x us) \<and> (\<exists>t. ds' = ds \<lparr> ds_utxo := t \<rparr>) \<and>
     (\<forall>u \<in> set us. \<exists>h b. u_transaction_hash u = Some h \<and> hash_safe_bytes x h = Ok b)"
  using assms
proof (induction us arbitrary: ds)
  case Nil
  then show ?case by (auto simp: pure_eq spent_keys_def restrict_map_def fun_eq_iff intro: exI [of _ "ds_utxo ds"])
next
  case (Cons u us)
  obtain d where d: "delete_spent x u ds = (Ok (), d)" "for_each_do (delete_spent x) us d = (Ok v, ds')"
    using Cons.prems by (auto simp: seq_do_eq_Ok)
  obtain h b where h: "u_transaction_hash u = Some h" "hash_safe_bytes x h = Ok b"
    "d = ds \<lparr> ds_utxo := filter (\<lambda>r. utxo_key r \<noteq> (b, u_output_index u)) (ds_utxo ds) \<rparr>"
    using delete_spent_Ok [OF d(1)] by auto
  have k: "spent_keys x (u # us) = insert (b, u_output_index u) (spent_keys x us)"
    using h(1,2) by (auto simp: spent_keys_def)
  have "unspent d = (unspent ds)((b, u_output_index u) := None)" using h(3) by (simp add: unspent_delete)
  with Cons.IH [OF d(2)] h show ?case
    by (auto simp: k restrict_map_def fun_eq_iff)
qed

text \<open>C1: Committing a transaction moves the ledger: when the commit succeeds, the transaction's
  outputs become rows keyed by its hash and their index with their amounts, none of which
  was present before, and the unspent outputs afterwards are the previous ones together
  with these, without every output the inputs name; the keys of all tables stay unique.\<close>

theorem commit_moves_ledger:
  assumes "process_insert_transaction x now tx ds = (Ok (), ds')" "store_wf ds"
  shows "\<exists>rs hv. tx_hash_bytes x tx = Ok hv \<and> length rs = length (t_outputs tx) \<and>
     (\<forall>i < length rs. utxo_key (rs ! i) = (hv, word_of_nat i) \<and> ur_amount (rs ! i) = opt_amount (t_outputs tx ! i) \<and>
        unspent ds (utxo_key (rs ! i)) = None) \<and>
     unspent ds' = (unspent ds ++ tbl_lookup utxo_key rs) |` (- spent_keys x (utxo_ids tx)) \<and> store_wf ds'"
proof -
  obtain d where d: "insert_transaction x tx now True None True ds = (Ok (), d)"
    "for_each_do (delete_spent x) (utxo_ids tx) d = (Ok (), ds')"
    using assms(1) by (auto simp: process_insert_transaction_def seq_do_eq_Ok pure_Ok fixed_utxo_ids_eq)
  obtain hv where hv: "tx_hash_bytes x tx = Ok hv"
    using d(1) by (auto simp: insert_transaction_def seq_do_eq_Ok insert_transaction_raw_eq_Ok)
  obtain rs where rs: "try_map (utxo_row_of x) (from_transaction x tx now) = Ok rs" "distinct (map utxo_key rs)"
    "\<forall>r \<in> set rs. unspent ds (utxo_key r) = None" "ds_utxo d = ds_utxo ds @ rs"
    using insert_transaction_utxo [OF d(1)] by blast
  have "unspent d k = (unspent ds ++ tbl_lookup utxo_key rs) k" for k
  proof (cases "tbl_lookup utxo_key rs k")
    case None
    then show ?thesis using rs(4) by (simp add: unspent_def tbl_lookup_def find_append map_add_def split: option.split)
  next
    case (Some r)
    then have "r \<in> set rs" "utxo_key r = k" by (auto simp: tbl_lookup_def find_Some_iff)
    with rs(3) have "unspent ds k = None" by auto
    with Some rs(4) show ?thesis by (simp add: unspent_def tbl_lookup_def find_append map_add_def)
  qed
  then have "unspent d = unspent ds ++ tbl_lookup utxo_key rs" by (rule ext)
  moreover have "\<forall>i < length rs. utxo_key (rs ! i) = (hv, word_of_nat i) \<and> ur_amount (rs ! i) = opt_amount (t_outputs tx ! i)"
    using from_transaction_row_key [OF rs(1)] hv by (auto simp: utxo_key_def)
  moreover have "preserves store_wf (process_insert_transaction x now tx)"
    unfolding process_insert_transaction_def delete_spent_def by (intro preserves_rules)
  then have "store_wf ds'" using assms preservesD [of store_wf _ ds] by fastforce
  ultimately show ?thesis
    using hv rs(3) try_map_length [OF rs(1)] delete_all_spent [OF d(2)] by (auto intro!: exI [of _ rs] exI [of _ hv])
qed

lemma list_all2_member: "list_all2 P xs ys \<Longrightarrow> a \<in> set xs \<Longrightarrow> \<exists>b. P a b"
  by (induction rule: list_all2_induct) auto

lemma resolved_inputs_unspent:
  assumes "resolve_and_validate x e tx ds = Ok r" "i \<in> set (t_inputs tx)" "i_floating_utxo_id i = None"
    and "i_utxo_id i = Some u" "u_transaction_hash u = Some h" "hash_safe_bytes x h = Ok b"
    and "query_maybe_transaction x h ds = Ok (Some (p, None))"
  shows "unspent ds (b, u_output_index u) \<noteq> None"
proof -
  have r: "resolve_transaction x (pe_network e) (pe_unknown e) (pe_now e) tx ds = Ok r"
    using assms(1) by (auto simp: resolve_and_validate_def result_simps)
  let ?is = "filter (\<lambda>i. i_floating_utxo_id i = None) (t_inputs tx)"
  let ?f = "\<lambda>i. resolve_input x (pe_network e) (pe_now e) i (signable_hash x tx) True ds"
  obtain b' us where "try_fold (collect_resolution x (pe_unknown e)) (True, []) (map (\<lambda>i. spawn_join x (?f i)) ?is) = Ok (b', us)"
    using r by (auto simp: resolve_transaction_def and_then_eq_Ok)
  then have us: "list_all2 (\<lambda>i ri. ?f i = Ok ri) ?is us"
    by (drule_tac collect_resolutions_Ok) (simp add: list_all2_map1 spawn_join_eq_Ok)
  have "i \<in> set ?is" using assms(2,3) by simp
  from list_all2_member [OF us this] obtain ri where "?f i = Ok ri" by blast
  with assms(4-7) show ?thesis
    by (auto simp: resolve_input_def result_simps Let_def local_parent_eq_Ok query_utxo_id_valid_eq_Ok split: if_splits)
qed

text \<open>C2: No sequential double spend: once a transaction has been committed, a later transaction with
  an ordinary input naming an output the first one spent does not pass resolution and validation,
  provided the store itself holds the parent transaction of that output, without a rejection; a
  parent that has to be asked of peers is not covered.\<close>

theorem spent_output_refused:
  assumes "process_insert_transaction x now t1 ds = (Ok (), ds')"
    and "u \<in> set (utxo_ids t1)" "u_transaction_hash u = Some h" "query_maybe_transaction x h ds' = Ok (Some (p, None))"
    and "i \<in> set (t_inputs t2)" "i_floating_utxo_id i = None" "i_utxo_id i = Some u"
  shows "resolve_and_validate x e t2 ds' \<noteq> Ok r"
proof
  assume r: "resolve_and_validate x e t2 ds' = Ok r"
  obtain d where d: "for_each_do (delete_spent x) (utxo_ids t1) d = (Ok (), ds')"
    using assms(1) by (auto simp: process_insert_transaction_def seq_do_eq_Ok pure_Ok fixed_utxo_ids_eq)
  obtain b where b: "hash_safe_bytes x h = Ok b" using delete_all_spent [OF d] assms(2,3) by auto
  then have "(b, u_output_index u) \<in> spent_keys x (utxo_ids t1)" using assms(2,3) by (auto simp: spent_keys_def)
  with delete_all_spent [OF d] have "unspent ds' (b, u_output_index u) = None" by simp
  with resolved_inputs_unspent [OF r assms(5,6,7,3) b assms(4)] show False by simp
qed

lemma floating_only_resolves:
  assumes "\<forall>i \<in> set (t_inputs tx). i_floating_utxo_id i \<noteq> None" "total_output_amount tx = 0"
    and "active_nodes x (pe_now e) None ds = Ok ps"
  shows "is_ok (resolve_and_validate x e tx ds)"
proof -
  have "filter (\<lambda>i. i_floating_utxo_id i = None) (t_inputs tx) = []" using assms(1) by (simp add: filter_empty_conv)
  then show ?thesis
    using assms(2,3) by (simp add: resolve_and_validate_def resolve_transaction_def rtx_validate_def total_parent_amount_available_def)
qed

lemma resolve_and_validate_cong:
  assumes "signable_hash x tx' = signable_hash x tx" "t_outputs tx' = t_outputs tx"
    and "filter (\<lambda>i. i_floating_utxo_id i = None) (t_inputs tx') = filter (\<lambda>i. i_floating_utxo_id i = None) (t_inputs tx)"
  shows "is_ok (resolve_and_validate x e tx' ds) = is_ok (resolve_and_validate x e tx ds)"
proof -
  have "total_output_amount tx' = total_output_amount tx" using assms(2) by (simp add: total_output_amount_def)
  then have "(\<exists>r. resolve_and_validate x e tx' ds = Ok r) \<longleftrightarrow> (\<exists>r. resolve_and_validate x e tx ds = Ok r)"
    by (simp add: assms(1,3) resolve_and_validate_def resolve_transaction_def rtx_validate_def total_parent_amount_available_def
        and_then_eq_Ok split_def) auto
  then show ?thesis by (simp add: is_ok_iff)
qed

lemma signed_input_floating: "signed_input j = signed_input i \<Longrightarrow> i_floating_utxo_id j = i_floating_utxo_id i"
  by (drule arg_cong [where f = i_floating_utxo_id]) (simp add: signed_input_def)

text \<open>C20: The outputs that floating inputs name are spent without a check of their owner: for any transaction and
  store, replacing the proofs and the hydrated outputs of its inputs that carry a floating identifier, and of no others,
  does not change whether resolution and validation succeed; yet the commit of the resulting transaction removes the
  output that such an input also names by an ordinary identifier.\<close>

theorem floating_inputs_unchecked:
  assumes "list_all2 (\<lambda>i j. signed_input j = signed_input i \<and> (i_floating_utxo_id i = None \<longrightarrow> j = i)) (t_inputs tx) is"
    and "process_insert_transaction x now (tx \<lparr> t_inputs := is \<rparr>) ds = (Ok (), ds')"
    and "i \<in> set is" "i_floating_utxo_id i \<noteq> None"
    and "i_utxo_id i = Some u" "u_transaction_hash u = Some h" "hash_safe_bytes x h = Ok b"
  shows "is_ok (resolve_and_validate x e (tx \<lparr> t_inputs := is \<rparr>) ds) = is_ok (resolve_and_validate x e tx ds) \<and>
     unspent ds' (b, u_output_index u) = None"
proof
  have "map signed_input is = map signed_input (t_inputs tx)"
    using assms(1) by (induction rule: list_all2_induct) auto
  then have "signable_hash x (tx \<lparr> t_inputs := is \<rparr>) = signable_hash x tx"
    by (intro signable_hash_cong) (simp add: signed_content_def)
  moreover have "filter (\<lambda>i. i_floating_utxo_id i = None) is = filter (\<lambda>i. i_floating_utxo_id i = None) (t_inputs tx)"
    using assms(1) by (induction rule: list_all2_induct) (auto dest: signed_input_floating)
  ultimately show "is_ok (resolve_and_validate x e (tx \<lparr> t_inputs := is \<rparr>) ds) = is_ok (resolve_and_validate x e tx ds)"
    by (intro resolve_and_validate_cong) simp_all
  obtain d where d: "for_each_do (delete_spent x) (utxo_ids (tx \<lparr> t_inputs := is \<rparr>)) d = (Ok (), ds')"
    using assms(2) by (auto simp: process_insert_transaction_def seq_do_eq_Ok pure_Ok fixed_utxo_ids_eq)
  have "u \<in> set (utxo_ids (tx \<lparr> t_inputs := is \<rparr>))" using assms(3,5) by (force simp: utxo_ids_def List.map_filter_def)
  then have "(b, u_output_index u) \<in> spent_keys x (utxo_ids (tx \<lparr> t_inputs := is \<rparr>))" using assms(6,7) by (auto simp: spent_keys_def)
  with delete_all_spent [OF d] show "unspent ds' (b, u_output_index u) = None" by simp
qed

section \<open>Conflicts\<close>

lemma sort_by_hash_Ok:
  assumes "sort_by_hash x ts = Ok (t # rest)"
  shows "t \<in> set ts \<and> (2 \<le> length ts \<longrightarrow> (\<forall>u \<in> set ts. has_bytes (snd (snd u)) \<and> vb (snd (snd t)) \<le> vb (snd (snd u))))"
proof (cases "length ts \<le> 1")
  case False
  then obtain vs where vs: "try_map (\<lambda>t. and_then (hash_vec x (snd (snd t))) (\<lambda>v. Ok (v, t))) ts = Ok vs"
    "map snd (sort_key fst vs) = t # rest"
    using assms by (auto simp: sort_by_hash_def result_simps)
  have "list_all2 (\<lambda>t v. has_bytes (snd (snd t)) \<and> v = (vb (snd (snd t)), t)) ts vs"
    using vs(1) by (simp add: try_map_eq_Ok and_then_eq_Ok hash_vec_eq_Ok) (erule list_all2_mono, auto)
  then have v: "vs = map (\<lambda>t. (vb (snd (snd t)), t)) ts" "\<forall>t \<in> set ts. has_bytes (snd (snd t))"
    by (induction rule: list_all2_induct) auto
  obtain w rs where s: "sort_key fst vs = (w, t) # rs" using vs(2) by (cases "sort_key fst vs") auto
  have "set ((w, t) # rs) = set vs" "sorted (map fst ((w, t) # rs))" by (simp_all only: s [symmetric] set_sort sorted_sort_key)
  then have "(w, t) \<in> set vs" "\<forall>y \<in> set vs. w \<le> fst y" by (simp_all flip: \<open>set ((w, t) # rs) = set vs\<close>)
  with v show ?thesis by auto
qed (use assms in \<open>auto simp: sort_by_hash_def\<close>)

lemma query_Ok: "query q s = (Ok a, t) \<longleftrightarrow> q s = Ok a \<and> t = s"
  by (auto simp: query_def)

lemma resolve_conflict_Ok:
  assumes "resolve_conflict x cfg now cs ds = (Ok w, ds')" "2 \<le> length cs"
  shows "w \<in> cf_transaction_hash ` set cs \<and>
     (\<forall>h \<in> cf_transaction_hash ` set cs. has_bytes h \<and> vb w \<le> vb h)"
proof -
  obtain m ts l d where l: "try_map (trust_conflict x m d) cs = Ok ts" "sort_by_hash x ts = Ok l"
    "(case l of [] \<Rightarrow> Panic ''unwrap'' | t # _ \<Rightarrow> Ok (snd (snd t))) = (Ok w :: Hash rg_result)"
    using assms(1) unfolding resolve_conflict_def by (auto simp only: seq_do_eq_Ok pure_Ok query_Ok)
  then obtain t rest where t: "try_map (trust_conflict x m d) cs = Ok ts" "sort_by_hash x ts = Ok (t # rest)" "w = snd (snd t)"
    by (cases l) auto
  have "list_all2 (\<lambda>c v. snd (snd v) = cf_transaction_hash c) cs ts"
    using t(1) by (simp add: try_map_eq_Ok) (erule list_all2_mono, auto simp: trust_conflict_def result_simps)
  then have m: "map cf_transaction_hash cs = map (\<lambda>v. snd (snd v)) ts" by (induction rule: list_all2_induct) auto
  then have "cf_transaction_hash ` set cs = (\<lambda>v. snd (snd v)) ` set ts" "length ts = length cs"
    by (metis list.set_map, metis length_map)
  with sort_by_hash_Ok [OF t(2)] t(3) assms(2) show ?thesis by auto
qed

text \<open>C11: Conflicting tasks agree on the winner: whenever two of them resolve conflicts over the same
  set of transaction hashes, at any times, in any order of arrival, with any configuration,
  trust and stored observations, the winners have the same bytes, the least of all in
  byte order; the trust computed for each transaction has no influence.\<close>

theorem conflict_winners_agree:
  assumes "resolve_conflict x cfg now cs ds = (Ok w, ds1)" "resolve_conflict x' cfg' now' cs' ds' = (Ok w', ds2)"
    and "cf_transaction_hash ` set cs = cf_transaction_hash ` set cs'" "2 \<le> length cs" "2 \<le> length cs'"
  shows "vb w = vb w' \<and> w \<in> cf_transaction_hash ` set cs \<and> (\<forall>c \<in> set cs. vb w \<le> vb (cf_transaction_hash c))"
proof -
  note w = resolve_conflict_Ok [OF assms(1,4)] resolve_conflict_Ok [OF assms(2,5)]
  then have "vb w \<le> vb w'" "vb w' \<le> vb w" using assms(3) by auto
  with w show ?thesis by auto
qed

section \<open>Registration\<close>

text \<open>A duplicate removes the guard against duplicates: while a task is registered for a hash, any
  other task that reaches registration with the same hash, be it claimed or computed, ends
  with the error for a transaction already in process, and its cleanup removes the first
  task's registration, so that the next task with that hash registers successfully beside
  the one still running.\<close>

theorem duplicate_removes_registration:
  assumes "tk_stage tk = Register" "rl_transaction_channels (ns_relay s) (tk_hash tk) = Some rp"
    and "tk_context tk = \<lparr> tpc_request_processor = None, tpc_transaction_hash = Some (tk_hash tk), tpc_utxo_ids = None \<rparr>"
    and "tk_stage tk2 = Register" "tk_hash tk2 = tk_hash tk"
  shows "\<exists>tk' s' tk2' s2. task_step x cfg e tk s = (tk', s') \<and>
     tk_stage tk' = Done (Err (error_message x TransactionAlreadyProcessing ''Duplicate TX hash found in processing queue'')) \<and>
     rl_transaction_channels (ns_relay s') (tk_hash tk) = None \<and>
     task_step x cfg e tk2 s' = (tk2', s2) \<and> tk_stage tk2' = Resolve \<and>
     rl_transaction_channels (ns_relay s2) (tk_hash tk) = Some (task_processor tk2)"
proof -
  define s' where "s' = s \<lparr> ns_relay := ns_relay s \<lparr> rl_transaction_channels :=
    (rl_transaction_channels (ns_relay s))(tk_hash tk := None) \<rparr> \<rparr>"
  have "task_step x cfg e tk s = (tk \<lparr> tk_stage := Done (Err (error_message x TransactionAlreadyProcessing
      ''Duplicate TX hash found in processing queue'')) \<rparr>, s')"
    using assms(1-3) by (simp add: task_step_def run_stage_def register_stage_def create_receiver_or_err_def seq_do_def
        end_task_def cleanup_def pure_def s'_def)
  moreover have "rl_transaction_channels (ns_relay s') (tk_hash tk) = None" by (simp add: s'_def)
  moreover from this assms(4,5) have "\<exists>tk2' s2. task_step x cfg e tk2 s' = (tk2', s2) \<and> tk_stage tk2' = Resolve \<and>
     rl_transaction_channels (ns_relay s2) (tk_hash tk) = Some (task_processor tk2)"
    by (simp add: task_step_def run_stage_def register_stage_def create_receiver_or_err_def seq_do_def pure_def
        task_processor_def Let_def)
  ultimately show ?thesis by auto
qed

section \<open>Locks\<close>

text \<open>The requests that hold a UTXO.\<close>

definition holders :: "UtxoId \<Rightarrow> node_state \<Rightarrow> Conflict set" where
  "holders u s = (case rl_utxo_channels (ns_relay s) u of Some p \<Rightarrow> set (up_active_requests p) | None \<Rightarrow> {})"

definition keeps_locks :: "(node_state, 'a) action \<Rightarrow> bool" where
  "keeps_locks m \<longleftrightarrow> (\<forall>s u. holders u s \<subseteq> holders u (snd (m s)))"

named_theorems lock_rules

lemma keeps_locksD: "keeps_locks m \<Longrightarrow> m s = (r, s') \<Longrightarrow> c \<in> holders u s \<Longrightarrow> c \<in> holders u s'"
  by (auto simp: keeps_locks_def) (metis snd_conv subsetD)

lemma keeps_locks_pure [lock_rules]: "keeps_locks (pure r)"
  by (simp add: keeps_locks_def pure_def)

lemma keeps_locks_seq [lock_rules]:
  "keeps_locks m \<Longrightarrow> (\<And>a. keeps_locks (f a)) \<Longrightarrow> keeps_locks (seq_do m f)"
  by (auto simp: keeps_locks_def seq_do_def split: prod.splits result.splits) (metis snd_conv subsetD)+

lemma keeps_locks_store [lock_rules]: "keeps_locks (on_store m)"
  by (auto simp: keeps_locks_def on_store_def holders_def split: prod.splits)

lemma keeps_locks_send [lock_rules]: "keeps_locks (send_conflict c msg)"
  by (simp add: keeps_locks_def send_conflict_def holders_def Let_def)

lemma keeps_locks_each [lock_rules]: "(\<And>c. keeps_locks (f c)) \<Longrightarrow> keeps_locks (for_each_do f cs)"
  by (induction cs) (auto intro: lock_rules)

lemma keeps_locks_if [lock_rules]: "keeps_locks a \<Longrightarrow> keeps_locks b \<Longrightarrow> keeps_locks (if p then a else b)"
  by simp

lemma keeps_locks_create [lock_rules]: "keeps_locks (create_receiver_or_err x h r t)"
  by (auto simp: keeps_locks_def create_receiver_or_err_def holders_def Let_def split: option.splits)

lemma holders_set_pool: "holders u (set_pool v cs s) = (if u = v then set cs else holders u s)"
  by (simp add: holders_def set_pool_def)

lemma keeps_locks_lock [lock_rules]: "keeps_locks (lock_utxo x c u)"
  unfolding keeps_locks_def
proof (intro allI subsetI)
  fix s v d assume d: "d \<in> holders v s"
  show "d \<in> holders v (snd (lock_utxo x c u s))"
  proof (cases "rl_utxo_channels (ns_relay s) u")
    case (Some p)
    let ?m = "for_each_do (\<lambda>active. seq_do (pure (log_conflict x (cf_transaction_hash c) active u)) (\<lambda>_. send_conflict active c)) (up_active_requests p)"
    have "keeps_locks ?m" by (intro lock_rules)
    with d have "d \<in> holders v (snd (?m s))" by (auto simp: keeps_locks_def)
    moreover have "u = v \<Longrightarrow> d \<in> set (up_active_requests p)" using d Some by (simp add: holders_def)
    ultimately show ?thesis using Some
      by (auto simp: lock_utxo_def seq_do_def holders_set_pool split: prod.splits result.splits)
  next
    case None
    with d have "u \<noteq> v" by (auto simp: holders_def)
    with None d show ?thesis by (simp add: lock_utxo_def holders_set_pool)
  qed
qed

lemma keeps_locks_wait [lock_rules]: "keeps_locks (wait_stage x cfg e tk)"
  by (auto simp: keeps_locks_def wait_stage_def holders_def Let_def split: list.splits)

lemma keeps_locks_stage [lock_rules]: "keeps_locks (run_stage x cfg e tk)"
  unfolding run_stage_def
  by (cases "tk_stage tk")
     (auto simp: receive_stage_def register_stage_def resolve_stage_def lock_stage_def revalidate_stage_def pending_stage_def
       gossip_stage_def settle_stage_def accepted_stage_def commit_stage_def respond_stage_def Let_def
       intro!: lock_rules split: list.split prod.split)

lemmas stage_defs = receive_stage_def register_stage_def resolve_stage_def lock_stage_def revalidate_stage_def pending_stage_def
  gossip_stage_def wait_stage_def settle_stage_def accepted_stage_def commit_stage_def respond_stage_def

text \<open>What no stage changes in a task, and that the conflicts of a task only grow.\<close>

lemma run_stage_frame:
  assumes "run_stage x cfg e tk s = (Ok tk', s')"
  shows "tk_hash tk' = tk_hash tk \<and> tk_request_id tk' = tk_request_id tk \<and> tk_transaction tk' = tk_transaction tk \<and>
     tpc_request_processor (tk_context tk') = tpc_request_processor (tk_context tk) \<and>
     tpc_transaction_hash (tk_context tk') = tpc_transaction_hash (tk_context tk) \<and>
     set (tk_conflicts tk) \<subseteq> set (tk_conflicts tk')"
  using assms
  by (auto simp: run_stage_def stage_defs seq_do_eq_Ok pure_Ok Let_def and_then_eq_Ok split: stage.splits if_splits list.splits)

lemma end_task_frame:
  assumes "end_task x r tk s = (tk', s')" "tpc_request_processor (tk_context tk) = None"
  shows "(\<exists>q. tk' = tk \<lparr> tk_stage := Done q \<rparr> \<and> (is_ok q \<longrightarrow> is_ok r)) \<and> holders u s' = holders u s"
  using assms
  by (auto simp: end_task_def cleanup_def seq_do_def pure_def holders_def is_ok_iff split: prod.splits result.splits if_splits)

lemma task_step_locks:
  assumes "task_step x cfg e tk s = (tk', s')" "tpc_request_processor (tk_context tk) = None"
  shows "holders u s \<subseteq> holders u s' \<and> tpc_request_processor (tk_context tk') = None"
proof -
  obtain r s1 where 1: "run_stage x cfg e tk s = (r, s1)" by fastforce
  have h: "holders u s \<subseteq> holders u s1" using keeps_locks_stage [of x cfg e tk] 1 by (auto simp: keeps_locks_def) (metis snd_conv subsetD)
  show ?thesis
  proof (cases r)
    case (Ok tk1)
    with 1 run_stage_frame [of x cfg e tk s tk1 s1] assms h show ?thesis
      by (auto simp: task_step_def split: stage.splits dest!: end_task_frame [where u = u])
  qed (use 1 assms h in \<open>auto simp: task_step_def dest!: end_task_frame [where u = u]\<close>)
qed

definition no_processor :: "node \<Rightarrow> bool" where
  "no_processor n \<longleftrightarrow> (\<forall>rid tk. nd_tasks n rid = Some tk \<longrightarrow> tpc_request_processor (tk_context tk) = None)"

lemma node_step_locks:
  assumes "node_step x cfg n n'" "no_processor n"
  shows "no_processor n' \<and> holders u (nd_state n) \<subseteq> holders u (nd_state n')"
  using assms
proof (induction rule: node_step.induct)
  case (run n rid tk e tk' s')
  then have "tpc_request_processor (tk_context tk) = None" by (auto simp: no_processor_def)
  from task_step_locks [OF run(4) this] run show ?case by (auto simp: no_processor_def advance_task_def)
qed (auto simp: no_processor_def new_task_def accept_task_def)

lemma node_steps_locks:
  assumes "(node_step x cfg)\<^sup>*\<^sup>* n n'" "no_processor n"
  shows "no_processor n' \<and> holders u (nd_state n) \<subseteq> holders u (nd_state n')"
  using assms by (induction rule: rtranclp_induct) (auto dest: node_step_locks [where u = u])

lemma initial_no_processor: "no_processor (initial_node ds)"
  by (simp add: no_processor_def initial_node_def)

text \<open>C5: A lock on a UTXO is never released: in every run of the node from a start without tasks,
  a request that holds a UTXO at some point, whether its transaction was accepted, rejected
  or never finished, holds it at every later point, because no task ever records its request
  processor and so the cleanup never reaches the locks.\<close>

theorem locks_never_released:
  assumes "(node_step x cfg)\<^sup>*\<^sup>* (initial_node ds) n" "(node_step x cfg)\<^sup>*\<^sup>* n n'" "c \<in> holders u (nd_state n)"
  shows "c \<in> holders u (nd_state n')"
  using node_steps_locks [OF assms(1) initial_no_processor] node_steps_locks [OF assms(2)] assms(3) by blast

text \<open>A task that has met a conflicting request, or is about to lock what that request holds.\<close>

definition blocked :: "Conflict \<Rightarrow> UtxoId \<Rightarrow> tx_task \<Rightarrow> node_state \<Rightarrow> bool" where
  "blocked c u tk s = (case tk_stage tk of
     Lock us \<Rightarrow> c \<in> set (tk_conflicts tk) \<or> (u \<in> set us \<and> c \<in> holders u s)
   | Revalidate \<Rightarrow> c \<in> set (tk_conflicts tk)
   | Sign_Pending \<Rightarrow> c \<in> set (tk_conflicts tk)
   | Gossip_Tx \<Rightarrow> c \<in> set (tk_conflicts tk)
   | Wait \<Rightarrow> c \<in> set (tk_conflicts tk)
   | Settle \<Rightarrow> c \<in> set (tk_conflicts tk)
   | Done r \<Rightarrow> \<not> is_ok r
   | _ \<Rightarrow> False)"

lemma lock_utxo_Ok:
  "lock_utxo x c u s = (Ok (taken, active), s') \<Longrightarrow> set active = holders u s"
  by (auto simp: lock_utxo_def holders_def seq_do_eq_Ok split: option.splits)

lemma settle_loses:
  assumes "settle_stage x cfg e tk s = (Ok tk', s')" "c \<in> set (tk_conflicts tk)"
  shows "\<not> vb (cf_transaction_hash c) < vb (tk_hash tk)"
proof -
  obtain d where d: "resolve_conflict x cfg (pe_now e) (tk_conflicts tk @ [task_conflict True tk]) (rl_ds (ns_relay s)) = (Ok (tk_hash tk), d)"
    using assms by (auto simp: settle_stage_def seq_do_eq_Ok Let_def on_store_def pure_Ok and_then_eq_Ok
        split: if_splits prod.splits)
  have "2 \<le> length (tk_conflicts tk @ [task_conflict True tk])" using assms(2) by (cases "tk_conflicts tk") auto
  from resolve_conflict_Ok [OF d this] assms(2) show ?thesis by (auto simp: not_less)
qed

lemma blocked_stage:
  assumes "run_stage x cfg e tk s = (Ok tk', s')" "blocked c u tk s" "\<not> finished tk"
    and "vb (cf_transaction_hash c) < vb (tk_hash tk)"
  shows "blocked c u tk' s' \<and> (\<forall>r. tk_stage tk' \<noteq> Done r)"
proof (cases "tk_stage tk")
  case (Lock us)
  have keep: "c \<in> holders u s'" if "c \<in> holders u s"
    using keeps_locksD [OF keeps_locks_stage assms(1) that] .
  show ?thesis
  proof (cases us)
    case Nil
    with Lock assms show ?thesis by (auto simp: run_stage_def lock_stage_def pure_Ok blocked_def)
  next
    case (Cons v vs)
    then obtain taken active where a: "lock_utxo x (task_conflict False tk) v s = (Ok (taken, active), s')"
      "tk' = tk \<lparr> tk_stage := Lock vs, tk_conflict_detected := tk_conflict_detected tk \<or> taken,
         tk_conflicts := tk_conflicts tk @ active \<rparr>"
      using Lock assms(1) by (auto simp: run_stage_def lock_stage_def pure_Ok seq_do_eq_Ok)
    with lock_utxo_Ok [OF a(1)] Cons Lock assms(2) keep show ?thesis by (auto simp: blocked_def)
  qed
next
  case Settle
  with assms settle_loses [of x cfg e tk s tk' s' c] show ?thesis by (simp add: run_stage_def blocked_def)
qed (use assms in \<open>auto simp: run_stage_def blocked_def finished_def stage_defs seq_do_eq_Ok pure_Ok Let_def
       split: if_splits list.splits\<close>)

lemma blocked_step:
  assumes "task_step x cfg e tk s = (tk', s')" "blocked c u tk s" "\<not> finished tk"
    and "vb (cf_transaction_hash c) < vb (tk_hash tk)" "tpc_request_processor (tk_context tk) = None"
  shows "blocked c u tk' s' \<and> tk_hash tk' = tk_hash tk"
proof -
  obtain r s1 where 1: "run_stage x cfg e tk s = (r, s1)" by fastforce
  show ?thesis
  proof (cases r)
    case (Ok tk1)
    with 1 blocked_stage [of x cfg e tk s tk1 s1 c u] run_stage_frame [of x cfg e tk s tk1 s1] assms show ?thesis
      by (auto simp: task_step_def split: stage.splits)
  qed (use 1 assms in \<open>auto simp: task_step_def blocked_def dest!: end_task_frame [where u = u]\<close>)
qed

lemma blocked_node_step:
  assumes "node_step x cfg n n'" "no_processor n" "nd_tasks n rid = Some tk" "blocked c u tk (nd_state n)"
    and "vb (cf_transaction_hash c) < vb (tk_hash tk)"
  shows "\<exists>tk'. nd_tasks n' rid = Some tk' \<and> blocked c u tk' (nd_state n') \<and> tk_hash tk' = tk_hash tk"
  using assms
proof (induction rule: node_step.induct)
  case (run n rid' tk1 e tk2 s')
  then have np: "tpc_request_processor (tk_context tk1) = None" by (auto simp: no_processor_def)
  show ?case
  proof (cases "rid' = rid")
    case True
    with run blocked_step [OF run(4), of c u] np show ?thesis by (auto simp: advance_task_def)
  next
    case False
    have "c \<in> holders u s'" if "c \<in> holders u (nd_state n)" using task_step_locks [OF run(4) np, of u] that by auto
    with False run show ?thesis by (auto simp: blocked_def advance_task_def split: stage.splits)
  qed
qed (auto simp: accept_task_def)

text \<open>C6: A held UTXO shuts out every transaction with a greater hash, for good: once any request,
  even of a transaction that was rejected, holds a UTXO, a task about to lock that UTXO whose
  hash has greater bytes never reaches acceptance, commit or a successful result, in any
  interleaving with other tasks and whatever the surroundings answer.\<close>

theorem held_utxo_blocks:
  assumes "(node_step x cfg)\<^sup>*\<^sup>* (initial_node ds) n" "nd_tasks n rid = Some tk" "tk_stage tk = Lock us" "u \<in> set us"
    and "c \<in> holders u (nd_state n)" "vb (cf_transaction_hash c) < vb (tk_hash tk)"
    and "(node_step x cfg)\<^sup>*\<^sup>* n n'" "nd_tasks n' rid = Some tk'"
  shows "tk_stage tk' \<noteq> Sign_Accepted \<and> tk_stage tk' \<noteq> Commit \<and> tk_stage tk' \<noteq> Respond \<and>
     (\<forall>r. tk_stage tk' \<noteq> Done (Ok r))"
proof -
  have np: "no_processor n" using node_steps_locks [OF assms(1) initial_no_processor] by blast
  have "\<exists>tk'. nd_tasks n' rid = Some tk' \<and> blocked c u tk' (nd_state n') \<and> tk_hash tk' = tk_hash tk"
    using assms(7)
  proof (induction rule: rtranclp_induct)
    case base
    with assms show ?case by (auto simp: blocked_def)
  next
    case (step n1 n2)
    then have "no_processor n1" using node_steps_locks [OF _ np] by blast
    with step blocked_node_step [OF step(2)] assms(6) show ?case by metis
  qed
  with assms(8) show ?thesis by (auto simp: blocked_def)
qed

end
