(* ===== verification/Double_Spend.thy ===== *)
theory Double_Spend
  imports Ledger
begin

text \<open>
  A run of the node in which two transactions spend the same output and both are committed,
  and concrete instances of the ledger theorems, on the spendable output of the resolver's
  theory.
\<close>

section \<open>Surroundings of the run\<close>

definition quiet_config :: node_config where
  "quiet_config = \<lparr> nc_network = Test, nc_finalization = 10, nc_seeds = [], nc_fixed_peer_tx = new_blank 5 7,
     nc_predicted_trust = Map.empty, nc_contract_buckets = 10 \<rparr>"

definition any_proof :: ObservationProof where
  "any_proof = \<lparr> op_observation_hash = None, op_merkle_proof = None, op_metadata = None, op_proof = None \<rparr>"

definition env_at :: "i64 \<Rightarrow> process_env" where
  "env_at t = \<lparr> pe_now = t, pe_network = near_network, pe_unknown = (\<lambda>_. Inr ()), pe_buffer = (\<lambda>_. Ok any_proof),
     pe_contract_sent = (\<lambda>_. Inr ()), pe_contract_answer = (\<lambda>_. Inl []) \<rparr>"

text \<open>A store in which the output can be spent and nothing else happens.\<close>

definition spendable :: "data_store \<Rightarrow> bool" where
  "spendable ds \<longleftrightarrow> query_maybe_transaction owned_ext (hash_new [1]) ds = Ok (Some (owned_tx, None)) \<and>
     query_utxo_id_valid owned_ext (hash_new [1]) 0 ds = Ok True \<and> ds_fault ds = None \<and> ds_observation_edge ds = [] \<and>
     ds_nodes ds = []"

lemma spendable_owned: "spendable owned_store"
  using owned_store_sel by (simp add: spendable_def)

section \<open>Stages of a spend\<close>

lemma owner_proof_verifies: "proof_verify owned_ext (digest owned_ext s) owner_proof = Ok ()"
  using owner_verifies [of s] by (auto simp: verify_proofs_def and_then_eq_Ok for_each_eq_Ok split: if_splits)

lemma spend_prevalidates: "prevalidate owned_ext (spend_tx c) = Ok ()"
proof -
  obtain b where "signable_hash owned_ext (spend_tx c) = digest owned_ext b" by (simp add: signable_hash_content)
  then have "check_input owned_ext (spend_tx c) spend_input = Ok ()"
    using owner_proof_verifies by (simp add: check_input_Ok spend_input_sel utxo_id_new_def MAX_INPUTS_OUTPUTS_def)
  moreover have "length (enc_transaction owned_ext (spend_tx c)) = 2" by (simp add: echo_ext_def sample_ext_def)
  moreover have "network_from_i32 (network_i32 Test) = Some Test" by (simp add: network_from_i32_eq)
  moreover have "check_message owned_ext (spend_tx c) = Ok ()"
    by (simp add: check_message_Ok spend_tx_def tx_options_default_def)
  moreover have "\<exists>hs. check_input_ids owned_ext {} spend_input = Ok hs" by (simp add: check_input_ids_def spend_input_sel)
  moreover have "t_options (spend_tx c) = Some (tx_options_default \<lparr> to_network_type := Some (network_i32 Test) \<rparr>)"
    "to_contract tx_options_default = None"
    by (simp_all add: spend_tx_def tx_options_default_def)
  ultimately show ?thesis by (auto simp: prevalidate_def Let_def ok_msg_def)
qed

lemma spend_network: "validate_network owned_ext Test (spend_tx c) = Ok ()"
proof -
  have "network_from_i32 1 = Some Test" by (simp add: network_from_i32_eq)
  then show ?thesis by (simp add: validate_network_def tx_options_def spend_tx_def)
qed

lemma spend_not_peer: "\<not> check_peer_message owned_ext (spend_tx c)"
  by (simp add: check_peer_message_def node_metadata_def peer_data_def output_new_def amount_data_def
      standard_data_default_def List.map_filter_simps Let_def)

lemma env_at_sel [simp]:
  "pe_now (env_at t) = t" "pe_network (env_at t) = near_network" "pe_buffer (env_at t) m = Ok any_proof"
  by (simp_all add: env_at_def)

lemma on_store_query [simp]: "on_store (query f) s = (f (rl_ds (ns_relay s)), s)"
  by (simp add: on_store_def query_def)

lemma seq_do_simps [simp]:
  "m s = (Ok a, s') \<Longrightarrow> seq_do m f s = f a s'" "seq_do (pure (Ok a)) f = f a"
  by (simp_all add: seq_do_def pure_def fun_eq_iff)

lemma fixed_ids_spend [simp]: "fixed_utxo_ids_of_inputs (spend_tx c) = Ok [utxo_id_new (hash_new [1]) 0]"
  by (simp add: fixed_utxo_ids_eq utxo_ids_def spend_input_sel List.map_filter_simps)

lemma resolve_and_validate_spend:
  assumes "spendable ds"
  shows "\<exists>r. resolve_and_validate owned_ext (env_at t) (spend_tx c) ds = Ok r \<and> rtx_resolved_internally r"
  using resolve_spend_tx [of ds near_network "\<lambda>_. Inr ()" t c] assms
  by (auto simp: spendable_def resolve_and_validate_def env_at_def)

text \<open>The state of the node by its parts, and the shape of a spending task.\<close>

definition state_of :: "data_store \<Rightarrow> (Hash \<Rightarrow> RequestProcessor option) \<Rightarrow> (UtxoId \<Rightarrow> UTXOContentionPool option) \<Rightarrow>
    (string \<Rightarrow> Conflict list) \<Rightarrow> node_state" where
  "state_of ds ch up mail = \<lparr> ns_relay = \<lparr> rl_ds = ds, rl_transaction_channels = ch, rl_utxo_channels = up,
     rl_mempool_entries = Map.empty \<rparr>, ns_mail = mail \<rparr>"

definition spending :: "u8 \<Rightarrow> string \<Rightarrow> stage \<Rightarrow> Conflict list \<Rightarrow> tx_task \<Rightarrow> bool" where
  "spending c rid st cs tk \<longleftrightarrow> tk_transaction tk = spend_tx c \<and> tk_hash tk = hash_new [c] \<and>
     tpc_transaction_hash (tk_context tk) = Some (hash_new [c]) \<and> tk_start tk = 0 \<and> tk_request_id tk = rid \<and>
     tk_stage tk = st \<and> tk_conflicts tk = cs \<and> tk_conflict_detected tk = (cs \<noteq> [])"

definition spend_processor :: "u8 \<Rightarrow> string \<Rightarrow> RequestProcessor" where
  "spend_processor c rid = \<lparr> rp_request_id = rid, rp_transaction_hash = hash_new [c], rp_transaction = spend_tx c \<rparr>"

definition spend_conflict :: "u8 \<Rightarrow> string \<Rightarrow> Conflict" where
  "spend_conflict c rid = \<lparr> cf_transaction_hash = hash_new [c], cf_abort = False, cf_processing_start_time = 0,
     cf_request_processer = spend_processor c rid \<rparr>"

abbreviation spent_utxo :: UtxoId where
  "spent_utxo \<equiv> utxo_id_new (hash_new [1]) 0"

definition does :: "i64 \<Rightarrow> tx_task \<Rightarrow> node_state \<Rightarrow> (tx_task \<Rightarrow> bool) \<Rightarrow> node_state \<Rightarrow> bool" where
  "does t tk s P s' \<longleftrightarrow> (\<exists>tk'. task_step owned_ext quiet_config (env_at t) tk s = (tk', s') \<and> P tk')"

lemma does_receive:
  assumes "spending c rid Receive [] tk" "spendable ds" "query_maybe_transaction owned_ext (hash_new [c]) ds = Ok None"
  shows "does t tk (state_of ds ch up mail) (spending c rid Register []) (state_of ds ch up mail)"
  using assms spend_prevalidates [of c] spend_network [of c] spend_not_peer [of c]
  by (simp add: does_def spending_def task_step_def run_stage_def receive_stage_def immediate_validation_def quiet_config_def
      pure_def state_of_def)

lemma does_register:
  assumes "spending c rid Register [] tk" "ch (hash_new [c]) = None" "mail rid = []"
  shows "does t tk (state_of ds ch up mail) (spending c rid Resolve []) (state_of ds (ch(hash_new [c] \<mapsto> spend_processor c rid)) up mail)"
  using assms
  by (auto simp: does_def spending_def task_step_def run_stage_def register_stage_def create_receiver_or_err_def seq_do_def
      pure_def state_of_def Let_def spend_processor_def)

lemma does_resolve:
  assumes "spending c rid Resolve [] tk" "spendable ds"
  shows "does t tk (state_of ds ch up mail) (spending c rid (Lock [spent_utxo]) []) (state_of ds ch up mail)"
proof -
  obtain r where r: "resolve_and_validate owned_ext (env_at t) (spend_tx c) ds = Ok r"
    using resolve_and_validate_spend [OF assms(2)] by blast
  with assms(1) show ?thesis
    by (simp add: does_def spending_def task_step_def run_stage_def resolve_stage_def check_utxo_conflicts_def pure_def state_of_def)
qed

lemma does_lock:
  assumes "spending c rid (Lock [spent_utxo]) [] tk"
  shows "up spent_utxo = None \<Longrightarrow> does t tk (state_of ds ch up mail) (spending c rid (Lock []) [])
      (state_of ds ch (up(spent_utxo \<mapsto> \<lparr> up_active_requests = [spend_conflict c rid] \<rparr>)) mail)"
    and "up spent_utxo = Some \<lparr> up_active_requests = [spend_conflict d rid'] \<rparr> \<Longrightarrow>
      does t tk (state_of ds ch up mail) (spending c rid (Lock []) [spend_conflict d rid'])
      (state_of ds ch (up(spent_utxo \<mapsto> \<lparr> up_active_requests = [spend_conflict d rid', spend_conflict c rid] \<rparr>))
         (mail(rid' := mail rid' @ [spend_conflict c rid])))"
proof -
  have tc: "task_conflict False tk = spend_conflict c rid"
    using assms by (simp add: task_conflict_def spend_conflict_def spending_def task_processor_def spend_processor_def)
  have lg: "log_conflict owned_ext (cf_transaction_hash (spend_conflict c rid)) (spend_conflict d rid') spent_utxo = Ok ()" for rid'
    by (simp add: log_conflict_def utxo_id_new_def hash_hex_def spend_conflict_def)
  show "up spent_utxo = None \<Longrightarrow> does t tk (state_of ds ch up mail) (spending c rid (Lock []) [])
      (state_of ds ch (up(spent_utxo \<mapsto> \<lparr> up_active_requests = [spend_conflict c rid] \<rparr>)) mail)"
    using assms by (simp add: does_def task_step_def run_stage_def lock_stage_def spending_def lock_utxo_def tc set_pool_def
        state_of_def seq_do_def pure_def)
  show "up spent_utxo = Some \<lparr> up_active_requests = [spend_conflict d rid'] \<rparr> \<Longrightarrow>
      does t tk (state_of ds ch up mail) (spending c rid (Lock []) [spend_conflict d rid'])
      (state_of ds ch (up(spent_utxo \<mapsto> \<lparr> up_active_requests = [spend_conflict d rid', spend_conflict c rid] \<rparr>))
         (mail(rid' := mail rid' @ [spend_conflict c rid])))"
    using assms by (simp add: does_def task_step_def run_stage_def lock_stage_def spending_def lock_utxo_def tc set_pool_def
        state_of_def seq_do_def pure_def lg send_conflict_def Let_def) (simp add: spend_conflict_def spend_processor_def)
qed

lemma does_locked:
  assumes "spending c rid (Lock []) cs tk"
  shows "does t tk (state_of ds ch up mail) (spending c rid Revalidate cs) (state_of ds ch up mail)"
  using assms by (simp add: does_def spending_def task_step_def run_stage_def lock_stage_def pure_def)

lemma does_revalidate:
  assumes "spending c rid Revalidate cs tk" "spendable ds"
  shows "does t tk (state_of ds ch up mail) (spending c rid Sign_Pending cs) (state_of ds ch up mail)"
proof -
  obtain r where r: "resolve_and_validate owned_ext (env_at t) (spend_tx c) ds = Ok r"
    using resolve_and_validate_spend [OF assms(2)] by blast
  with assms(1) show ?thesis
    by (simp add: does_def spending_def task_step_def run_stage_def revalidate_stage_def pure_def state_of_def)
qed

lemma observes: "spending c rid st cs tk \<Longrightarrow> process_observe owned_ext (env_at t) (tk_context tk) vt st' = Ok any_proof"
  by (simp add: process_observe_def spending_def observe_tx_def observe_def observe_tx_metadata_def om_with_hash_def
      struct_metadata_def Let_def)

lemma does_pending:
  assumes "spending c rid Sign_Pending cs tk"
  shows "does t tk (state_of ds ch up mail) (spending c rid Gossip_Tx cs) (state_of ds ch up mail)"
  using assms observes [OF assms]
  by (auto simp: does_def spending_def task_step_def run_stage_def pending_stage_def pure_def seq_do_def hash_hex_def)

lemma does_gossip:
  assumes "spending c rid Gossip_Tx cs tk" "ds_fault ds = None" "ds_nodes ds = []"
  shows "does t tk (state_of ds ch up mail) (spending c rid Wait cs) (state_of ds ch up mail)"
  using assms
  by (simp add: does_def spending_def task_step_def run_stage_def gossip_stage_def gossip_def select_gossip_peers_def
      active_nodes_def active_rows_def pure_def state_of_def)

lemma does_wait:
  assumes "spending c rid Wait cs tk"
  shows "does 20 tk (state_of ds ch up mail) (spending c rid Settle cs) (state_of ds ch up mail)"
  using assms by (simp add: does_def spending_def task_step_def run_stage_def wait_stage_def quiet_config_def)

lemma does_settle:
  assumes "spending c rid Settle [] tk"
  shows "does t tk (state_of ds ch up mail) (spending c rid Sign_Accepted []) (state_of ds ch up mail)"
  using assms by (simp add: does_def spending_def task_step_def run_stage_def settle_stage_def pure_def)

lemma spends_resolve:
  assumes "ds_fault ds = None" "ds_nodes ds = []" "ds_observation_edge ds = []" "c < d"
  shows "resolve_conflict owned_ext quiet_config t [spend_conflict d rid', spend_conflict c rid \<lparr> cf_abort := True \<rparr>] ds =
     (Ok (hash_new [c]), ds)"
proof -
  have "active_nodes owned_ext t None ds = Ok []" using assms by (simp add: active_nodes_def active_rows_def)
  moreover have "select_observation_edge owned_ext (hash_new [b]) ds = Ok []" for b
    using assms by (simp add: select_observation_edge_def)
  ultimately show ?thesis
    using assms(4) by (auto simp: resolve_conflict_def seq_do_def query_def pure_def trust_conflict_def sum_trust_def
        sort_by_hash_def spend_conflict_def)
qed

lemma does_settle_conflict:
  assumes "spending c rid Settle [spend_conflict d rid'] tk" "c < d" "ds_fault ds = None" "ds_nodes ds = []" "ds_observation_edge ds = []"
  shows "does t tk (state_of ds ch up mail) (spending c rid Sign_Accepted [spend_conflict d rid'])
     (state_of ds ch up (mail(rid' := mail rid' @ [spend_conflict c rid \<lparr> cf_abort := True \<rparr>])))"
proof -
  have "task_conflict True tk = spend_conflict c rid \<lparr> cf_abort := True \<rparr>"
    using assms(1) by (simp add: task_conflict_def spend_conflict_def spending_def task_processor_def spend_processor_def)
  moreover have "rp_request_id (cf_request_processer (spend_conflict d rid')) = rid'"
    by (simp add: spend_conflict_def spend_processor_def)
  ultimately show ?thesis
    using assms(1) spends_resolve [OF assms(3,4,5,2), of t rid' rid]
    by (simp add: does_def spending_def task_step_def run_stage_def settle_stage_def on_store_def state_of_def seq_do_def pure_def
        send_conflict_def Let_def)
qed

lemma does_accept:
  assumes "spending c rid Sign_Accepted cs tk"
  shows "does t tk (state_of ds ch up mail) (spending c rid Commit cs) (state_of ds ch up mail)"
  using assms observes [OF assms]
  by (auto simp: does_def spending_def task_step_def run_stage_def accepted_stage_def pure_def seq_do_def)

lemma owner_input_address: "input_address owned_ext spend_input = Ok owner"
  using owner_verifies [of "[]"]
  by (auto simp: input_address_def spend_input_sel verify_proofs_def and_then_eq_Ok split: if_splits)

definition spend_row :: "u8 \<Rightarrow> i64 \<Rightarrow> utxo_row" where
  "spend_row c t = the (case utxo_row_of owned_ext (from_output_new (output_new owner 10) (hash_new [c]) 0 t) of Ok r \<Rightarrow> Some r | _ \<Rightarrow> None)"

lemma spend_row: "utxo_row_of owned_ext (from_output_new (output_new owner 10) (hash_new [c]) 0 t) = Ok (spend_row c t)"
  "utxo_key (spend_row c t) = ([c], 0)" "ur_amount (spend_row c t) = Some 10"
  by (simp_all add: utxo_row_of_def spend_row_def from_output_new_def utxo_id_new_def opt_hash_safe_bytes_def
      utxo_entry_address_def has_deploy_code_def validate_deploy_code_def is_deploy_def
      output_new_sel utxo_key_def Let_def owner_def new_raw_def)

lemma from_transaction_spend: "from_transaction owned_ext (spend_tx c) t = [from_output_new (output_new owner 10) (hash_new [c]) 0 t]"
  by (simp add: from_transaction_def)

lemma index_spend:
  assumes "ds_fault ds = None"
  shows "\<exists>ds'. insert_transaction_indexes owned_ext (spend_tx c) t ds = (Ok (), ds') \<and> ds_fault ds' = None \<and>
     ds_transactions ds' = ds_transactions ds \<and> ds_utxo ds' = ds_utxo ds \<and> ds_nodes ds' = ds_nodes ds \<and> ds_observation_edge ds' = ds_observation_edge ds"
proof -
  obtain bs where o: "safe_bytes owned_ext (a_address owner) = Ok bs" by (auto simp: owner_def new_raw_def)
  have "Option.bind (t_struct_metadata (spend_tx c)) sm_time = Some 5" by (simp add: spend_tx_def struct_metadata_def)
  with assms o show ?thesis
    by (simp add: insert_transaction_indexes_def insert_input_edge_def spend_input_sel owner_input_address
        insert_transaction_edge_def exec_def utxo_id_new_def insert_address_transaction_def output_new_sel
        insert_address_transaction_single_def seq_do_def pure_def)
qed

abbreviation without_spent :: "utxo_row list \<Rightarrow> utxo_row list" where
  "without_spent \<equiv> filter (\<lambda>r. utxo_key r \<noteq> ([1], 0))"

lemma delete_spent_utxo:
  "ds_fault ds = None \<Longrightarrow> delete_spent owned_ext spent_utxo ds = (Ok (), ds \<lparr> ds_utxo := without_spent (ds_utxo ds) \<rparr>)"
  by (simp add: delete_spent_def delete_utxo_def tbl_delete_def utxo_id_new_def seq_do_def pure_def query_def
      query_utxo_id_valid_def utxo_id_format_str_def hash_hex_def)

lemma commit_spend:
  assumes "ds_fault ds = None" "unspent ds ([c], 0) = None"
  shows "\<exists>ds'. process_insert_transaction owned_ext t (spend_tx c) ds = (Ok (), ds') \<and> ds_fault ds' = None \<and>
     ds_nodes ds' = ds_nodes ds \<and> ds_observation_edge ds' = ds_observation_edge ds \<and>
     ds_utxo ds' = without_spent (ds_utxo ds @ [spend_row c t]) \<and>
     ds_transactions ds' = tbl_replace tr_hash (transaction_row_of owned_ext (spend_tx c) t True None [c]) (ds_transactions ds)"
proof -
  let ?txs = "tbl_replace tr_hash (transaction_row_of owned_ext (spend_tx c) t True None [c]) (ds_transactions ds)"
  let ?d1 = "ds \<lparr> ds_transactions := ?txs \<rparr>"
  have d1: "insert_transaction_raw owned_ext (spend_tx c) t True None ds = (Ok (), ?d1)"
    using assms by (simp add: insert_transaction_raw_eq_Ok tx_hash_bytes_def) (simp add: hash_new_def)
  let ?d2 = "?d1 \<lparr> ds_utxo := ds_utxo ds @ [spend_row c t] \<rparr>"
  have d2: "for_each_do (insert_utxo owned_ext) (from_transaction owned_ext (spend_tx c) t) ?d1 = (Ok (), ?d2)"
    using assms by (simp only: insert_utxos_eq_Ok) (auto simp: from_transaction_spend spend_row unspent_def)
  obtain d3 where d3: "insert_transaction_indexes owned_ext (spend_tx c) t ?d2 = (Ok (), d3)" "ds_fault d3 = None"
    "ds_utxo d3 = ds_utxo ds @ [spend_row c t]" "ds_nodes d3 = ds_nodes ds" "ds_observation_edge d3 = ds_observation_edge ds"
    "ds_transactions d3 = ?txs"
    using index_spend [of ?d2] assms by auto
  have "insert_transaction owned_ext (spend_tx c) t True None True ds = (Ok (), d3)"
    using d1 d2 d3(1) by (simp add: insert_transaction_def)
  then show ?thesis using d3 by (simp add: process_insert_transaction_def pure_def delete_spent_utxo)
qed

lemma does_commit:
  assumes "spending c rid Commit cs tk" "process_insert_transaction owned_ext t (spend_tx c) ds = (Ok (), ds')"
  shows "does t tk (state_of ds ch up mail) (spending c rid Respond cs) (state_of ds' ch up mail)"
  using assms by (simp add: does_def spending_def task_step_def run_stage_def commit_stage_def on_store_def state_of_def
      seq_do_def pure_def)

section \<open>Two spends of one output\<close>

text \<open>A node is reached in which the tasks of the requests a and b are in given situations.\<close>

definition reached :: "node_state \<Rightarrow> (tx_task option \<Rightarrow> bool) \<Rightarrow> (tx_task option \<Rightarrow> bool) \<Rightarrow> bool" where
  "reached s P Q \<longleftrightarrow> (\<exists>n. (node_step owned_ext quiet_config)\<^sup>*\<^sup>* (initial_node owned_store) n \<and> nd_running n \<and> nd_state n = s \<and>
     P (nd_tasks n ''a'') \<and> Q (nd_tasks n ''b''))"

definition runs :: "u8 \<Rightarrow> string \<Rightarrow> stage \<Rightarrow> Conflict list \<Rightarrow> tx_task option \<Rightarrow> bool" where
  "runs c rid st cs tk \<longleftrightarrow> (\<exists>t. tk = Some t \<and> spending c rid st cs t)"

definition running :: "stage \<Rightarrow> bool" where
  "running st = (case st of Done _ \<Rightarrow> False | Peer_Message \<Rightarrow> False | _ \<Rightarrow> True)"

lemma running_simps [simp]:
  "running Receive" "running Register" "running Resolve" "running (Lock us)" "running Revalidate" "running Sign_Pending"
  "running Gossip_Tx" "running Wait" "running Settle" "running Sign_Accepted" "running Commit"
  by (simp_all add: running_def)

lemma not_finished: "spending c rid st cs tk \<Longrightarrow> running st \<Longrightarrow> \<not> finished tk"
  by (auto simp: spending_def running_def finished_def split: stage.splits)

definition quiet :: "stage \<Rightarrow> bool" where
  "quiet st = (case st of Done _ \<Rightarrow> False | _ \<Rightarrow> True)"

lemma quiet_simps [simp]: "running st \<Longrightarrow> quiet st" "quiet Respond"
  by (auto simp: running_def quiet_def split: stage.splits)

lemma not_panicked: "spending c rid st cs tk \<Longrightarrow> quiet st \<Longrightarrow> \<not> panicked tk"
  by (auto simp: spending_def quiet_def panicked_def split: stage.splits)

lemma step_a:
  assumes "reached s (runs c ''a'' st cs) Q" "running st" "quiet st'"
    and "\<And>tk. spending c ''a'' st cs tk \<Longrightarrow> does t tk s (spending c ''a'' st' cs') s'"
  shows "reached s' (runs c ''a'' st' cs') Q"
proof -
  obtain n tk where n: "(node_step owned_ext quiet_config)\<^sup>*\<^sup>* (initial_node owned_store) n" "nd_state n = s"
    "nd_tasks n ''a'' = Some tk" "spending c ''a'' st cs tk" "nd_running n" "Q (nd_tasks n ''b'')"
    using assms(1) by (auto simp: reached_def runs_def)
  from assms(4) [OF n(4)] obtain tk' where "task_step owned_ext quiet_config (env_at t) tk s = (tk', s')" "spending c ''a'' st' cs' tk'"
    by (auto simp: does_def)
  with n node_step.run [of n "''a''" tk owned_ext quiet_config "env_at t" tk' s'] not_finished [OF n(4) assms(2)]
  show ?thesis unfolding reached_def runs_def
    by (intro exI [of _ "advance_task ''a'' tk' s' n"])
       (auto simp: advance_task_def dest: not_panicked [OF _ assms(3)] intro: rtranclp.rtrancl_into_rtrancl)
qed

lemma step_b:
  assumes "reached s P (runs c ''b'' st cs)" "running st" "quiet st'"
    and "\<And>tk. spending c ''b'' st cs tk \<Longrightarrow> does t tk s (spending c ''b'' st' cs') s'"
  shows "reached s' P (runs c ''b'' st' cs')"
proof -
  obtain n tk where n: "(node_step owned_ext quiet_config)\<^sup>*\<^sup>* (initial_node owned_store) n" "nd_state n = s"
    "nd_tasks n ''b'' = Some tk" "spending c ''b'' st cs tk" "nd_running n" "P (nd_tasks n ''a'')"
    using assms(1) by (auto simp: reached_def runs_def)
  from assms(4) [OF n(4)] obtain tk' where "task_step owned_ext quiet_config (env_at t) tk s = (tk', s')" "spending c ''b'' st' cs' tk'"
    by (auto simp: does_def)
  with n node_step.run [of n "''b''" tk owned_ext quiet_config "env_at t" tk' s'] not_finished [OF n(4) assms(2)]
  show ?thesis unfolding reached_def runs_def
    by (intro exI [of _ "advance_task ''b'' tk' s' n"])
       (auto simp: advance_task_def dest: not_panicked [OF _ assms(3)] intro: rtranclp.rtrancl_into_rtrancl)
qed

lemma new_spending: "spending c rid Receive [] (new_task owned_ext rid 0 (spend_tx c))"
  by (simp add: spending_def new_task_def Let_def)

lemma arrive_a: "reached (state_of owned_store Map.empty Map.empty (\<lambda>_. [])) (runs c ''a'' Receive []) (\<lambda>b. b = None)"
  unfolding reached_def runs_def
  using node_step.arrive [of "initial_node owned_store" "''a''" owned_ext quiet_config 0 "spend_tx c"] new_spending
  by (intro exI [of _ "accept_task owned_ext ''a'' 0 (spend_tx c) (initial_node owned_store)"])
     (auto simp: initial_node_def state_of_def accept_task_def)

lemma arrive_b:
  assumes "reached s P (\<lambda>b. b = None)"
  shows "reached s P (runs c ''b'' Receive [])"
proof -
  obtain n where n: "(node_step owned_ext quiet_config)\<^sup>*\<^sup>* (initial_node owned_store) n" "nd_state n = s"
    "nd_tasks n ''b'' = None" "nd_running n" "P (nd_tasks n ''a'')"
    using assms by (auto simp: reached_def)
  with node_step.arrive [of n "''b''" owned_ext quiet_config 0 "spend_tx c"] new_spending
  show ?thesis unfolding reached_def runs_def
    by (intro exI [of _ "accept_task owned_ext ''b'' 0 (spend_tx c) n"])
       (auto simp: accept_task_def intro: rtranclp.rtrancl_into_rtrancl)
qed

lemma owned_store_rows: "map utxo_key (ds_utxo owned_store) = [([1], 0)]" "dom (unspent owned_store) = {([1], 0)}"
  by (auto simp: owned_store_def utxo_key_def unspent_def tbl_lookup_def dom_def split: if_splits)

lemma spend_unknown: "c \<noteq> 1 \<Longrightarrow> query_maybe_transaction owned_ext (hash_new [c]) owned_store = Ok None"
  by (simp add: owned_store_def query_maybe_transaction_def get_def pool_def map_err_sqlx_def empty_store_def)

abbreviation registered :: "u8 \<Rightarrow> string \<Rightarrow> (Hash \<Rightarrow> RequestProcessor option) \<Rightarrow> Hash \<Rightarrow> RequestProcessor option" where
  "registered c rid ch \<equiv> ch(hash_new [c] \<mapsto> spend_processor c rid)"

abbreviation held_by :: "Conflict list \<Rightarrow> UtxoId \<Rightarrow> UTXOContentionPool option" where
  "held_by cs \<equiv> [spent_utxo \<mapsto> \<lparr> up_active_requests = cs \<rparr>]"

text \<open>The first spend alone, until it has waited and not yet settled.\<close>

lemma first_locked:
  assumes "c \<noteq> 1"
  shows "reached (state_of owned_store (registered c ''a'' Map.empty) (held_by [spend_conflict c ''a'']) (\<lambda>_. []))
    (runs c ''a'' (Lock []) []) (\<lambda>b. b = None)"
proof -
  let ?s = "\<lambda>ch. state_of owned_store ch Map.empty (\<lambda>_. [])" and ?q = "\<lambda>b. b = (None :: tx_task option)"
  have 1: "reached (?s Map.empty) (runs c ''a'' Register []) ?q"
    by (rule step_a [OF arrive_a]) (simp_all add: does_receive spendable_owned spend_unknown assms)
  have 2: "reached (?s (registered c ''a'' Map.empty)) (runs c ''a'' Resolve []) ?q"
    by (rule step_a [OF 1]) (simp_all add: does_register)
  have 3: "reached (?s (registered c ''a'' Map.empty)) (runs c ''a'' (Lock [spent_utxo]) []) ?q"
    by (rule step_a [OF 2]) (simp_all add: does_resolve spendable_owned)
  show ?thesis by (rule step_a [OF 3]) (simp_all add: does_lock(1))
qed

lemma first_waited:
  assumes "c \<noteq> 1"
  shows "reached (state_of owned_store (registered c ''a'' Map.empty) (held_by [spend_conflict c ''a'']) (\<lambda>_. []))
    (runs c ''a'' Settle []) (\<lambda>b. b = None)" (is "reached ?s _ ?q")
proof -
  have 1: "reached ?s (runs c ''a'' Revalidate []) ?q"
    by (rule step_a [OF first_locked [OF assms]]) (simp_all add: does_locked)
  have 2: "reached ?s (runs c ''a'' Sign_Pending []) ?q"
    by (rule step_a [OF 1]) (simp_all add: does_revalidate spendable_owned)
  have 3: "reached ?s (runs c ''a'' Gossip_Tx []) ?q" by (rule step_a [OF 2]) (simp_all add: does_pending)
  have 4: "reached ?s (runs c ''a'' Wait []) ?q"
    by (rule step_a [OF 3]) (simp_all add: does_gossip owned_store_sel)
  show ?thesis by (rule step_a [where t = 20, OF 4]) (simp_all add: does_wait)
qed

text \<open>The second spend meanwhile, until it has validated again.\<close>

lemma second_at_lock:
  assumes "reached (state_of owned_store (registered d ''a'' Map.empty) up (\<lambda>_. [])) P (\<lambda>b. b = None)"
    and "c \<noteq> 1" "c \<noteq> d"
  shows "reached (state_of owned_store (registered c ''b'' (registered d ''a'' Map.empty)) up (\<lambda>_. [])) P
    (runs c ''b'' (Lock [spent_utxo]) [])"
proof -
  let ?s = "\<lambda>ch. state_of owned_store ch up (\<lambda>_. [])"
  have r: "hash_new [d] \<noteq> hash_new [c]" using assms(3) by (simp add: hash_new_def bytes_data_def bytes_data_from_def)
  have 1: "reached (?s (registered d ''a'' Map.empty)) P (runs c ''b'' Register [])"
    by (rule step_b [OF arrive_b [OF assms(1)]]) (simp_all add: does_receive spendable_owned spend_unknown assms(2))
  have 2: "reached (?s (registered c ''b'' (registered d ''a'' Map.empty))) P (runs c ''b'' Resolve [])"
    by (rule step_b [OF 1]) (use r in \<open>simp_all add: does_register\<close>)
  show ?thesis by (rule step_b [OF 2]) (simp_all add: does_resolve spendable_owned)
qed

lemma second_revalidated:
  assumes "reached (state_of owned_store (registered d ''a'' Map.empty) (held_by [spend_conflict d ''a'']) (\<lambda>_. [])) P (\<lambda>b. b = None)"
    and "c \<noteq> 1" "c \<noteq> d"
  shows "reached (state_of owned_store (registered c ''b'' (registered d ''a'' Map.empty))
       (held_by [spend_conflict d ''a'', spend_conflict c ''b'']) ((\<lambda>_. [])(''a'' := [spend_conflict c ''b''])))
    P (runs c ''b'' Sign_Pending [spend_conflict d ''a''])" (is "reached ?s _ _")
proof -
  let ?cs = "[spend_conflict d ''a'']"
  have l: "does 0 tk (state_of owned_store ch (held_by ?cs) (\<lambda>_. [])) (spending c ''b'' (Lock []) ?cs)
      (state_of owned_store ch (held_by [spend_conflict d ''a'', spend_conflict c ''b'']) ((\<lambda>_. [])(''a'' := [spend_conflict c ''b''])))"
    if "spending c ''b'' (Lock [spent_utxo]) [] tk" for tk ch
    using does_lock(2) [OF that, of "held_by ?cs" d "''a''" 0 owned_store ch "\<lambda>_. []"] by simp
  have 1: "reached ?s P (runs c ''b'' (Lock []) ?cs)"
    by (rule step_b [where t = 0, OF second_at_lock [OF assms]]) (simp_all add: l)
  have 2: "reached ?s P (runs c ''b'' Revalidate ?cs)"
    by (rule step_b [OF 1]) (simp_all add: does_locked)
  show ?thesis by (rule step_b [OF 2]) (simp_all add: does_revalidate spendable_owned)
qed

text \<open>C4: Two spends of one output can both be committed: from a node that holds a single unspent output,
  two transactions that spend it, arriving one after the other, both reach the point where
  they are answered as accepted, and the outputs of both are unspent in the ledger with the
  full amount each. The second one is validated while the first has passed its wait for
  conflicts and is not yet committed; nothing looks at the output again before the second
  commit, and the notice of the conflict that the second one sends is no longer read.\<close>

theorem double_spend_reachable:
  "\<exists>n tka tkb ra rb. (node_step owned_ext quiet_config)\<^sup>*\<^sup>* (initial_node owned_store) n \<and>
     nd_tasks n ''a'' = Some tka \<and> tk_transaction tka = spend_tx 3 \<and> tk_stage tka = Respond \<and>
     nd_tasks n ''b'' = Some tkb \<and> tk_transaction tkb = spend_tx 2 \<and> tk_stage tkb = Respond \<and>
     dom (unspent owned_store) = {([1], 0)} \<and>
     unspent (rl_ds (ns_relay (nd_state n))) ([3], 0) = Some ra \<and> ur_amount ra = Some 10 \<and>
     unspent (rl_ds (ns_relay (nd_state n))) ([2], 0) = Some rb \<and> ur_amount rb = Some 10"
proof -
  let ?cs = "[spend_conflict 3 ''a'']"
  obtain ch up mail where 0: "reached (state_of owned_store ch up mail) (runs 3 ''a'' Settle []) (runs 2 ''b'' Sign_Pending ?cs)"
    using second_revalidated [OF first_waited, of 3 2] by auto
  have 1: "reached (state_of owned_store ch up mail) (runs 3 ''a'' Sign_Accepted []) (runs 2 ''b'' Sign_Pending ?cs)"
    by (rule step_a [OF 0]) (simp_all add: does_settle)
  have 2: "reached (state_of owned_store ch up mail) (runs 3 ''a'' Commit []) (runs 2 ''b'' Sign_Pending ?cs)"
    by (rule step_a [OF 1]) (simp_all add: does_accept)
  obtain r where r: "ds_utxo owned_store = [r]" "utxo_key r = ([1], 0)"
    using owned_store_rows(1) by (cases "ds_utxo owned_store") auto
  obtain ds where ds: "process_insert_transaction owned_ext 20 (spend_tx 3) owned_store = (Ok (), ds)" "ds_fault ds = None"
    "ds_nodes ds = []" "ds_observation_edge ds = []" "ds_utxo ds = [spend_row 3 20]"
    using commit_spend [of owned_store 3 20] owned_store_sel r spend_row(2) [of 3 20] by (auto simp: unspent_def tbl_lookup_def)
  have 3: "reached (state_of ds ch up mail) (runs 3 ''a'' Respond []) (runs 2 ''b'' Sign_Pending ?cs)"
    by (rule step_a [where t = 20, OF 2]) (simp_all add: does_commit ds(1))
  have 4: "reached (state_of ds ch up mail) (runs 3 ''a'' Respond []) (runs 2 ''b'' Gossip_Tx ?cs)"
    by (rule step_b [OF 3]) (simp_all add: does_pending)
  have 5: "reached (state_of ds ch up mail) (runs 3 ''a'' Respond []) (runs 2 ''b'' Wait ?cs)"
    by (rule step_b [OF 4]) (simp_all add: does_gossip ds)
  have 6: "reached (state_of ds ch up mail) (runs 3 ''a'' Respond []) (runs 2 ''b'' Settle ?cs)"
    by (rule step_b [where t = 20, OF 5]) (simp_all add: does_wait)
  define mail' where "mail' = mail(''a'' := mail ''a'' @ [spend_conflict 2 ''b'' \<lparr> cf_abort := True \<rparr>])"
  have 7: "reached (state_of ds ch up mail') (runs 3 ''a'' Respond []) (runs 2 ''b'' Sign_Accepted ?cs)"
    unfolding mail'_def by (rule step_b [OF 6]) (simp_all add: does_settle_conflict ds)
  have 8: "reached (state_of ds ch up mail') (runs 3 ''a'' Respond []) (runs 2 ''b'' Commit ?cs)"
    by (rule step_b [OF 7]) (simp_all add: does_accept)
  obtain ds' where ds': "process_insert_transaction owned_ext 20 (spend_tx 2) ds = (Ok (), ds')"
    "ds_utxo ds' = [spend_row 3 20, spend_row 2 20]"
    using commit_spend [of ds 2 20] ds spend_row(2) by (auto simp: unspent_def tbl_lookup_def)
  have "reached (state_of ds' ch up mail') (runs 3 ''a'' Respond []) (runs 2 ''b'' Respond ?cs)"
    by (rule step_b [where t = 20, OF 8]) (simp_all add: does_commit ds'(1))
  then obtain n where "(node_step owned_ext quiet_config)\<^sup>*\<^sup>* (initial_node owned_store) n"
    "nd_state n = state_of ds' ch up mail'" "runs 3 ''a'' Respond [] (nd_tasks n ''a'')" "runs 2 ''b'' Respond ?cs (nd_tasks n ''b'')"
    by (auto simp: reached_def)
  then show ?thesis
    using owned_store_rows(2) ds'(2) spend_row
    by (auto simp: runs_def spending_def state_of_def unspent_def tbl_lookup_def intro!: exI [of _ n])
qed

section \<open>Instances\<close>

lemma owned_store_wf: "store_wf owned_store"
  by (simp add: owned_store_def store_wf_def empty_store_def tbl_wf_def)

lemma owned_commit:
  obtains ds where "process_insert_transaction owned_ext 20 (spend_tx 3) owned_store = (Ok (), ds)"
    "query_maybe_transaction owned_ext (hash_new [1]) ds = Ok (Some (owned_tx, None))" "ds_utxo ds = [spend_row 3 20]"
proof -
  obtain r where r: "ds_utxo owned_store = [r]" "utxo_key r = ([1], 0)"
    using owned_store_rows(1) by (cases "ds_utxo owned_store") auto
  have "unspent owned_store ([3], 0) = None" using r by (simp add: unspent_def tbl_lookup_def)
  from commit_spend [OF owned_store_sel(1) this, of 20] obtain ds where ds:
    "process_insert_transaction owned_ext 20 (spend_tx 3) owned_store = (Ok (), ds)" "ds_fault ds = None"
    "ds_utxo ds = [spend_row 3 20]"
    "ds_transactions ds = tbl_replace tr_hash (transaction_row_of owned_ext (spend_tx 3) 20 True None [3]) (ds_transactions owned_store)"
    using r spend_row(2) [of 3 20] by auto
  have "filter (\<lambda>r. tr_hash r = [1]) (ds_transactions ds) = filter (\<lambda>r. tr_hash r = [1]) (ds_transactions owned_store)"
    using ds(4) by (auto simp: tbl_replace_def transaction_row_of_def intro!: filter_cong)
  then have "query_maybe_transaction owned_ext (hash_new [1]) ds = query_maybe_transaction owned_ext (hash_new [1]) owned_store"
    using ds(2) owned_store_sel(1) by (simp add: query_maybe_transaction_def)
  with ds that owned_store_sel(4) show ?thesis by simp
qed

theorem commit_moves_ledger_witness:
  "\<exists>ds'. process_insert_transaction owned_ext 20 (spend_tx 3) owned_store = (Ok (), ds') \<and> store_wf ds' \<and>
     unspent ds' ([1], 0) = None \<and> unspent ds' ([3], 0) \<noteq> None"
proof -
  obtain ds where ds: "process_insert_transaction owned_ext 20 (spend_tx 3) owned_store = (Ok (), ds)" "ds_utxo ds = [spend_row 3 20]"
    by (rule owned_commit)
  have "unspent ds ([1], 0) = None \<and> unspent ds ([3], 0) \<noteq> None"
    using ds(2) spend_row(2) [of 3 20] by (simp add: unspent_def tbl_lookup_def)
  with commit_moves_ledger [OF ds(1) owned_store_wf] ds(1) show ?thesis by auto
qed

theorem spent_output_refused_witness:
  "\<exists>ds'. process_insert_transaction owned_ext 20 (spend_tx 3) owned_store = (Ok (), ds') \<and>
     (\<forall>r. resolve_and_validate owned_ext (env_at 20) (spend_tx 2) ds' \<noteq> Ok r)"
proof -
  obtain ds where ds: "process_insert_transaction owned_ext 20 (spend_tx 3) owned_store = (Ok (), ds)"
    "query_maybe_transaction owned_ext (hash_new [1]) ds = Ok (Some (owned_tx, None))"
    by (rule owned_commit)
  have "spent_utxo \<in> set (utxo_ids (spend_tx 3))" by (simp add: utxo_ids_def spend_input_sel List.map_filter_simps)
  moreover have "u_transaction_hash spent_utxo = Some (hash_new [1])" by (simp add: utxo_id_new_def)
  moreover have "spend_input \<in> set (t_inputs (spend_tx 2))" by simp
  ultimately have "resolve_and_validate owned_ext (env_at 20) (spend_tx 2) ds \<noteq> Ok r" for r
    using spent_output_refused [OF ds(1), of spent_utxo "hash_new [1]" owned_tx spend_input "spend_tx 2" "env_at 20" r]
      ds(2) spend_input_sel by simp
  with ds(1) show ?thesis by blast
qed

theorem conflict_winners_agree_witness:
  "\<exists>w w'. resolve_conflict owned_ext quiet_config 0 [spend_conflict 3 ''a'', spend_conflict 2 ''b'' \<lparr> cf_abort := True \<rparr>] owned_store
      = (Ok w, owned_store) \<and>
    resolve_conflict owned_ext quiet_config 7 [spend_conflict 3 ''c'', spend_conflict 2 ''d'' \<lparr> cf_abort := True \<rparr>] owned_store
      = (Ok w', owned_store) \<and> vb w = vb w'"
proof -
  let ?c = "\<lambda>a b. [spend_conflict 3 a, spend_conflict 2 b \<lparr> cf_abort := True \<rparr>]"
  have r: "resolve_conflict owned_ext quiet_config t (?c a b) owned_store = (Ok (hash_new [2]), owned_store)" for t a b
    by (rule spends_resolve) (simp_all add: owned_store_sel)
  have "cf_transaction_hash ` set (?c ''a'' ''b'') = cf_transaction_hash ` set (?c ''c'' ''d'')" by (simp add: spend_conflict_def)
  from conflict_winners_agree [OF r r this] r show ?thesis by simp
qed

text \<open>A transaction with one output of amount zero whose input names the owner's output and is also marked floating, with
  the proofs \<open>ps\<close>: the owner's, or those of a stranger to the output.\<close>

definition stranger_proof :: Proof where
  "stranger_proof = \<lparr> pr_signature = signature_data [1], pr_public_key = Some (public_key_from_bytes [8]) \<rparr>"

definition floating_input :: "Proof list \<Rightarrow> Input" where
  "floating_input ps = spend_input \<lparr> i_proof := ps, i_floating_utxo_id := Some \<lparr> fu_address_selector = None \<rparr> \<rparr>"

definition floating_tx :: "Proof list \<Rightarrow> Transaction" where
  "floating_tx ps = (spend_tx 3) \<lparr> t_inputs := [floating_input ps], t_outputs := [output_new owner 0] \<rparr>"

lemma floating_tx_sel:
  "t_inputs (floating_tx ps) = [floating_input ps]" "t_outputs (floating_tx ps) = [output_new owner 0]"
  "hash_or owned_ext (floating_tx ps) = hash_new [3]" "Option.bind (t_struct_metadata (floating_tx ps)) sm_time = Some 5"
  "i_utxo_id (floating_input ps) = Some spent_utxo" "i_proof (floating_input ps) = ps" "i_floating_utxo_id (floating_input ps) \<noteq> None"
  "t_options (floating_tx ps) = Some (tx_options_default \<lparr> to_network_type := Some (network_i32 Test) \<rparr>)"
  by (simp_all add: floating_tx_def floating_input_def spend_tx_def hash_or_def struct_metadata_def spend_input_sel)

lemma stranger_proof_verifies:
  "proof_verify owned_ext (digest owned_ext s) stranger_proof = Ok ()" "proof_public_key_bytes owned_ext stranger_proof = Ok [8]"
proof -
  show k: "proof_public_key_bytes owned_ext stranger_proof = Ok [8]"
    by (simp add: proof_public_key_bytes_def stranger_proof_def public_key_from_bytes_def bytes_data_def bytes_data_from_def)
  have "signature_bytes owned_ext stranger_proof = Ok [1]" "hash_safe_bytes owned_ext (digest owned_ext s) = Ok (vb (digest owned_ext s))"
    "\<exists>g. pr_signature stranger_proof = Some g \<and> sig_signature_type g = signature_type_ecdsa"
    by (simp_all add: stranger_proof_def signature_data_def signature_bytes_def bytes_data_def bytes_data_from_def
        hash_safe_bytes_vb)
  moreover have "util_verify owned_ext (vb (digest owned_ext s)) [1] [8] = Ok ()"
    by (simp add: util_verify_def slice_def result_error_msg_def echo_ext_def sample_ext_def)
  ultimately show "proof_verify owned_ext (digest owned_ext s) stranger_proof = Ok ()" using k by (auto simp: proof_verify_def)
qed

lemma floating_prevalidates: "prevalidate owned_ext (floating_tx [stranger_proof]) = Ok ()"
proof -
  let ?t = "floating_tx [stranger_proof]"
  obtain b where "signable_hash owned_ext ?t = digest owned_ext b" by (simp add: signable_hash_content)
  then have "check_input owned_ext ?t (floating_input [stranger_proof]) = Ok ()"
    using stranger_proof_verifies(1) by (simp add: check_input_Ok floating_tx_sel utxo_id_new_def MAX_INPUTS_OUTPUTS_def)
  moreover have "length (enc_transaction owned_ext ?t) = 2" by (simp add: echo_ext_def sample_ext_def)
  moreover have "network_from_i32 (network_i32 Test) = Some Test" by (simp add: network_from_i32_eq)
  moreover have "check_message owned_ext ?t = Ok ()" "to_contract tx_options_default = None"
    by (simp_all add: check_message_Ok floating_tx_sel tx_options_default_def)
  moreover have "\<exists>hs. check_input_ids owned_ext {} (floating_input [stranger_proof]) = Ok hs"
    by (simp add: check_input_ids_def floating_tx_sel)
  ultimately show ?thesis by (auto simp: prevalidate_def Let_def ok_msg_def floating_tx_sel)
qed

lemma commit_floating:
  "\<exists>ds'. process_insert_transaction owned_ext 20 (floating_tx [stranger_proof]) owned_store = (Ok (), ds')"
proof -
  let ?t = "floating_tx [stranger_proof]" and ?o = "from_output_new (output_new owner 0) (hash_new [3]) 0 20"
  obtain bs where o: "safe_bytes owned_ext (a_address owner) = Ok bs" by (auto simp: owner_def new_raw_def)
  obtain bv where "input_address owned_ext (floating_input [stranger_proof]) = Ok (new_raw bv)"
    using stranger_proof_verifies(2) by (simp add: input_address_def floating_tx_sel proofs_to_address_single address_of_hash)
  then obtain a as where a: "input_address owned_ext (floating_input [stranger_proof]) = Ok a" "safe_bytes owned_ext (a_address a) = Ok as"
    by (auto simp: new_raw_def)
  obtain d1 where d1: "insert_transaction_raw owned_ext ?t 20 True None owned_store = (Ok (), d1)" "ds_fault d1 = None"
    "ds_utxo d1 = ds_utxo owned_store"
    using owned_store_sel(1) by (simp add: insert_transaction_raw_eq_Ok tx_hash_bytes_def floating_tx_sel) (simp add: hash_new_def)
  obtain r where r: "utxo_row_of owned_ext ?o = Ok r" "utxo_key r = ([3], 0)"
    by (simp add: utxo_row_of_def from_output_new_def utxo_id_new_def opt_hash_safe_bytes_def
      utxo_entry_address_def has_deploy_code_def validate_deploy_code_def is_deploy_def
      output_new_sel utxo_key_def Let_def owner_def new_raw_def)
  have d2: "for_each_do (insert_utxo owned_ext) (from_transaction owned_ext ?t 20) d1 = (Ok (), d1 \<lparr> ds_utxo := ds_utxo d1 @ [r] \<rparr>)"
    using d1 r owned_store_rows(1)
    by (simp only: insert_utxos_eq_Ok) (auto simp: from_transaction_def floating_tx_sel unspent_def tbl_lookup_def)
  let ?d2 = "d1 \<lparr> ds_utxo := ds_utxo d1 @ [r] \<rparr>"
  have "\<exists>d3. insert_transaction_indexes owned_ext ?t 20 ?d2 = (Ok (), d3) \<and> ds_fault d3 = None"
    using d1(2) o a by (simp add: insert_transaction_indexes_def insert_input_edge_def floating_tx_sel
        insert_transaction_edge_def exec_def utxo_id_new_def insert_address_transaction_def output_new_sel
        insert_address_transaction_single_def seq_do_def pure_def)
  then obtain d3 where d3: "insert_transaction_indexes owned_ext ?t 20 ?d2 = (Ok (), d3)" "ds_fault d3 = None" by blast
  have "insert_transaction owned_ext ?t 20 True None True owned_store = (Ok (), d3)"
    using d1(1) d2 d3(1) by (simp add: insert_transaction_def)
  moreover have "fixed_utxo_ids_of_inputs ?t = Ok [spent_utxo]"
    by (simp add: fixed_utxo_ids_eq utxo_ids_def floating_tx_sel List.map_filter_simps)
  ultimately show ?thesis using d3(2) by (simp add: process_insert_transaction_def pure_def delete_spent_utxo)
qed

theorem floating_inputs_unchecked_witness:
  "\<exists>ds'. prevalidate owned_ext (floating_tx [stranger_proof]) = Ok () \<and>
     is_ok (resolve_and_validate owned_ext (env_at 20) (floating_tx [stranger_proof]) owned_store) \<and>
     process_insert_transaction owned_ext 20 (floating_tx [stranger_proof]) owned_store = (Ok (), ds') \<and>
     unspent owned_store ([1], 0) \<noteq> None \<and> unspent ds' ([1], 0) = None"
proof -
  let ?t = "floating_tx [owner_proof]" and ?i = "floating_input [stranger_proof]"
  have t: "?t \<lparr> t_inputs := [?i] \<rparr> = floating_tx [stranger_proof]" by (simp add: floating_tx_def)
  obtain ds where ds: "process_insert_transaction owned_ext 20 (?t \<lparr> t_inputs := [?i] \<rparr>) owned_store = (Ok (), ds)"
    using commit_floating unfolding t by blast
  have "list_all2 (\<lambda>i j. signed_input j = signed_input i \<and> (i_floating_utxo_id i = None \<longrightarrow> j = i)) (t_inputs ?t) [?i]"
    using floating_tx_sel(7) by (simp add: floating_tx_sel) (simp add: floating_input_def signed_input_def)
  note spent = floating_inputs_unchecked [OF this ds, of ?i spent_utxo "hash_new [1]" "[1]" "env_at 20"]
  have "active_nodes owned_ext (pe_now (env_at 20)) None owned_store = Ok []"
    using owned_store_sel by (simp add: active_nodes_def active_rows_def)
  then have "is_ok (resolve_and_validate owned_ext (env_at 20) ?t owned_store)"
    by (rule floating_only_resolves [rotated 2]) (simp_all add: floating_tx_sel total_output_amount_def opt_amount_def output_new_def amount_data_def
      standard_data_default_def currency_amount_from_def)
  with spent ds show ?thesis
    using owned_store_rows(2) floating_prevalidates by (auto simp: utxo_id_new_def dom_def t floating_tx_sel)
qed

theorem duplicate_removes_registration_witness:
  "\<exists>tk s tk' s' tk2 tk2' s2. rl_transaction_channels (ns_relay s) (hash_new [3]) = Some (spend_processor 3 ''a'') \<and>
     task_step owned_ext quiet_config (env_at 0) tk s = (tk', s') \<and> rl_transaction_channels (ns_relay s') (hash_new [3]) = None \<and>
     task_step owned_ext quiet_config (env_at 0) tk2 s' = (tk2', s2) \<and>
     rl_transaction_channels (ns_relay s2) (hash_new [3]) = Some (task_processor tk2)"
proof -
  let ?tk = "\<lambda>r. (new_task owned_ext r 0 (spend_tx 3)) \<lparr> tk_stage := Register \<rparr>"
  let ?s = "state_of owned_store (registered 3 ''a'' Map.empty) Map.empty (\<lambda>_. [])"
  have t: "tk_hash (?tk r) = hash_new [3]" "tk_context (?tk r) = \<lparr> tpc_request_processor = None,
      tpc_transaction_hash = Some (hash_new [3]), tpc_utxo_ids = None \<rparr>" for r
    by (simp_all add: new_task_def Let_def)
  have "rl_transaction_channels (ns_relay ?s) (hash_new [3]) = Some (spend_processor 3 ''a'')" by (simp add: state_of_def)
  with duplicate_removes_registration [of "?tk ''b''" ?s "spend_processor 3 ''a''" "?tk ''c''" owned_ext quiet_config "env_at 0"]
  show ?thesis unfolding t by (auto simp only: t) (simp; blast)
qed

theorem locks_never_released_witness:
  "\<exists>n. (node_step owned_ext quiet_config)\<^sup>*\<^sup>* (initial_node owned_store) n \<and> nd_tasks n ''b'' \<noteq> None \<and>
     spend_conflict 3 ''a'' \<in> holders spent_utxo (nd_state n)"
proof -
  obtain n where n: "(node_step owned_ext quiet_config)\<^sup>*\<^sup>* (initial_node owned_store) n" "nd_tasks n ''b'' = None"
    "spend_conflict 3 ''a'' \<in> holders spent_utxo (nd_state n)" "nd_running n"
    using first_waited [of 3] by (auto simp: reached_def holders_def state_of_def)
  let ?n = "accept_task owned_ext ''b'' 0 (spend_tx 2) n"
  have "(node_step owned_ext quiet_config)\<^sup>*\<^sup>* n ?n" using node_step.arrive [OF n(4,2)] by blast
  with locks_never_released [OF n(1) this n(3)] n(1) show ?thesis by (intro exI [of _ ?n]) (auto simp: accept_task_def)
qed

theorem held_utxo_blocks_witness:
  "\<exists>n tk. (node_step owned_ext quiet_config)\<^sup>*\<^sup>* (initial_node owned_store) n \<and> nd_tasks n ''b'' = Some tk \<and>
     tk_stage tk = Lock [spent_utxo] \<and> tk_hash tk = hash_new [3] \<and> spend_conflict 2 ''a'' \<in> holders spent_utxo (nd_state n) \<and>
     tk_stage tk \<noteq> Commit"
proof -
  obtain n tk where n: "(node_step owned_ext quiet_config)\<^sup>*\<^sup>* (initial_node owned_store) n" "nd_tasks n ''b'' = Some tk"
    "tk_stage tk = Lock [spent_utxo]" "tk_hash tk = hash_new [3]" "spend_conflict 2 ''a'' \<in> holders spent_utxo (nd_state n)"
    using second_at_lock [OF first_waited, of 2 3] by (auto simp: reached_def holders_def state_of_def runs_def spending_def)
  have "vb (cf_transaction_hash (spend_conflict 2 ''a'')) < vb (tk_hash tk)" using n(4) by (simp add: spend_conflict_def)
  from held_utxo_blocks [OF n(1,2,3) _ n(5) this _ n(2)] n show ?thesis by auto
qed

end
