(* ===== verification/Binary_Heap.thy ===== *)
theory Binary_Heap
  imports Main "HOL-Library.Multiset"
begin

text \<open>
  The binary heap of the standard library that the mempool keeps its entries in, as an array
  with sifting, and the contract of a priority queue that it satisfies.  The element that a
  sift moves is kept in the array, so that moving the hole is an exchange.
\<close>

section \<open>Priority queues\<close>

locale priority_queue =
  fixes le :: "'a \<Rightarrow> 'a \<Rightarrow> bool" and inv :: "'q \<Rightarrow> bool" and items :: "'q \<Rightarrow> 'a multiset"
    and push :: "'a \<Rightarrow> 'q \<Rightarrow> 'q" and pop :: "'q \<Rightarrow> 'a option \<times> 'q"
  assumes push: "inv q \<Longrightarrow> inv (push a q) \<and> items (push a q) = add_mset a (items q)"
    and pop_empty: "inv q \<Longrightarrow> items q = {#} \<Longrightarrow> pop q = (None, q)"
    and pop_greatest: "inv q \<Longrightarrow> items q \<noteq> {#} \<Longrightarrow>
      \<exists>a q'. pop q = (Some a, q') \<and> inv q' \<and> items q = add_mset a (items q') \<and> (\<forall>b \<in># items q. le b a)"
begin

lemma pop_None: "inv q \<Longrightarrow> pop q = (None, q') \<Longrightarrow> q' = q \<and> items q = {#}"
  using pop_empty [of q] pop_greatest [of q] by (cases "items q = {#}") auto

lemma pop_Some:
  assumes "inv q" "pop q = (Some a, q')"
  shows "inv q' \<and> items q = add_mset a (items q') \<and> (\<forall>b \<in># items q. le b a)"
  using assms pop_empty [of q] pop_greatest [of q] by (cases "items q = {#}") auto

lemma pop_push:
  "inv q \<Longrightarrow> pop q = (Some a, q') \<Longrightarrow> inv (push a q') \<and> items (push a q') = items q"
  using pop_Some [of q a q'] push [of q' a] by simp

lemma pop_smaller: "inv q \<Longrightarrow> pop q = (Some a, q') \<Longrightarrow> size (items q) = Suc (size (items q'))"
  using pop_Some [of q a q'] by simp

end

section \<open>The heap in an array\<close>

definition swap :: "nat \<Rightarrow> nat \<Rightarrow> 'a list \<Rightarrow> 'a list" where
  "swap i j xs = xs[i := xs ! j, j := xs ! i]"

definition parent :: "nat \<Rightarrow> nat" where
  "parent i = (i - 1) div 2"

lemma parent_less [simp]: "0 < i \<Longrightarrow> parent i < i"
  by (auto simp: parent_def)

lemma parent_child [simp]: "parent (2 * p + 1) = p" "parent (Suc (2 * p)) = p" "parent (2 * p + 2) = p" "parent (Suc (Suc (2 * p))) = p"
  by (auto simp: parent_def)

lemma parent_eq: "0 < i \<Longrightarrow> parent i = p \<longleftrightarrow> i = 2 * p + 1 \<or> i = 2 * p + 2"
  by (auto simp: parent_def)

function sift_up :: "('a \<Rightarrow> 'a \<Rightarrow> bool) \<Rightarrow> nat \<Rightarrow> 'a list \<Rightarrow> 'a list" where
  "sift_up le pos xs = (if pos = 0 then xs else
     if le (xs ! pos) (xs ! parent pos) then xs else sift_up le (parent pos) (swap pos (parent pos) xs))"
  by auto
termination by (relation "measure (\<lambda>(le, pos, xs). pos)") auto

declare sift_up.simps [simp del]

text \<open>Moving the hole to the bottom: the position it reaches, and the array.\<close>

function sift_down :: "('a \<Rightarrow> 'a \<Rightarrow> bool) \<Rightarrow> nat \<Rightarrow> 'a list \<Rightarrow> nat \<times> 'a list" where
  "sift_down le pos xs =
     (let child = 2 * pos + 1 in
      if child + 1 < length xs then
        (let child = (if le (xs ! child) (xs ! (child + 1)) then child + 1 else child)
         in sift_down le child (swap pos child xs))
      else if child + 1 = length xs then (child, swap pos child xs)
      else (pos, xs))"
  by auto
termination by (relation "measure (\<lambda>(le, pos, xs). length xs - pos)") (auto simp: swap_def)

declare sift_down.simps [simp del]

definition heap_push :: "('a \<Rightarrow> 'a \<Rightarrow> bool) \<Rightarrow> 'a \<Rightarrow> 'a list \<Rightarrow> 'a list" where
  "heap_push le a xs = sift_up le (length xs) (xs @ [a])"

definition heap_pop :: "('a \<Rightarrow> 'a \<Rightarrow> bool) \<Rightarrow> 'a list \<Rightarrow> 'a option \<times> 'a list" where
  "heap_pop le xs = (if xs = [] then (None, xs) else
     let item = last xs; rest = butlast xs in
     if rest = [] then (Some item, rest)
     else (Some (rest ! 0), (case sift_down le 0 (rest[0 := item]) of (pos, ys) \<Rightarrow> sift_up le pos ys)))"

section \<open>Correctness\<close>

lemma length_swap [simp]: "length (swap i j xs) = length xs"
  by (simp add: swap_def)

lemma mset_swap_heap [simp]: "i < length xs \<Longrightarrow> j < length xs \<Longrightarrow> mset (swap i j xs) = mset xs"
  by (simp add: swap_def mset_swap)

lemma nth_swap: "i < length xs \<Longrightarrow> j < length xs \<Longrightarrow>
    swap i j xs ! k = (if k = i then xs ! j else if k = j then xs ! i else xs ! k)"
  by (auto simp: swap_def nth_list_update)

lemma sift_up_mset: "pos < length xs \<Longrightarrow> mset (sift_up le pos xs) = mset xs"
proof (induction le pos xs rule: sift_up.induct)
  case (1 le pos xs)
  have "0 < pos \<Longrightarrow> parent pos < length xs" using 1(2) parent_less [of pos] by linarith
  with 1 show ?case by (auto simp: sift_up.simps [of le pos xs])
qed

lemma sift_down_mset:
  "pos < length xs \<Longrightarrow> mset (snd (sift_down le pos xs)) = mset xs \<and> fst (sift_down le pos xs) < length xs"
proof (induction le pos xs rule: sift_down.induct)
  case (1 le pos xs)
  then show ?case by (auto simp: sift_down.simps [of le pos xs] Let_def)
qed

text \<open>Every element is at most its parent, in the whole array or except around one position.\<close>

definition is_heap :: "('a \<Rightarrow> 'a \<Rightarrow> bool) \<Rightarrow> 'a list \<Rightarrow> bool" where
  "is_heap le xs \<longleftrightarrow> (\<forall>i < length xs. 0 < i \<longrightarrow> le (xs ! i) (xs ! parent i))"

definition heap_around :: "('a \<Rightarrow> 'a \<Rightarrow> bool) \<Rightarrow> nat \<Rightarrow> 'a list \<Rightarrow> bool" where
  "heap_around le p xs \<longleftrightarrow> (\<forall>i < length xs. 0 < i \<longrightarrow> i \<noteq> p \<longrightarrow> parent i \<noteq> p \<longrightarrow> le (xs ! i) (xs ! parent i)) \<and>
     (\<forall>i < length xs. 0 < i \<longrightarrow> 0 < p \<longrightarrow> parent i = p \<longrightarrow> le (xs ! i) (xs ! parent p))"

lemma heap_aroundD:
  assumes "heap_around le p xs" "i < length xs" "0 < i"
  shows "i \<noteq> p \<Longrightarrow> parent i \<noteq> p \<Longrightarrow> le (xs ! i) (xs ! parent i)" "0 < p \<Longrightarrow> parent i = p \<Longrightarrow> le (xs ! i) (xs ! parent p)"
  using assms unfolding heap_around_def by blast+

definition total_preorder :: "('a \<Rightarrow> 'a \<Rightarrow> bool) \<Rightarrow> bool" where
  "total_preorder le \<longleftrightarrow> (\<forall>a b. le a b \<or> le b a) \<and> (\<forall>a b c. le a b \<longrightarrow> le b c \<longrightarrow> le a c)"

lemma preorder_trans: "total_preorder le \<Longrightarrow> le a b \<Longrightarrow> le b c \<Longrightarrow> le a c"
  unfolding total_preorder_def by blast

lemma preorder_total: "total_preorder le \<Longrightarrow> le a b \<or> le b a"
  unfolding total_preorder_def by blast

lemma preorder_refl: "total_preorder le \<Longrightarrow> le a a"
  unfolding total_preorder_def by blast

text \<open>Exchanging a position with its parent, for an element greater than its parent.\<close>

lemma heap_around_up:
  assumes "total_preorder le" "heap_around le p xs" "0 < p" "p < length xs" "le (xs ! parent p) (xs ! p)"
  shows "heap_around le (parent p) (swap p (parent p) xs) \<and>
    (\<forall>i < length xs. 0 < i \<longrightarrow> parent i = parent p \<longrightarrow> le (swap p (parent p) xs ! i) (swap p (parent p) xs ! parent p))"
proof -
  let ?q = "parent p" and ?ys = "swap p (parent p) xs"
  have q: "?q < p" "?q < length xs" using assms(3,4) parent_less [of p] by linarith+
  have n: "?ys ! p = xs ! ?q" "?ys ! ?q = xs ! p" "\<And>k. k \<noteq> p \<Longrightarrow> k \<noteq> ?q \<Longrightarrow> ?ys ! k = xs ! k"
    using assms(4) q by (auto simp: nth_swap)
  have "le (?ys ! i) (?ys ! parent i)" if i: "i < length xs" "0 < i" "i \<noteq> ?q" "parent i \<noteq> ?q" for i
  proof -
    have "i \<noteq> p" using i(4) by blast
    with i n heap_aroundD [OF assms(2) i(1,2)] assms(3) show ?thesis by (cases "parent i = p") simp_all
  qed
  moreover have le_q: "le (?ys ! i) (xs ! ?q)" if i: "i < length xs" "0 < i" "parent i = ?q" for i
  proof (cases "i = p")
    case False
    have "i \<noteq> ?q" "parent i \<noteq> p" using i q(1) parent_less [of i] by auto
    with False i n heap_aroundD(1) [OF assms(2) i(1,2)] show ?thesis by simp
  qed (use n preorder_refl [OF assms(1)] in simp)
  moreover have "le (?ys ! i) (?ys ! parent ?q)" if i: "i < length xs" "0 < i" "0 < ?q" "parent i = ?q" for i
  proof -
    have "parent ?q \<noteq> p" "parent ?q \<noteq> ?q" "?q \<noteq> p" using q(1) parent_less [OF i(3)] by auto
    with heap_aroundD(1) [OF assms(2) q(2) i(3)] n(3) have "le (xs ! ?q) (?ys ! parent ?q)" by simp
    with le_q [OF i(1,2,4)] preorder_trans [OF assms(1)] show ?thesis by blast
  qed
  moreover have "le (?ys ! i) (?ys ! ?q)" if i: "i < length xs" "0 < i" "parent i = ?q" for i
    using preorder_trans [OF assms(1) le_q [OF i] assms(5)] n(2) by simp
  ultimately show ?thesis by (simp add: heap_around_def)
qed

lemma sift_up_heap:
  assumes "total_preorder le" "heap_around le p xs" "p < length xs"
    and "\<forall>i < length xs. 0 < i \<longrightarrow> parent i = p \<longrightarrow> le (xs ! i) (xs ! p)"
  shows "is_heap le (sift_up le p xs)"
  using assms
proof (induction le p xs rule: sift_up.induct)
  case (1 le p xs)
  show ?case
  proof (cases "p = 0 \<or> le (xs ! p) (xs ! parent p)")
    case True
    have "le (xs ! i) (xs ! parent i)" if "i < length xs" "0 < i" for i
      using True heap_aroundD(1) [OF 1(3) that] 1(5) that by (cases "i = p"; cases "parent i = p") auto
    then have "is_heap le xs" by (simp add: is_heap_def)
    with True show ?thesis by (auto simp: sift_up.simps [of le p xs])
  next
    case False
    then have p: "0 < p" "\<not> le (xs ! p) (xs ! parent p)" by auto
    then have "le (xs ! parent p) (xs ! p)" using preorder_total [OF 1(2)] by blast
    note up = heap_around_up [OF 1(2,3) p(1) 1(4) this]
    have "parent p < length (swap p (parent p) xs)" using less_trans [OF parent_less [OF p(1)] 1(4)] by simp
    with up p 1(1,2) show ?thesis by (simp add: sift_up.simps [of le p xs])
  qed
qed

text \<open>Exchanging a position with the greatest of its children.\<close>

lemma heap_around_down:
  assumes "heap_around le p xs" "c < length xs" "0 < c" "parent c = p"
    and "\<And>i. i < length xs \<Longrightarrow> 0 < i \<Longrightarrow> parent i = p \<Longrightarrow> le (xs ! i) (xs ! c)"
  shows "heap_around le c (swap p c xs)"
proof -
  let ?ys = "swap p c xs"
  have p: "p < c" "p < length xs" using assms(2-4) parent_less [of c] by auto
  have n: "?ys ! p = xs ! c" "?ys ! c = xs ! p" "\<And>k. k \<noteq> p \<Longrightarrow> k \<noteq> c \<Longrightarrow> ?ys ! k = xs ! k"
    using assms(2) p by (auto simp: nth_swap)
  have "le (?ys ! i) (?ys ! parent i)" if i: "i < length xs" "0 < i" "i \<noteq> c" "parent i \<noteq> c" for i
  proof (cases "i = p")
    case True
    then have "parent i \<noteq> p" using parent_less [OF i(2)] by simp
    with True i n heap_aroundD(2) [OF assms(1-3)] assms(4) show ?thesis by simp
  next
    case False
    with i n assms(5) [OF i(1,2)] heap_aroundD(1) [OF assms(1) i(1,2)] show ?thesis by (cases "parent i = p") simp_all
  qed
  moreover have "le (?ys ! i) (?ys ! parent c)" if i: "i < length xs" "0 < i" "parent i = c" for i
  proof -
    have "i \<noteq> c" "i \<noteq> p" using parent_less [OF i(2)] i(3) p(1) by auto
    with i n heap_aroundD(1) [OF assms(1) i(1,2)] assms(4) p(1) show ?thesis by simp
  qed
  ultimately show ?thesis by (simp add: heap_around_def)
qed

lemma sift_down_around:
  assumes "total_preorder le" "heap_around le p xs" "p < length xs"
  shows "heap_around le (fst (sift_down le p xs)) (snd (sift_down le p xs)) \<and>
     length xs \<le> 2 * fst (sift_down le p xs) + 1"
  using assms
proof (induction le p xs rule: sift_down.induct)
  case (1 le p xs)
  let ?c = "2 * p + 1"
  consider (two) "?c + 1 < length xs" | (one) "?c + 1 = length xs" | (none) "length xs \<le> ?c" by linarith
  then show ?case
  proof cases
    case two
    define d where "d = (if le (xs ! ?c) (xs ! (?c + 1)) then ?c + 1 else ?c)"
    have d: "d < length xs" "0 < d" "parent d = p" using two by (auto simp: d_def)
    have "le (xs ! i) (xs ! d)" if "i < length xs" "0 < i" "parent i = p" for i
      using that(3) preorder_refl [OF 1(2)] preorder_total [OF 1(2), of "xs ! ?c" "xs ! (?c + 1)"]
      by (auto simp: parent_eq [OF that(2)] d_def)
    from heap_around_down [OF 1(3) d this] 1(1) [OF refl two d_def 1(2)] d(1)
    have "heap_around le (fst (sift_down le d (swap p d xs))) (snd (sift_down le d (swap p d xs))) \<and>
        length xs \<le> 2 * fst (sift_down le d (swap p d xs)) + 1"
      by (simp only: length_swap)
    moreover have "sift_down le p xs = sift_down le d (swap p d xs)"
      using two unfolding sift_down.simps [of le p xs] Let_def d_def by (simp only: if_True)
    ultimately show ?thesis by (simp only:)
  next
    case one
    have k: "le (xs ! i) (xs ! ?c)" if "i < length xs" "0 < i" "parent i = p" for i
    proof -
      have "i = ?c" using that one by (auto simp: parent_eq)
      then show ?thesis using preorder_refl [OF 1(2)] by simp
    qed
    have c: "?c < length xs" "0 < ?c" "parent ?c = p" using one by auto
    have "\<not> ?c + 1 < length xs" using one by linarith
    then have "sift_down le p xs = (?c, swap p ?c xs)"
      unfolding sift_down.simps [of le p xs] Let_def by (simp only: if_False if_P [OF one])
    moreover have "length xs \<le> 2 * ?c + 1" by (simp flip: one)
    ultimately show ?thesis using heap_around_down [OF 1(3) c k] by (simp only: fst_conv snd_conv)
  next
    case none
    with 1(3) show ?thesis by (simp add: sift_down.simps [of le p xs] Let_def)
  qed
qed

lemma heap_top:
  assumes "total_preorder le" "is_heap le xs" "i < length xs"
  shows "le (xs ! i) (xs ! 0)"
  using assms(3)
proof (induction i rule: less_induct)
  case (less i)
  show ?case
  proof (cases "i = 0")
    case False
    then have i: "parent i < i" by simp
    with less have "le (xs ! parent i) (xs ! 0)" by simp
    moreover have "le (xs ! i) (xs ! parent i)" using False less(2) assms(2) by (simp add: is_heap_def)
    ultimately show ?thesis using preorder_trans [OF assms(1)] by blast
  qed (use preorder_refl [OF assms(1)] in simp)
qed

lemma heap_push_correct:
  assumes "total_preorder le" "is_heap le xs"
  shows "is_heap le (heap_push le a xs) \<and> mset (heap_push le a xs) = add_mset a (mset xs)"
proof -
  have "heap_around le (length xs) (xs @ [a])"
    unfolding heap_around_def
  proof (intro conjI allI impI)
    fix i assume i: "i < length (xs @ [a])" "0 < i" "i \<noteq> length xs" "parent i \<noteq> length xs"
    then have l: "i < length xs" by simp
    have "parent i < length xs" using less_trans [OF parent_less [OF i(2)] l] .
    with l i assms(2) show "le ((xs @ [a]) ! i) ((xs @ [a]) ! parent i)" by (simp add: is_heap_def nth_append)
  next
    fix i assume i: "i < length (xs @ [a])" "0 < i" "parent i = length xs"
    show "le ((xs @ [a]) ! i) ((xs @ [a]) ! parent (length xs))" using less_trans [OF parent_less [OF i(2)] i(1)] i(1,3) parent_less [OF i(2)] by simp
  qed
  moreover have "\<forall>i < length (xs @ [a]). 0 < i \<longrightarrow> parent i \<noteq> length xs"
    using parent_less by (metis length_append_singleton less_SucE order.strict_trans less_not_refl)
  ultimately have "is_heap le (heap_push le a xs)" using assms(1) by (auto simp: heap_push_def intro!: sift_up_heap)
  moreover have "mset (heap_push le a xs) = add_mset a (mset xs)" by (simp add: heap_push_def sift_up_mset)
  ultimately show ?thesis ..
qed

lemma heap_pop_correct:
  assumes "total_preorder le" "is_heap le xs" "xs \<noteq> []"
  shows "\<exists>a ys. heap_pop le xs = (Some a, ys) \<and> is_heap le ys \<and> mset xs = add_mset a (mset ys) \<and> (\<forall>b \<in># mset xs. le b a)"
proof (cases "butlast xs")
  case Nil
  then obtain a where "xs = [a]" using assms(3) by (metis append_Nil append_butlast_last_id)
  then show ?thesis using preorder_refl [OF assms(1)] by (simp add: heap_pop_def is_heap_def)
next
  case (Cons a rest)
  let ?zs = "last xs # rest"
  have xs: "xs = a # rest @ [last xs]" using Cons assms(3) by (metis append_Cons append_butlast_last_id)
  have hp: "le (xs ! i) (xs ! parent i)" if "i < length xs" "0 < i" for i using assms(2) that by (simp add: is_heap_def)
  have nth: "?zs ! i = xs ! i" if "0 < i" "i < length ?zs" for i
    using that by (subst xs) (cases i, auto simp: nth_append)
  have "heap_around le 0 ?zs"
    unfolding heap_around_def
  proof (intro conjI allI impI)
    fix i assume i: "i < length ?zs" "0 < i" "i \<noteq> 0" "parent i \<noteq> 0"
    have "length xs = length ?zs + 1" by (subst xs) simp
    moreover have "parent i < length ?zs" using parent_less [OF i(2)] i(1) by linarith
    ultimately show "le (?zs ! i) (?zs ! parent i)" using hp [of i] nth [of i] nth [of "parent i"] i by simp
  qed simp_all
  note around = sift_down_around [OF assms(1) this]
  define p ys where "p = fst (sift_down le 0 ?zs)" and "ys = snd (sift_down le 0 ?zs)"
  have m: "mset ys = mset ?zs" "p < length ?zs" using sift_down_mset [of 0 ?zs le] by (auto simp: p_def ys_def)
  have len: "length ys = length ?zs" using m(1) by (rule mset_eq_length)
  with m have ys: "mset ys = mset ?zs" "p < length ys" by simp_all
  have "\<forall>i < length ys. 0 < i \<longrightarrow> parent i = p \<longrightarrow> le (ys ! i) (ys ! p)"
    using around len by (auto simp: parent_eq p_def [symmetric])
  then have "is_heap le (sift_up le p ys)" using sift_up_heap [OF assms(1) _ ys(2)] around by (simp add: p_def ys_def)
  moreover have "heap_pop le xs = (Some a, sift_up le p ys)"
    using Cons assms(3) by (simp add: heap_pop_def p_def ys_def split: prod.split)
  moreover have "mset (sift_up le p ys) = mset ?zs" using sift_up_mset [OF ys(2)] ys(1) by simp
  moreover have "mset xs = add_mset a (mset ?zs)" by (subst xs) simp
  moreover have "\<forall>b \<in># mset xs. le b a"
    using heap_top [OF assms(1,2)] xs by (metis in_multiset_in_set in_set_conv_nth nth_Cons_0)
  ultimately show ?thesis by auto
qed

end
