(* ===== verification/Mempool.thy ===== *)
theory Mempool
  imports Relay Binary_Heap "HOL-Library.Sublist"
begin

text \<open>
  The mempool, \<open>src/core/mempool.rs\<close>: transactions wait in a heap ordered by their total
  output amount and are handed to transaction processing as far as its channel has room.
  \<open>recv_while\<close> is of \<open>src/core/internal_message.rs\<close>, the interval runner of
  \<open>src/core/stream_handlers.rs\<close>.  Response channels are numbers, \<open>deliver\<close> says what sending on
  them gives, \<open>try_send\<close> what the processing channel answers to each attempt.
\<close>

section \<open>Channels and intervals\<close>

text \<open>Receiving while a channel has messages: its queue, and whether all senders are gone.\<close>

fun recv_while_from :: "externals \<Rightarrow> bool \<Rightarrow> 'a list \<Rightarrow> 'a list \<Rightarrow> 'a list rg_result" where
  "recv_while_from x disconnected results [] =
     (if disconnected then Err (error_info x ''request processor channel closed unexpectedly'') else Ok results)"
| "recv_while_from x disconnected results (o1 # os) = recv_while_from x disconnected (results @ [o1]) os"

definition recv_while :: "externals \<Rightarrow> bool \<Rightarrow> 'a list \<Rightarrow> 'a list rg_result" where
  "recv_while x disconnected queue = recv_while_from x disconnected [] queue"

lemma recv_while_eq_Ok: "recv_while x d q = Ok ms \<longleftrightarrow> \<not> d \<and> ms = q"
proof -
  have "recv_while_from x d acc q = (if d then Err (error_info x ''request processor channel closed unexpectedly'') else Ok (acc @ q))" for acc
    by (induction q arbitrary: acc) simp_all
  then show ?thesis by (auto simp: recv_while_def)
qed

text \<open>A fold at every tick of an interval, until it fails.\<close>

fun fold_ticks :: "(nat \<Rightarrow> ('s, unit) action) \<Rightarrow> nat \<Rightarrow> nat \<Rightarrow> ('s, unit) action" where
  "fold_ticks f k 0 = pure (Ok ())"
| "fold_ticks f k (Suc n) = seq_do (f k) (\<lambda>_. fold_ticks f (Suc k) n)"

definition run_interval_inner :: "(nat \<Rightarrow> ('s, unit) action) \<Rightarrow> bool \<Rightarrow> nat \<Rightarrow> ('s, unit) action" where
  "run_interval_inner interval_f run_at_start ticks =
     seq_do (if run_at_start then interval_f 0 else pure (Ok ())) (\<lambda>_. fold_ticks interval_f 1 ticks)"

section \<open>Entries\<close>

record TransactionMessage =
  tm_transaction :: Transaction
  tm_response_channel :: "nat option"

record MempoolEntry =
  me_transaction :: TransactionMessage
  me_fee_acceptable_address :: "Address list"

definition entry_tx :: "MempoolEntry \<Rightarrow> Transaction" where
  "entry_tx e = tm_transaction (me_transaction e)"

definition entry_eq :: "externals \<Rightarrow> MempoolEntry \<Rightarrow> MempoolEntry \<Rightarrow> bool" where
  "entry_eq x e other \<longleftrightarrow> hash_or x (entry_tx other) = hash_or x (entry_tx e)"

text \<open>The comparison that the heap uses: not greater, by the reversed order of the amounts.\<close>

definition entry_le :: "MempoolEntry \<Rightarrow> MempoolEntry \<Rightarrow> bool" where
  "entry_le e other \<longleftrightarrow> sint (total_output_amount (entry_tx other)) \<le> sint (total_output_amount (entry_tx e))"

section \<open>The mempool\<close>

record mempool =
  mem_relay :: relay
  mem_heap :: "MempoolEntry list"
  mem_answers :: "(nat \<times> Response) list"
  mem_sent :: "TransactionMessage list"

definition mempool_new :: "relay \<Rightarrow> mempool" where
  "mempool_new rl = \<lparr> mem_relay = rl, mem_heap = [], mem_answers = [], mem_sent = [] \<rparr>"

definition mempool_push :: "externals \<Rightarrow> MempoolEntry \<Rightarrow> mempool \<Rightarrow> mempool" where
  "mempool_push x e m = (let transaction = entry_tx e in
     m \<lparr> mem_heap := heap_push entry_le e (mem_heap m),
         mem_relay := mem_relay m \<lparr> rl_mempool_entries :=
           (rl_mempool_entries (mem_relay m))(hash_or x transaction \<mapsto> transaction) \<rparr> \<rparr>)"

definition mempool_pop :: "externals \<Rightarrow> mempool \<Rightarrow> MempoolEntry option \<times> mempool" where
  "mempool_pop x m = (case heap_pop entry_le (mem_heap m) of
     (None, h) \<Rightarrow> (None, m \<lparr> mem_heap := h \<rparr>)
   | (Some e, h) \<Rightarrow> (Some e, m \<lparr> mem_heap := h, mem_relay := mem_relay m \<lparr> rl_mempool_entries :=
       (rl_mempool_entries (mem_relay m))(hash_or x (entry_tx e) := None) \<rparr> \<rparr>))"

definition answer_known :: "externals \<Rightarrow> (nat \<Rightarrow> string + unit) \<Rightarrow> nat \<Rightarrow> (mempool, unit) action" where
  "answer_known x deliver r =
     seq_do (pure (from_error_info (error_info x ''Transaction already in process or known''))) (\<lambda>response.
     seq_do (pure (channel_send x (deliver r))) (\<lambda>_ m. (Ok (), m \<lparr> mem_answers := mem_answers m @ [(r, response)] \<rparr>)))"

definition receive_message ::
    "externals \<Rightarrow> (nat \<Rightarrow> string + unit) \<Rightarrow> Address list \<Rightarrow> TransactionMessage \<Rightarrow> (mempool, unit) action" where
  "receive_message x deliver addrs message =
     seq_do (query (\<lambda>m. relay_transaction_known x (hash_or x (tm_transaction message)) (mem_relay m))) (\<lambda>is_known.
     if is_known then (case tm_response_channel message of Some r \<Rightarrow> answer_known x deliver r | None \<Rightarrow> pure (Ok ()))
     else (\<lambda>m. (Ok (), mempool_push x \<lparr> me_transaction = message, me_fee_acceptable_address = addrs \<rparr> m)))"

datatype send_outcome = Sent | Full | Disconnected

lemma heap_pop_length: "heap_pop le xs = (Some a, ys) \<Longrightarrow> length ys < length xs"
proof -
  assume p: "heap_pop le xs = (Some a, ys)"
  have "length (sift_up le (fst (sift_down le 0 zs)) (snd (sift_down le 0 zs))) = length zs" if "zs \<noteq> []" for zs :: "'a list"
    using sift_down_mset [of 0 zs le] that sift_up_mset [of "fst (sift_down le 0 zs)" "snd (sift_down le 0 zs)" le]
    by (metis length_greater_0_conv mset_eq_length)
  from this [of "(butlast xs)[0 := last xs]"] p show ?thesis
    by (auto simp: heap_pop_def Let_def split: if_splits prod.splits)
qed

lemma mempool_pop_length: "mempool_pop x m = (Some e, m') \<Longrightarrow> length (mem_heap m') < length (mem_heap m)"
  by (auto simp: mempool_pop_def dest: heap_pop_length split: prod.splits option.splits)

function drain :: "externals \<Rightarrow> (nat \<Rightarrow> send_outcome) \<Rightarrow> nat \<Rightarrow> (mempool, unit) action" where
  "drain x try_send k m = (case mempool_pop x m of
     (None, m') \<Rightarrow> (Ok (), m')
   | (Some entry, m') \<Rightarrow> (case try_send k of
       Sent \<Rightarrow> drain x try_send (Suc k) (m' \<lparr> mem_sent := mem_sent m' @ [me_transaction entry] \<rparr>)
     | Full \<Rightarrow> (Ok (), mempool_push x entry m')
     | Disconnected \<Rightarrow> (Err (error_info x ''transaction process channel closed unexpectedly''), m')))"
  by pat_completeness auto
termination by (relation "measure (\<lambda>(x, ts, k, m). length (mem_heap m))") (auto dest: mempool_pop_length [OF sym])

declare drain.simps [simp del]

text \<open>The addresses of the seeds, which the entries carry.\<close>

definition seed_addresses :: "externals \<Rightarrow> PublicKey option list \<Rightarrow> Address list" where
  "seed_addresses x seeds = List.map_filter (\<lambda>k. case map_option (public_key_address x) k of
     Some (Ok a) \<Rightarrow> Some a | _ \<Rightarrow> None) seeds"

definition mempool_interval_fold ::
    "externals \<Rightarrow> (nat \<Rightarrow> string + unit) \<Rightarrow> (nat \<Rightarrow> send_outcome) \<Rightarrow> PublicKey option list \<Rightarrow> bool \<Rightarrow>
     TransactionMessage list \<Rightarrow> (mempool, unit) action" where
  "mempool_interval_fold x deliver try_send seeds disconnected queue =
     seq_do (pure (recv_while x disconnected queue)) (\<lambda>messages.
     seq_do (for_each_do (receive_message x deliver (seed_addresses x seeds)) messages) (\<lambda>_.
     drain x try_send 0))"

section \<open>The heap of entries is a priority queue\<close>

lemma entry_le_preorder: "total_preorder entry_le"
  by (auto simp: total_preorder_def entry_le_def)

interpretation entry_queue: priority_queue entry_le "is_heap entry_le" mset "heap_push entry_le" "heap_pop entry_le"
proof
  fix q :: "MempoolEntry list" and a
  assume q: "is_heap entry_le q"
  show "is_heap entry_le (heap_push entry_le a q) \<and> mset (heap_push entry_le a q) = add_mset a (mset q)"
    by (rule heap_push_correct [OF entry_le_preorder q])
  show "mset q = {#} \<Longrightarrow> heap_pop entry_le q = (None, q)" by (simp add: heap_pop_def)
  show "mset q \<noteq> {#} \<Longrightarrow> \<exists>a q'. heap_pop entry_le q = (Some a, q') \<and> is_heap entry_le q' \<and>
      mset q = add_mset a (mset q') \<and> (\<forall>b \<in># mset q. entry_le b a)"
    using heap_pop_correct [OF entry_le_preorder q] by auto
qed

section \<open>The invariant\<close>

text \<open>The heap is ordered, and the shared map of entries holds exactly its transactions, one for each hash.\<close>

definition mirrors :: "externals \<Rightarrow> MempoolEntry multiset \<Rightarrow> (Hash \<Rightarrow> Transaction option) \<Rightarrow> bool" where
  "mirrors x es m \<longleftrightarrow> (\<forall>h. count (image_mset (\<lambda>e. hash_or x (entry_tx e)) es) h \<le> 1) \<and>
     (\<forall>h t. m h = Some t \<longleftrightarrow> (\<exists>e \<in># es. hash_or x (entry_tx e) = h \<and> entry_tx e = t))"

definition mempool_ok :: "externals \<Rightarrow> mempool \<Rightarrow> bool" where
  "mempool_ok x m \<longleftrightarrow> is_heap entry_le (mem_heap m) \<and> mirrors x (mset (mem_heap m)) (rl_mempool_entries (mem_relay m))"

lemma mirrorsD:
  assumes "mirrors x es m"
  shows "m h = Some t \<longleftrightarrow> (\<exists>e \<in># es. hash_or x (entry_tx e) = h \<and> entry_tx e = t)"
    "count (image_mset (\<lambda>e. hash_or x (entry_tx e)) es) h \<le> 1"
  using assms unfolding mirrors_def by blast+

lemma mirrors_None:
  assumes "mirrors x es m"
  shows "m h = None \<longleftrightarrow> h \<notin># image_mset (\<lambda>e. hash_or x (entry_tx e)) es"
proof (cases "m h")
  case None
  then have "\<not> (\<exists>e \<in># es. hash_or x (entry_tx e) = h)" using mirrorsD(1) [OF assms, of h] by fastforce
  with None show ?thesis by auto
next
  case (Some t)
  then have "h \<in># image_mset (\<lambda>e. hash_or x (entry_tx e)) es" using mirrorsD(1) [OF assms, of h t] by auto
  with Some show ?thesis by simp
qed

lemma mirrors_add:
  assumes "mirrors x es m" "m (hash_or x (entry_tx e)) = None"
  shows "mirrors x (add_mset e es) (m(hash_or x (entry_tx e) \<mapsto> entry_tx e))"
  unfolding mirrors_def
proof (intro conjI allI)
  let ?h = "\<lambda>e. hash_or x (entry_tx e)"
  have n: "?h e \<notin># image_mset ?h es" using assms(2) mirrors_None [OF assms(1)] by simp
  then have "count (image_mset ?h es) (?h e) = 0" by (rule count_eq_zero_iff [THEN iffD2])
  then show "count (image_mset ?h (add_mset e es)) g \<le> 1" for g
    using mirrorsD(2) [OF assms(1), of g] by (cases "g = ?h e") simp_all
  show "(m(?h e \<mapsto> entry_tx e)) g = Some t \<longleftrightarrow> (\<exists>f \<in># add_mset e es. ?h f = g \<and> entry_tx f = t)" for g t
    using n mirrorsD(1) [OF assms(1), of g t] by (cases "g = ?h e") (auto simp: image_iff)
qed

lemma mirrors_remove:
  assumes "mirrors x (add_mset e es) m"
  shows "mirrors x es (m(hash_or x (entry_tx e) := None))"
  unfolding mirrors_def
proof (intro conjI allI)
  let ?h = "\<lambda>e. hash_or x (entry_tx e)"
  have "count (image_mset ?h es) (?h e) = 0" using mirrorsD(2) [OF assms, of "?h e"] by simp
  then have n: "?h e \<notin># image_mset ?h es" by (rule count_eq_zero_iff [THEN iffD1])
  show "count (image_mset ?h es) g \<le> 1" for g
    using mirrorsD(2) [OF assms, of g] by (cases "g = ?h e") auto
  have n': "?h f \<noteq> ?h e" if "f \<in># es" for f using n image_eqI [OF _ that, of "?h e" ?h] by (simp only: set_image_mset) metis
  show "(m(?h e := None)) g = Some t \<longleftrightarrow> (\<exists>f \<in># es. ?h f = g \<and> entry_tx f = t)" for g t
  proof (cases "g = ?h e")
    case True
    with n' show ?thesis by auto
  next
    case False
    then have "(\<exists>f \<in># add_mset e es. ?h f = g \<and> entry_tx f = t) \<longleftrightarrow> (\<exists>f \<in># es. ?h f = g \<and> entry_tx f = t)" by auto
    with False mirrorsD(1) [OF assms, of g t] show ?thesis by simp
  qed
qed

lemma mempool_push_ok:
  assumes "mempool_ok x m" "rl_mempool_entries (mem_relay m) (hash_or x (entry_tx e)) = None"
  shows "mempool_ok x (mempool_push x e m) \<and> mset (mem_heap (mempool_push x e m)) = add_mset e (mset (mem_heap m))"
  using assms entry_queue.push [of "mem_heap m" e] mirrors_add
  by (auto simp: mempool_ok_def mempool_push_def Let_def)

lemma mempool_pop_ok:
  assumes "mempool_ok x m" "mempool_pop x m = (Some e, m')"
  shows "mempool_ok x m' \<and> mset (mem_heap m) = add_mset e (mset (mem_heap m')) \<and> (\<forall>b \<in> set (mem_heap m). entry_le b e) \<and>
     rl_mempool_entries (mem_relay m') (hash_or x (entry_tx e)) = None \<and> mem_sent m' = mem_sent m"
proof -
  obtain h where h: "heap_pop entry_le (mem_heap m) = (Some e, h)"
    "m' = m \<lparr> mem_heap := h, mem_relay := mem_relay m \<lparr> rl_mempool_entries :=
       (rl_mempool_entries (mem_relay m))(hash_or x (entry_tx e) := None) \<rparr> \<rparr>"
    using assms(2) by (auto simp: mempool_pop_def split: prod.splits option.splits)
  have "is_heap entry_le (mem_heap m)" using assms(1) by (simp add: mempool_ok_def)
  from entry_queue.pop_Some [OF this h(1)] assms(1) h(2) show ?thesis
    by (auto simp: mempool_ok_def intro: mirrors_remove)
qed

lemma mempool_pop_None: "mempool_ok x m \<Longrightarrow> mempool_pop x m = (None, m') \<Longrightarrow> m' = m \<and> mem_heap m = []"
  using entry_queue.pop_None [of "mem_heap m"]
  by (auto simp: mempool_ok_def mempool_pop_def split: prod.splits option.splits)

section \<open>One interval\<close>

definition message_hash :: "externals \<Rightarrow> TransactionMessage \<Rightarrow> Hash" where
  "message_hash x msg = hash_or x (tm_transaction msg)"

definition known_hashes :: "externals \<Rightarrow> mempool \<Rightarrow> Hash set" where
  "known_hashes x m = {h. relay_transaction_known x h (mem_relay m) = Ok True}"

definition entry_of :: "Address list \<Rightarrow> TransactionMessage \<Rightarrow> MempoolEntry" where
  "entry_of addrs msg = \<lparr> me_transaction = msg, me_fee_acceptable_address = addrs \<rparr>"

lemma entry_of_sel [simp]: "entry_tx (entry_of addrs msg) = tm_transaction msg" "me_transaction (entry_of addrs msg) = msg"
  by (simp_all add: entry_of_def entry_tx_def)

lemma known_after_push: "known_hashes x (mempool_push x e m) = insert (hash_or x (entry_tx e)) (known_hashes x m)"
  by (auto simp: known_hashes_def mempool_push_def relay_transaction_known_def Let_def split: if_splits)

lemma receive_message_Ok:
  assumes "receive_message x d addrs msg m = (Ok (), m')"
  shows "(message_hash x msg \<in> known_hashes x m \<and> (\<exists>a. m' = m \<lparr> mem_answers := a \<rparr>)) \<or>
     (message_hash x msg \<notin> known_hashes x m \<and> rl_mempool_entries (mem_relay m) (message_hash x msg) = None \<and>
      m' = mempool_push x (entry_of addrs msg) m)"
proof -
  obtain k where k: "relay_transaction_known x (message_hash x msg) (mem_relay m) = Ok k"
    using assms by (auto simp: receive_message_def seq_do_def query_def message_hash_def split: result.splits prod.splits)
  show ?thesis
  proof (cases k)
    case True
    then have "\<exists>a. m' = m \<lparr> mem_answers := a \<rparr>"
      using assms k
      by (auto simp: receive_message_def seq_do_def query_def pure_def message_hash_def answer_known_def
          split: result.splits prod.splits option.splits intro: exI [of _ "mem_answers m"])
    with True k show ?thesis by (simp add: known_hashes_def)
  next
    case False
    with k have "rl_mempool_entries (mem_relay m) (message_hash x msg) = None"
      by (auto simp: relay_transaction_known_def split: if_splits)
    with False k assms show ?thesis
      by (simp add: receive_message_def seq_do_def query_def message_hash_def known_hashes_def entry_of_def)
  qed
qed

lemma receive_all:
  assumes "mempool_ok x m" "for_each_do (receive_message x d addrs) q m = (Ok (), m')"
  shows "\<exists>acc. subseq acc q \<and> distinct (map (message_hash x) acc) \<and>
     message_hash x ` set acc = message_hash x ` set q - known_hashes x m \<and> mempool_ok x m' \<and>
     mset (mem_heap m') = mset (mem_heap m) + mset (map (entry_of addrs) acc) \<and> mem_sent m' = mem_sent m"
  using assms
proof (induction q arbitrary: m)
  case Nil
  then show ?case by (simp add: pure_def)
next
  case (Cons msg q)
  obtain m1 where m1: "receive_message x d addrs msg m = (Ok (), m1)" "for_each_do (receive_message x d addrs) q m1 = (Ok (), m')"
    using Cons.prems(2) by (auto simp: seq_do_eq_Ok)
  consider (known) a where "message_hash x msg \<in> known_hashes x m" "m1 = m \<lparr> mem_answers := a \<rparr>"
    | (fresh) "message_hash x msg \<notin> known_hashes x m" "rl_mempool_entries (mem_relay m) (message_hash x msg) = None"
      "m1 = mempool_push x (entry_of addrs msg) m"
    using receive_message_Ok [OF m1(1)] by metis
  then show ?case
  proof cases
    case known
    then have "mempool_ok x m1" "known_hashes x m1 = known_hashes x m" "mem_heap m1 = mem_heap m" "mem_sent m1 = mem_sent m"
      using Cons.prems(1) by (auto simp: mempool_ok_def known_hashes_def)
    with Cons.IH [OF this(1) m1(2)] known(1) show ?thesis by (auto simp: insert_Diff_if intro: subseq_order.order_trans)
  next
    case fresh
    have ok: "mempool_ok x m1" "mset (mem_heap m1) = add_mset (entry_of addrs msg) (mset (mem_heap m))"
      using mempool_push_ok [OF Cons.prems(1), of "entry_of addrs msg"] fresh(2,3) by (simp_all add: message_hash_def)
    have k: "known_hashes x m1 = insert (message_hash x msg) (known_hashes x m)" "mem_sent m1 = mem_sent m"
      using fresh(3) by (simp_all add: known_after_push message_hash_def) (simp add: mempool_push_def Let_def)
    from Cons.IH [OF ok(1) m1(2)] obtain acc where acc: "subseq acc q" "distinct (map (message_hash x) acc)"
      "message_hash x ` set acc = message_hash x ` set q - known_hashes x m1" "mempool_ok x m'"
      "mset (mem_heap m') = mset (mem_heap m1) + mset (map (entry_of addrs) acc)" "mem_sent m' = mem_sent m1"
      by blast
    have "message_hash x ` set (msg # acc) = message_hash x ` set (msg # q) - known_hashes x m"
      using acc(3) k(1) fresh(1) by auto
    moreover have "message_hash x msg \<notin> message_hash x ` set acc" using acc(3) k(1) by blast
    ultimately show ?thesis using acc ok k(2) by (intro exI [of _ "msg # acc"]) auto
  qed
qed

lemma drain_Ok:
  assumes "mempool_ok x m" "drain x ts k m = (Ok (), m')"
  shows "\<exists>es. mem_sent m' = mem_sent m @ map me_transaction es \<and> mset (mem_heap m) = mset es + mset (mem_heap m') \<and>
     sorted_wrt (\<lambda>a b. entry_le b a) es \<and> (\<forall>a \<in> set es. \<forall>b \<in> set (mem_heap m'). entry_le b a) \<and>
     (mem_heap m' = [] \<or> ts (k + length es) = Full) \<and> mempool_ok x m'"
  using assms
proof (induction x ts k m rule: drain.induct)
  case (1 x ts k m)
  show ?case
  proof (cases "mempool_pop x m")
    case (Pair o1 m1)
    show ?thesis
    proof (cases o1)
      case None
      with Pair 1(2,3) mempool_pop_None [OF 1(2)] show ?thesis by (auto simp: drain.simps [of x ts k m])
    next
      case (Some e)
      note pop = mempool_pop_ok [OF 1(2), of e m1]
      show ?thesis
      proof (cases "ts k")
        case Sent
        let ?m1 = "m1 \<lparr> mem_sent := mem_sent m1 @ [me_transaction e] \<rparr>"
        have "mempool_ok x ?m1" "drain x ts (Suc k) ?m1 = (Ok (), m')"
          using pop Pair Some Sent 1(3) by (auto simp: mempool_ok_def drain.simps [of x ts k m])
        from 1(1) [OF Pair [symmetric] Some Sent this] obtain es where es:
          "mem_sent m' = mem_sent ?m1 @ map me_transaction es" "mset (mem_heap ?m1) = mset es + mset (mem_heap m')"
          "sorted_wrt (\<lambda>a b. entry_le b a) es" "\<forall>a \<in> set es. \<forall>b \<in> set (mem_heap m'). entry_le b a"
          "mem_heap m' = [] \<or> ts (Suc k + length es) = Full" "mempool_ok x m'"
          by blast
        have h: "mset (mem_heap m) = add_mset e (mset es + mset (mem_heap m'))" using pop Pair Some es(2) by simp
        have "set (mem_heap m) = insert e (set es \<union> set (mem_heap m'))" using arg_cong [OF h, of set_mset] by simp
        then have "\<forall>b \<in> set es. entry_le b e" "\<forall>b \<in> set (mem_heap m'). entry_le b e" using pop Pair Some by auto
        then show ?thesis using h es pop Pair Some by (intro exI [of _ "e # es"]) simp
      next
        case Full
        then have "m' = mempool_push x e m1" using Pair Some 1(3) by (simp add: drain.simps [of x ts k m])
        moreover have "mem_sent (mempool_push x e m1) = mem_sent m1" by (simp add: mempool_push_def Let_def)
        ultimately show ?thesis
          using mempool_push_ok [of x m1 e] pop Pair Some Full by (intro exI [of _ "[]"]) auto
      qed (use Pair Some 1(3) in \<open>auto simp: drain.simps [of x ts k m]\<close>)
    qed
  qed
qed

text \<open>C13: An interval of the mempool loses and invents nothing and serves the smallest amounts first: it
  admits, of the queued messages, one for each hash that is neither waiting, in process nor
  stored; what it hands over and what then waits are together what waited before and what it
  admitted; it hands over in ascending order of the total output amount, nothing that waits
  is smaller than anything handed over, and it stops only when nothing waits or the
  processing channel is full.  The shared map of waiting transactions stays exactly that of
  the heap.\<close>

theorem mempool_serves_smallest:
  assumes "mempool_ok x m" "mempool_interval_fold x d ts seeds disc q m = (Ok (), m')"
  shows "\<exists>acc es. subseq acc q \<and> distinct (map (message_hash x) acc) \<and>
     message_hash x ` set acc = message_hash x ` set q - known_hashes x m \<and>
     mem_sent m' = mem_sent m @ map me_transaction es \<and>
     mset es + mset (mem_heap m') = mset (mem_heap m) + mset (map (entry_of (seed_addresses x seeds)) acc) \<and>
     sorted (map (\<lambda>e. sint (total_output_amount (entry_tx e))) es) \<and>
     (\<forall>a \<in> set es. \<forall>b \<in> set (mem_heap m'). sint (total_output_amount (entry_tx a)) \<le> sint (total_output_amount (entry_tx b))) \<and>
     (mem_heap m' = [] \<or> ts (length es) = Full) \<and> mempool_ok x m'"
proof -
  obtain m1 where m1: "for_each_do (receive_message x d (seed_addresses x seeds)) q m = (Ok (), m1)"
    "drain x ts 0 m1 = (Ok (), m')"
    using assms(2) by (auto simp: mempool_interval_fold_def seq_do_eq_Ok pure_def recv_while_eq_Ok)
  from receive_all [OF assms(1) m1(1)] obtain acc where acc: "subseq acc q" "distinct (map (message_hash x) acc)"
    "message_hash x ` set acc = message_hash x ` set q - known_hashes x m" "mempool_ok x m1"
    "mset (mem_heap m1) = mset (mem_heap m) + mset (map (entry_of (seed_addresses x seeds)) acc)" "mem_sent m1 = mem_sent m"
    by blast
  from drain_Ok [OF acc(4) m1(2)] obtain es where es: "mem_sent m' = mem_sent m1 @ map me_transaction es"
    "mset (mem_heap m1) = mset es + mset (mem_heap m')" "sorted_wrt (\<lambda>a b. entry_le b a) es"
    "\<forall>a \<in> set es. \<forall>b \<in> set (mem_heap m'). entry_le b a" "mem_heap m' = [] \<or> ts (length es) = Full" "mempool_ok x m'"
    by auto
  from es(3) have "sorted (map (\<lambda>e. sint (total_output_amount (entry_tx e))) es)"
    by (simp add: sorted_map entry_le_def)
  moreover have "\<forall>a \<in> set es. \<forall>b \<in> set (mem_heap m'). sint (total_output_amount (entry_tx a)) \<le> sint (total_output_amount (entry_tx b))"
    using es(4) by (simp add: entry_le_def)
  ultimately show ?thesis using acc es by (intro exI [of _ acc] exI [of _ es]) simp
qed

definition idle_mempool :: mempool where
  "idle_mempool = mempool_new \<lparr> rl_ds = empty_store, rl_transaction_channels = Map.empty, rl_utxo_channels = Map.empty,
     rl_mempool_entries = Map.empty \<rparr>"

definition some_message :: TransactionMessage where
  "some_message = \<lparr> tm_transaction = (new_blank 5 7) \<lparr> t_struct_metadata :=
     map_option (\<lambda>m. m \<lparr> sm_hash := Some (hash_new [1]) \<rparr>) (struct_metadata 5) \<rparr>, tm_response_channel = None \<rparr>"

lemma idle_mempool_ok: "mempool_ok sample_ext idle_mempool"
  by (simp add: idle_mempool_def mempool_new_def mempool_ok_def is_heap_def mirrors_def)

lemma idle_receives:
  "mempool_interval_fold sample_ext (\<lambda>_. Inr ()) (\<lambda>_. Sent) [] False [some_message, some_message] idle_mempool =
     (Ok (), idle_mempool \<lparr> mem_sent := [some_message] \<rparr>)"
proof -
  let ?e = "entry_of [] some_message"
  let ?m = "mempool_push sample_ext ?e idle_mempool"
  have h: "hash_or sample_ext (tm_transaction some_message) = hash_new [1]" "seed_addresses sample_ext [] = []"
    "tm_response_channel some_message = None"
    by (simp_all add: some_message_def hash_or_def struct_metadata_def seed_addresses_def List.map_filter_simps)
  have k: "relay_transaction_known sample_ext (hash_new [1]) (mem_relay idle_mempool) = Ok False"
    by (simp add: relay_transaction_known_def idle_mempool_def mempool_new_def query_maybe_transaction_def pool_def map_err_sqlx_def empty_store_def get_def)
  have "receive_message sample_ext (\<lambda>_. Inr ()) [] some_message idle_mempool = (Ok (), ?m)"
    using k h(1) by (simp add: receive_message_def seq_do_def query_def entry_of_def)
  moreover have "receive_message sample_ext (\<lambda>_. Inr ()) [] some_message ?m = (Ok (), ?m)"
    using h(1,3) by (simp add: receive_message_def seq_do_def query_def relay_transaction_known_def mempool_push_def Let_def pure_def)
  moreover have "drain sample_ext (\<lambda>_. Sent) 0 ?m = (Ok (), idle_mempool \<lparr> mem_sent := [some_message] \<rparr>)"
    by (simp add: drain.simps [of _ _ 0] drain.simps [of _ _ "Suc 0"] mempool_push_def mempool_pop_def heap_push_def heap_pop_def
        idle_mempool_def mempool_new_def sift_up.simps [of _ 0] Let_def h(1))
  ultimately show ?thesis
    by (simp add: mempool_interval_fold_def seq_do_def pure_def recv_while_def h(2))
qed

theorem mempool_serves_smallest_witness:
  "\<exists>m'. mempool_interval_fold sample_ext (\<lambda>_. Inr ()) (\<lambda>_. Sent) [] False [some_message, some_message] idle_mempool = (Ok (), m') \<and>
     mem_sent m' = [some_message] \<and> mem_heap m' = [] \<and> mempool_ok sample_ext m'"
proof -
  have "mempool_ok sample_ext (idle_mempool \<lparr> mem_sent := [some_message] \<rparr>)"
    using mempool_serves_smallest [OF idle_mempool_ok idle_receives] by blast
  with idle_receives show ?thesis by (auto simp: idle_mempool_def mempool_new_def)
qed

end
