(* ===== verification/Download.thy ===== *)
theory Download
  imports Mempool
begin

text \<open>
  Bootstrapping the store from a trusted peer, \<open>src/data/download.rs\<close>, and answering such
  requests.  Storing a downloaded observation builds Merkle proofs, which may not return, so
  the downloads are procedures.  \<open>hash_order\<close> is the order in which a hash map is iterated.
  Errors whose result is dropped after logging are dropped here as well.
\<close>

section \<open>Requests\<close>

definition utxo_entry_type :: i32 where "utxo_entry_type = 0"

definition transaction_entry_type :: i32 where "transaction_entry_type = 1"

definition observation_entry_type :: i32 where "observation_entry_type = 2"

definition observation_edge_entry_type :: i32 where "observation_edge_entry_type = 3"

definition download_msg ::
    "externals \<Rightarrow> network \<Rightarrow> i64 \<Rightarrow> i64 \<Rightarrow> i32 \<Rightarrow> PublicKey \<Rightarrow> DownloadResponse rg_result" where
  "download_msg x nw start_time end_time data_type key =
     and_then (send_message_sync x nw (request_empty \<lparr> rq_download_request := Some \<lparr> dr_start_time = start_time,
       dr_end_time = end_time, dr_data_type = data_type, dr_offset = None \<rparr> \<rparr>) key) (\<lambda>response.
     and_then (as_error_info x response) (\<lambda>_.
     ok_msg x ''Missing download response'' (rs_download_response response)))"

definition process_download_request :: "externals \<Rightarrow> DownloadRequest \<Rightarrow> data_store \<Rightarrow> DownloadResponse rg_result" where
  "process_download_request x r ds =
     and_then (if dr_data_type r \<noteq> utxo_entry_type then Ok []
       else utxo_filter_time x (dr_start_time r) (dr_end_time r) ds) (\<lambda>us.
     and_then (if dr_data_type r \<noteq> transaction_entry_type then Ok []
       else query_time_transaction x (dr_start_time r) (dr_end_time r) ds) (\<lambda>ts.
     and_then (if dr_data_type r \<noteq> observation_entry_type then Ok []
       else query_time_observation x (dr_start_time r) (dr_end_time r) ds) (\<lambda>os.
     and_then (if dr_data_type r \<noteq> observation_edge_entry_type then Ok []
       else query_time_observation_edge x (dr_start_time r) (dr_end_time r) ds) (\<lambda>es.
     Ok \<lparr> dlr_utxo_entries = us, dlr_transactions = ts, dlr_observations = os, dlr_observation_edges = es,
       dlr_complete_response = True \<rparr>))))"

section \<open>Downloads\<close>

text \<open>A procedure on the store of a relay, and one whose error is dropped.\<close>

definition in_store :: "(data_store, 'a) proc \<Rightarrow> (relay, 'a) proc" where
  "in_store m rl = map_option (\<lambda>(r, ds). (r, rl \<lparr> rl_ds := ds \<rparr>)) (m (rl_ds rl))"

definition drop_err :: "('s, 'a) proc \<Rightarrow> ('s, unit) proc" where
  "drop_err m s = map_option (\<lambda>(r, s'). (case r of Ok _ \<Rightarrow> Ok () | Err _ \<Rightarrow> Ok () | Panic p \<Rightarrow> Panic p, s')) (m s)"

fun each_do :: "('a \<Rightarrow> ('s, unit) proc) \<Rightarrow> 'a list \<Rightarrow> ('s, unit) proc" where
  "each_do f [] = try_do (Ok ())"
| "each_do f (a # as) = then_do (f a) (\<lambda>_. each_do f as)"

definition store_utxo :: "externals \<Rightarrow> UtxoEntry \<Rightarrow> (relay, unit) proc" where
  "store_utxo x utxo = (case ue_utxo_id utxo of
     None \<Rightarrow> try_do (Ok ())
   | Some utxo_id \<Rightarrow> then_do (read_do (\<lambda>rl. rl_utxo_channels rl utxo_id \<noteq> None)) (\<lambda>locked.
       if locked then try_do (Ok ()) else drop_err (in_store (lift_do (insert_utxo x utxo)))))"

definition store_tx :: "externals \<Rightarrow> TransactionEntry \<Rightarrow> (relay, unit) proc" where
  "store_tx x txe = (case te_transaction txe of
     None \<Rightarrow> try_do (Ok ())
   | Some tx \<Rightarrow> then_do (lift_do (query (relay_transaction_known x (calculate_hash x tx)))) (\<lambda>known.
       if known then try_do (Ok ())
       else in_store (lift_do (insert_transaction x tx (te_time txe) True None False))))"

definition store_observation :: "externals \<Rightarrow> i64 \<Rightarrow> ObservationEntry \<Rightarrow> (relay, unit) proc" where
  "store_observation x now obe = (case oen_observation obe of
     None \<Rightarrow> try_do (Ok ())
   | Some tx \<Rightarrow> drop_err (in_store (insert_observation_and_edges x now tx)))"

definition store_edge :: "externals \<Rightarrow> i64 \<Rightarrow> ObservationEdge \<Rightarrow> (relay, unit) proc" where
  "store_edge x now obe = drop_err (in_store (lift_do (insert_observation_edge x now obe)))"

text \<open>One kind of data: an error of the request is dropped, otherwise every entry is stored.\<close>

definition download_part ::
    "DownloadResponse rg_result \<Rightarrow> (DownloadResponse \<Rightarrow> 'a list) \<Rightarrow> ('a \<Rightarrow> bool) \<Rightarrow> ('a \<Rightarrow> (relay, unit) proc) \<Rightarrow> (relay, bool) proc" where
  "download_part r entries counts store = (case r of
     Ok dr \<Rightarrow> then_do (each_do store (entries dr)) (\<lambda>_. try_do (Ok (\<exists>e \<in> set (entries dr). counts e)))
   | Err _ \<Rightarrow> try_do (Ok False)
   | Panic p \<Rightarrow> try_do (Panic p))"

definition download_all ::
    "externals \<Rightarrow> network \<Rightarrow> i64 \<Rightarrow> i64 \<Rightarrow> i64 \<Rightarrow> PublicKey \<Rightarrow> (relay, bool) proc" where
  "download_all x nw now start_time end_time key =
     then_do (download_part (download_msg x nw start_time end_time utxo_entry_type key)
       dlr_utxo_entries (\<lambda>u. ue_utxo_id u \<noteq> None) (store_utxo x)) (\<lambda>g1.
     then_do (download_part (download_msg x nw start_time end_time transaction_entry_type key)
       dlr_transactions (\<lambda>t. te_transaction t \<noteq> None) (store_tx x)) (\<lambda>g2.
     then_do (download_part (download_msg x nw start_time end_time observation_entry_type key)
       dlr_observations (\<lambda>_. True) (store_observation x now)) (\<lambda>g3.
     then_do (download_part (download_msg x nw start_time end_time observation_edge_entry_type key)
       dlr_observation_edges (\<lambda>_. True) (store_edge x now)) (\<lambda>g4.
     try_do (Ok (g1 \<or> g2 \<or> g3 \<or> g4))))))"

section \<open>Genesis\<close>

text \<open>The accumulated answers by hash, each with a count that is never raised.\<close>

definition genesis_accum :: "externals \<Rightarrow> (Hash \<times> Transaction \<times> i64) list \<Rightarrow> Transaction \<Rightarrow> (Hash \<times> Transaction \<times> i64) list" where
  "genesis_accum x acc g = (let h = calculate_hash x g; c = (case map_of acc h of Some (_, c) \<Rightarrow> c | None \<Rightarrow> 1) in
     AList.update h (g, c) acc)"

text \<open>The greatest by a key, the last one of several.\<close>

definition max_by :: "('a \<Rightarrow> 'b :: linorder) \<Rightarrow> 'a list \<Rightarrow> 'a option" where
  "max_by f xs = foldl (\<lambda>m a. case m of None \<Rightarrow> Some a | Some b \<Rightarrow> if f b \<le> f a then Some a else Some b) None xs"

definition genesis_answers :: "Response rg_result list \<Rightarrow> Transaction list" where
  "genesis_answers rs = List.map_filter (\<lambda>r. case r of Ok s \<Rightarrow> rs_genesis_response s | _ \<Rightarrow> None) rs"

definition chosen_genesis ::
    "externals \<Rightarrow> ((Hash \<times> Transaction \<times> i64) list \<Rightarrow> (Hash \<times> Transaction \<times> i64) list) \<Rightarrow> Transaction list \<Rightarrow>
     (Hash \<times> Transaction \<times> i64) option" where
  "chosen_genesis x hash_order answers =
     max_by (\<lambda>e. sint (snd (snd e))) (hash_order (foldl (genesis_accum x) [] answers))"

definition download_genesis ::
    "externals \<Rightarrow> network \<Rightarrow> ((Hash \<times> Transaction \<times> i64) list \<Rightarrow> (Hash \<times> Transaction \<times> i64) list) \<Rightarrow> PublicKey list \<Rightarrow>
     (data_store, i64 option) action" where
  "download_genesis x nw hash_order bootstrap_pks =
     seq_do (query (get_genesis x)) (\<lambda>g. if g \<noteq> None then pure (Ok None) else
     seq_do (pure (broadcast_async x nw bootstrap_pks (request_empty \<lparr> rq_genesis_request := Some GenesisRequest \<rparr>))) (\<lambda>genesis.
     seq_do (pure (ok_msg x ''No genesis response'' (chosen_genesis x hash_order (genesis_answers genesis)))) (\<lambda>gens.
     let gen_actual = fst (snd gens) in
     seq_do (store_genesis x gen_actual) (\<lambda>_.
     seq_do (pure (time x gen_actual)) (\<lambda>g_time.
     seq_do (query (query_maybe_transaction x (calculate_hash x gen_actual))) (\<lambda>r.
     seq_do (if r = None then insert_transaction x gen_actual g_time True None False else pure (Ok ())) (\<lambda>_.
     pure (Ok (Some g_time)))))))))"

section \<open>Backwards in time\<close>

definition EARLIEST_TIME :: i64 where
  "EARLIEST_TIME = 1650866635183"

definition day_millis :: i64 where
  "day_millis = 86400000"

partial_function (option) download_loop ::
    "externals \<Rightarrow> network \<Rightarrow> i64 \<Rightarrow> PublicKey \<Rightarrow> i64 \<Rightarrow> nat \<Rightarrow> i64 \<Rightarrow> relay \<Rightarrow> (unit rg_result \<times> relay) option" where
  "download_loop x nw now key min_time no_data_count cur_end rl =
     (if no_data_count < 3 \<and> sint min_time < sint cur_end then
        Option.bind (download_all x nw now (cur_end - day_millis) cur_end key rl) (\<lambda>(r, rl').
          case r of
            Ok got_data \<Rightarrow> download_loop x nw now key min_time (if got_data then 0 else no_data_count + 1) (cur_end - day_millis) rl'
          | Err e \<Rightarrow> Some (Err e, rl')
          | Panic p \<Rightarrow> Some (Panic p, rl'))
      else Some (Ok (), rl))"

definition download_min_time :: "externals \<Rightarrow> Transaction list \<Rightarrow> i64" where
  "download_min_time x recent = (case List.map_filter (\<lambda>t. case time x t of Ok tm \<Rightarrow> Some tm | _ \<Rightarrow> None) recent of
     [] \<Rightarrow> EARLIEST_TIME
   | tm # tms \<Rightarrow> foldl (\<lambda>a b. if sint b < sint a then b else a) tm tms)"

definition download ::
    "externals \<Rightarrow> network \<Rightarrow> ((Hash \<times> Transaction \<times> i64) list \<Rightarrow> (Hash \<times> Transaction \<times> i64) list) \<Rightarrow> i64 \<Rightarrow> PublicKey list \<Rightarrow>
     (relay, unit) proc" where
  "download x nw hash_order now bootstrap_pks =
     then_do (in_store (lift_do (query (query_recent_transactions x (Some 1) None)))) (\<lambda>recent.
     then_do (try_do (case bootstrap_pks of [] \<Rightarrow> Panic ''bootstrap'' | b # _ \<Rightarrow> Ok b)) (\<lambda>bootstrap.
     then_do (in_store (lift_do (download_genesis x nw hash_order bootstrap_pks))) (\<lambda>g.
     then_do (case g of
         None \<Rightarrow> try_do (Ok False)
       | Some g_time \<Rightarrow> download_all x nw now (g_time - 1) (g_time + 1) bootstrap) (\<lambda>_.
     download_loop x nw now bootstrap (download_min_time x recent) 0 now))))"

section \<open>Facts\<close>

lemma then_do_try [simp]: "then_do (try_do (Ok a)) f = f a"
  by (simp add: then_do_def try_do_def fun_eq_iff)

lemma then_do_returns: "m s \<noteq> None \<Longrightarrow> (\<And>a s'. f a s' \<noteq> None) \<Longrightarrow> then_do m f s \<noteq> None"
  by (auto simp: then_do_def split: option.splits prod.splits result.splits)

lemma proc_returns [simp]: "lift_do a s \<noteq> None" "try_do r s \<noteq> None" "m (rl_ds rl) \<noteq> None \<Longrightarrow> in_store m rl \<noteq> None"
  by (simp_all add: lift_do_def try_do_def in_store_def)

lemma day_back:
  assumes "sint m < sint (c :: i64)" "- (2 ^ 63) + 86400000 \<le> sint m"
  shows "sint (c - day_millis) = sint c - 86400000"
proof -
  have "sint c < 2 ^ 63" using sint_lt [of c] by simp
  then have "signed_take_bit 63 (sint c - 86400000) = sint c - 86400000"
    using assms by (intro signed_take_bit_int_eq_self) auto
  then show ?thesis by (simp add: sint_word_diff day_millis_def)
qed

lemma download_loop_returns:
  assumes "\<And>s e rl. download_all x nw now s e key rl \<noteq> None" "- (2 ^ 63) + 86400000 \<le> sint min_time"
  shows "download_loop x nw now key min_time n c rl \<noteq> None"
proof (induction "nat (sint c - sint min_time)" arbitrary: n c rl rule: less_induct)
  case less
  show ?case
  proof (cases "n < 3 \<and> sint min_time < sint c")
    case True
    obtain r rl' where d: "download_all x nw now (c - day_millis) c key rl = Some (r, rl')" using assms(1) by fastforce
    have "download_loop x nw now key min_time k (c - day_millis) rl' \<noteq> None" for k
      using True by (intro less) (simp add: day_back [OF _ assms(2)])
    with True d show ?thesis by (subst download_loop.simps) (auto split: result.splits)
  qed (subst download_loop.simps, auto)
qed

text \<open>C35: The bootstrap download ends: when every request for a stretch of time returns and the latest
  stored transaction is not within a day of the least time, going back day by day reaches
  that transaction or three days without data, and the procedure returns.\<close>

theorem download_returns:
  assumes "\<forall>k \<in> set pks. \<forall>s e rl'. download_all x nw now s e k rl' \<noteq> None"
    and "\<forall>recent. query_recent_transactions x (Some 1) None (rl_ds rl) = Ok recent \<longrightarrow>
      - (2 ^ 63) + 86400000 \<le> sint (download_min_time x recent)"
  shows "\<exists>r rl'. download x nw hash_order now pks rl = Some (r, rl')"
proof (cases pks)
  case Nil
  then show ?thesis
    by (auto simp: download_def then_do_def lift_do_def in_store_def query_def try_do_def split: result.splits)
next
  case (Cons k ks)
  have a: "download_all x nw now s e k rl' \<noteq> None" for s e rl' using assms(1) Cons by simp
  have g: "(case g of None \<Rightarrow> try_do (Ok False) | Some t \<Rightarrow> download_all x nw now (t - 1) (t + 1) k) rl' \<noteq> None" for g rl'
    using a by (cases g) (simp_all add: try_do_def)
  show ?thesis
  proof (cases "query_recent_transactions x (Some 1) None (rl_ds rl)")
    case (Ok recent)
    with assms(2) have l: "download_loop x nw now k (download_min_time x recent) 0 now rl' \<noteq> None" for rl'
      using a by (intro download_loop_returns) auto
    have "then_do (try_do (Ok k)) (\<lambda>bootstrap. then_do (in_store (lift_do (download_genesis x nw hash_order pks))) (\<lambda>g.
        then_do (case g of None \<Rightarrow> try_do (Ok False) | Some g_time \<Rightarrow> download_all x nw now (g_time - 1) (g_time + 1) bootstrap) (\<lambda>_.
        download_loop x nw now bootstrap (download_min_time x recent) 0 now))) rl \<noteq> None"
      unfolding then_do_try
      by (intro then_do_returns g l proc_returns)
    with Ok Cons show ?thesis
      by (auto simp: download_def then_do_def [of "in_store (lift_do (query _))"] in_store_def lift_do_def query_def)
  qed (auto simp: download_def then_do_def lift_do_def in_store_def query_def)
qed

definition dead_network :: network where
  "dead_network = \<lparr> nw_send = \<lambda>_ _. Inl ''closed'', nw_reply = \<lambda>_ _. Inl ''closed'', nw_late = \<lambda>_ _. None \<rparr>"

lemma dead_download_msg: "\<exists>e. download_msg x dead_network s t d k = Err e"
  by (simp add: download_msg_def send_message_sync_def channel_send_def dead_network_def lib_result_def)

lemma dead_download_part: "download_part (download_msg x dead_network s t d k) f c g = try_do (Ok False)"
  using dead_download_msg [of x s t d k] by (auto simp: download_part_def)

lemma dead_download_all: "download_all x dead_network now s t k rl = Some (Ok False, rl)"
  by (simp add: download_all_def dead_download_part) (simp add: try_do_def)

theorem download_returns_witness:
  "\<exists>r rl'. download sample_ext dead_network (\<lambda>xs. xs) 1700000000000 [public_key_from_bytes [4]] (mem_relay idle_mempool) = Some (r, rl')"
proof (rule download_returns)
  show "\<forall>recent. query_recent_transactions sample_ext (Some 1) None (rl_ds (mem_relay idle_mempool)) = Ok recent \<longrightarrow>
      - (2 ^ 63) + 86400000 \<le> sint (download_min_time sample_ext recent)"
    by (simp add: idle_mempool_def mempool_new_def query_recent_transactions_def pool_def map_err_sqlx_def empty_store_def result_simps
        sql_limit_def order_desc_def
        download_min_time_def List.map_filter_simps EARLIEST_TIME_def)
qed (simp add: dead_download_all)

lemma alist_update_subset: "set (AList.update k v al) \<subseteq> insert (k, v) (set al)"
  by (induction al) auto

lemma genesis_accum_inv:
  assumes "\<forall>e \<in> set acc. calculate_hash x (fst (snd e)) = fst e \<and> snd (snd e) = 1"
  shows "(\<forall>e \<in> set (foldl (genesis_accum x) acc gs). calculate_hash x (fst (snd e)) = fst e \<and> snd (snd e) = 1) \<and>
     fst ` set (foldl (genesis_accum x) acc gs) = fst ` set acc \<union> calculate_hash x ` set gs"
  using assms
proof (induction gs arbitrary: acc)
  case (Cons g gs)
  have c: "(case map_of acc (calculate_hash x g) of Some (_, c) \<Rightarrow> c | None \<Rightarrow> 1) = 1"
  proof (cases "map_of acc (calculate_hash x g)")
    case (Some v)
    then have "(calculate_hash x g, v) \<in> set acc" by (rule map_of_SomeD)
    with Cons.prems Some show ?thesis by (cases v) auto
  qed simp
  have dm: "fst ` set (genesis_accum x acc g) = insert (calculate_hash x g) (fst ` set acc)"
    by (simp add: genesis_accum_def Let_def dom_update)
  have "set (genesis_accum x acc g) \<subseteq> insert (calculate_hash x g, g, 1) (set acc)"
    unfolding genesis_accum_def Let_def c by (rule alist_update_subset)
  then have iv: "\<forall>e \<in> set (genesis_accum x acc g). calculate_hash x (fst (snd e)) = fst e \<and> snd (snd e) = 1"
    using Cons.prems by auto
  show ?case using Cons.IH [OF iv] unfolding foldl_Cons dm list.set image_insert Un_insert_left Un_insert_right .
qed simp

lemma max_by_last:
  assumes "\<forall>a \<in> set xs. f a = c" "xs \<noteq> []"
  shows "max_by f xs = Some (last xs)"
  using assms
proof (induction xs rule: rev_induct)
  case (snoc y ys)
  then show ?case by (cases "ys = []") (auto simp: max_by_def)
qed simp

text \<open>The vote for the genesis transaction counts nothing: whatever the bootstrap peers answer and
  however often, any answered transaction can become the genesis of the node, since every
  answer keeps the count one and the order in which the hash map is iterated decides.\<close>

theorem genesis_vote_uncounted:
  assumes "g \<in> set answers"
  shows "\<exists>hash_order g'. (\<forall>xs. mset (hash_order xs) = mset xs) \<and>
     chosen_genesis x hash_order answers = Some (calculate_hash x g, g', 1) \<and> calculate_hash x g' = calculate_hash x g"
proof -
  let ?h = "calculate_hash x g"
  let ?acc = "foldl (genesis_accum x) [] answers"
  define ord :: "(Hash \<times> Transaction \<times> i64) list \<Rightarrow> (Hash \<times> Transaction \<times> i64) list"
    where "ord xs = filter (\<lambda>e. fst e \<noteq> ?h) xs @ filter (\<lambda>e. fst e = ?h) xs" for xs
  have perm: "mset (ord xs) = mset xs" for xs
    by (simp add: ord_def union_commute flip: multiset_partition [of "mset xs" "\<lambda>e. fst e = ?h"])
  note inv = genesis_accum_inv [of "[]" x answers, simplified]
  obtain e where e: "e \<in> set ?acc" "fst e = ?h" using inv assms by (metis (mono_tags, lifting) imageE imageI)
  have "filter (\<lambda>e. fst e = ?h) ?acc \<noteq> []" using e by (auto simp: filter_empty_conv)
  then have l: "last (ord ?acc) \<in> set (filter (\<lambda>e. fst e = ?h) ?acc)" by (simp add: ord_def del: set_filter)
  have "set (ord ?acc) = set ?acc" using perm [of ?acc] by (metis set_mset_mset)
  then have "\<forall>a \<in> set (ord ?acc). sint (snd (snd a)) = 1" "ord ?acc \<noteq> []" using inv e(1) by auto
  from max_by_last [OF this] have "chosen_genesis x ord answers = Some (last (ord ?acc))"
    by (simp add: chosen_genesis_def)
  moreover obtain k g' c where lk: "last (ord ?acc) = (k, g', c)" by (cases "last (ord ?acc)")
  moreover have "k = ?h" "calculate_hash x g' = ?h" "c = 1" using l lk inv by auto
  ultimately show ?thesis using perm by (intro exI [of _ ord] exI [of _ g']) simp
qed

theorem genesis_vote_uncounted_witness:
  "\<exists>hash_order g'. (\<forall>xs. mset (hash_order xs) = mset xs) \<and>
     chosen_genesis sample_ext hash_order [new_blank 5 7, new_blank 5 7, new_blank 6 8] =
       Some (calculate_hash sample_ext (new_blank 6 8), g', 1) \<and>
     calculate_hash sample_ext g' = calculate_hash sample_ext (new_blank 6 8)"
  by (rule genesis_vote_uncounted) simp

section \<open>What a download does to the unspent outputs\<close>

text \<open>The abstract effect of one downloaded entry on the map of unspent outputs.\<close>

definition claim :: "externals \<Rightarrow> (UtxoId \<Rightarrow> bool) \<Rightarrow> (bytes \<times> i64 \<Rightarrow> utxo_row option) \<Rightarrow> UtxoEntry \<Rightarrow> (bytes \<times> i64 \<Rightarrow> utxo_row option)" where
  "claim x locked m u = (case (ue_utxo_id u, utxo_row_of x u) of
     (Some utxo_id, Ok r) \<Rightarrow> if locked utxo_id \<or> m (utxo_key r) \<noteq> None then m else m(utxo_key r \<mapsto> r)
   | _ \<Rightarrow> m)"

definition offered :: "DownloadResponse rg_result \<Rightarrow> UtxoEntry list" where
  "offered r = (case r of Ok dr \<Rightarrow> dlr_utxo_entries dr | _ \<Rightarrow> [])"

definition is_locked :: "relay \<Rightarrow> UtxoId \<Rightarrow> bool" where
  "is_locked rl utxo_id \<longleftrightarrow> rl_utxo_channels rl utxo_id \<noteq> None"

definition claims :: "externals \<Rightarrow> (UtxoId \<Rightarrow> bool) \<Rightarrow> (bytes \<times> i64 \<Rightarrow> utxo_row option) \<Rightarrow> relay \<Rightarrow> bool" where
  "claims x locked m rl \<longleftrightarrow> ds_fault (rl_ds rl) = None \<and> is_locked rl = locked \<and> unspent (rl_ds rl) = m"

lemma triple_lift_do: "preserves I a \<Longrightarrow> triple I (lift_do a) (\<lambda>_. I) I"
  by (auto simp: triple_def lift_do_def preserves_def split: result.splits)

lemma triple_then_same:
  "triple I m (\<lambda>_. I) I \<Longrightarrow> (\<And>a. triple I (f a) (\<lambda>_. I) I) \<Longrightarrow> triple I (then_do m f) (\<lambda>_. I) I"
  by (rule triple_then_do)

lemma triple_in_store:
  "triple J m (\<lambda>_. J) J \<Longrightarrow> triple (\<lambda>rl. J (rl_ds rl)) (in_store m) (\<lambda>_ rl. J (rl_ds rl)) (\<lambda>rl. J (rl_ds rl))"
  unfolding triple_def in_store_def by (fastforce split: result.splits)

lemma triple_drop_err: "triple I m (\<lambda>_. I) I \<Longrightarrow> triple I (drop_err m) (\<lambda>_. I) I"
  unfolding triple_def drop_err_def by (fastforce split: result.splits)

lemma triple_each_do: "(\<And>a. triple I (f a) (\<lambda>_. I) I) \<Longrightarrow> triple I (each_do f as) (\<lambda>_. I) I"
  by (induction as) (auto intro!: triple_rules)

lemma triple_download_part: "(\<And>a. triple I (f a) (\<lambda>_. I) I) \<Longrightarrow> triple I (download_part r es c f) (\<lambda>_. I) I"
  unfolding download_part_def by (cases r) (auto intro!: triple_rules triple_each_do)

lemmas keep_rules = triple_then_same triple_keep_same triple_if triple_case_option triple_lift_do triple_drop_err

lemma keep_utxo [preserves_rules]:
  "preserves (\<lambda>ds. ds_utxo ds = U) (insert_transaction x tx tm acc rej False)"
  "preserves (\<lambda>ds. ds_utxo ds = U) (insert_observation x tx tm h hgt pk)"
  "preserves (\<lambda>ds. ds_utxo ds = U) (insert_observation_edge x now e)"
  unfolding insert_transaction_def insert_transaction_raw_def insert_transaction_indexes_def insert_transaction_edge_def
    insert_address_transaction_single_def insert_observation_def insert_observation_edge_def
  by (auto intro!: preserves_rules simp: result_simps Let_def insert_transaction_edge_def
      insert_address_transaction_single_def)

lemma keep_utxo_store:
  fixes U :: "utxo_row list"
  defines "K \<equiv> \<lambda>rl. ds_utxo (rl_ds rl) = U"
  shows "triple K (store_tx x t) (\<lambda>_. K) K"
    and "triple K (store_observation x now b) (\<lambda>_. K) K"
    and "triple K (store_edge x now e) (\<lambda>_. K) K"
proof -
  have k: "triple (\<lambda>ds. ds_utxo ds = U) m (\<lambda>_ ds. ds_utxo ds = U) (\<lambda>ds. ds_utxo ds = U) \<Longrightarrow>
      triple K (in_store m) (\<lambda>_. K) K" for m :: "(data_store, unit) proc"
    unfolding K_def by (rule triple_in_store)
  show "triple K (store_tx x t) (\<lambda>_. K) K"
    unfolding store_tx_def by (intro keep_rules k preserves_rules)
  show "triple K (store_observation x now b) (\<lambda>_. K) K"
    unfolding store_observation_def insert_observation_and_edges_def
    by (intro keep_rules k preserves_rules)
  show "triple K (store_edge x now e) (\<lambda>_. K) K"
    unfolding store_edge_def by (intro keep_rules k preserves_rules)
qed

lemma insert_utxo_unchanged: "insert_utxo x u ds = (Err e, ds') \<Longrightarrow> ds' = ds"
  by (auto simp: insert_utxo_def exec_def split: result.splits)

lemma insert_utxo_claims:
  assumes "claims x locked m rl" "ue_utxo_id u = Some i" "\<not> locked i" "insert_utxo x u (rl_ds rl) = (w, ds')" "\<And>p. w \<noteq> Panic p"
  shows "claims x locked (claim x locked m u) (rl \<lparr> rl_ds := ds' \<rparr>)"
proof (cases w)
  case (Ok v)
  with assms(4) obtain r where r: "utxo_row_of x u = Ok r" "unspent (rl_ds rl) (utxo_key r) = None"
      "ds' = rl_ds rl \<lparr> ds_utxo := ds_utxo (rl_ds rl) @ [r] \<rparr>"
    using insert_utxo_eq_Ok by blast
  then have "unspent ds' = (unspent (rl_ds rl))(utxo_key r \<mapsto> r)"
    by (auto simp: fun_eq_iff unspent_append tbl_lookup_def split: option.split)
  moreover have "m = unspent (rl_ds rl)" using assms(1) by (simp add: claims_def)
  ultimately have "unspent ds' = claim x locked m u" using assms(2,3) r by (simp add: claim_def)
  with assms(1) r(3) show ?thesis by (simp add: claims_def is_locked_def fun_eq_iff)
next
  case (Err e)
  have "\<not> (\<exists>r. utxo_row_of x u = Ok r \<and> unspent (rl_ds rl) (utxo_key r) = None)"
  proof
    assume "\<exists>r. utxo_row_of x u = Ok r \<and> unspent (rl_ds rl) (utxo_key r) = None"
    then have "\<exists>ds''. insert_utxo x u (rl_ds rl) = (Ok (), ds'')"
      using assms(1) by (auto simp: insert_utxo_eq_Ok claims_def)
    with assms(4) Err show False by simp
  qed
  with assms(1) have "claim x locked m u = m" by (auto simp: claim_def claims_def split: option.split result.split)
  with assms(1,4) Err show ?thesis by (auto simp: claims_def is_locked_def fun_eq_iff dest: insert_utxo_unchanged)
qed (use assms(5) in simp)

lemma store_utxo_claims:
  "triple (claims x locked m) (store_utxo x u) (\<lambda>_. claims x locked (claim x locked m u)) (\<lambda>_. True)"
  unfolding triple_def
proof (intro allI impI)
  fix rl r rl' assume c: "claims x locked m rl" and r: "store_utxo x u rl = Some (r, rl')"
  show "case r of Ok _ \<Rightarrow> claims x locked (claim x locked m u) rl' | _ \<Rightarrow> True"
  proof (cases "ue_utxo_id u")
    case None
    with c r show ?thesis by (auto simp: store_utxo_def claim_def try_do_def)
  next
    case (Some i)
    obtain w ds' where w: "insert_utxo x u (rl_ds rl) = (w, ds')" by fastforce
    have l: "locked i \<longleftrightarrow> rl_utxo_channels rl i \<noteq> None" using c by (auto simp: claims_def is_locked_def)
    show ?thesis
    proof (cases "locked i")
      case True
      with c r Some l show ?thesis
        by (auto simp: store_utxo_def claim_def then_do_def read_do_def try_do_def split: result.split)
    next
      case False
      with r Some l w have "rl' = rl \<lparr> rl_ds := ds' \<rparr>" "r = (case w of Panic p \<Rightarrow> Panic p | _ \<Rightarrow> Ok ())"
        by (auto simp: store_utxo_def then_do_def read_do_def drop_err_def in_store_def lift_do_def split: result.split)
      with insert_utxo_claims [OF c Some False w] show ?thesis by (cases w) auto
    qed
  qed
qed

lemma each_utxo_claims:
  "triple (claims x locked m) (each_do (store_utxo x) us) (\<lambda>_. claims x locked (foldl (claim x locked) m us)) (\<lambda>_. True)"
  by (induction us arbitrary: m) (auto intro!: triple_then_do store_utxo_claims triple_basic)

lemma utxo_part_claims:
  "triple (claims x locked m) (download_part r dlr_utxo_entries c (store_utxo x)) (\<lambda>_. claims x locked (foldl (claim x locked) m (offered r))) (\<lambda>_. True)"
  unfolding download_part_def offered_def
  by (cases r) (auto intro!: triple_then_do [OF each_utxo_claims] triple_keep)

lemma download_part_unspent:
  assumes "\<And>U a. triple (\<lambda>rl. ds_utxo (rl_ds rl) = U) (f a) (\<lambda>_ rl. ds_utxo (rl_ds rl) = U) (\<lambda>rl. ds_utxo (rl_ds rl) = U)"
  shows "triple (\<lambda>rl. unspent (rl_ds rl) = m) (download_part r es c f) (\<lambda>_ rl. unspent (rl_ds rl) = m) (\<lambda>_. True)"
  unfolding triple_def
proof (intro allI impI)
  fix rl w rl' assume u: "unspent (rl_ds rl) = m" and d: "download_part r es c f rl = Some (w, rl')"
  have "case w of Ok _ \<Rightarrow> ds_utxo (rl_ds rl') = ds_utxo (rl_ds rl) | _ \<Rightarrow> ds_utxo (rl_ds rl') = ds_utxo (rl_ds rl)"
    using triple_download_part [of "\<lambda>s. ds_utxo (rl_ds s) = ds_utxo (rl_ds rl)" f, OF assms] d unfolding triple_def by blast
  with u show "case w of Ok _ \<Rightarrow> unspent (rl_ds rl') = m | _ \<Rightarrow> True"
    by (auto simp: unspent_def split: result.splits)
qed

lemma download_all_claims:
  "triple (claims x locked m) (download_all x nw now s e key)
     (\<lambda>_ rl. unspent (rl_ds rl) = foldl (claim x locked) m (offered (download_msg x nw s e utxo_entry_type key))) (\<lambda>_. True)"
proof -
  let ?r = "download_msg x nw s e utxo_entry_type key"
  let ?U = "foldl (claim x locked) m (offered ?r)"
  have "triple (claims x locked m) (download_part ?r dlr_utxo_entries c (store_utxo x)) (\<lambda>_ rl. unspent (rl_ds rl) = ?U) (\<lambda>_. True)" for c
    by (rule triple_conseq [OF utxo_part_claims], assumption, unfold claims_def, elim conjE)
  then show ?thesis unfolding download_all_def
    by (rule triple_then_do)
      (rule triple_then_do, rule download_part_unspent, rule keep_utxo_store,
       rule triple_then_do, rule download_part_unspent, rule keep_utxo_store,
       rule triple_then_do, rule download_part_unspent, rule keep_utxo_store, rule triple_keep, rule TrueI)
qed

text \<open>C12: A node that downloads from a peer believes it: the unspent outputs after downloading a stretch of
  time are the former ones with every output that the one peer offers added, in the order
  offered, unless it is malformed, its key is present or a task holds it; no signature, no
  transaction and no other peer is consulted, and the transactions and observations downloaded
  after them change nothing of it.\<close>

theorem download_adds_claims:
  assumes "download_all x nw now s e key rl = Some (Ok got, rl')" "ds_fault (rl_ds rl) = None"
  shows "unspent (rl_ds rl') =
     foldl (claim x (is_locked rl)) (unspent (rl_ds rl)) (offered (download_msg x nw s e utxo_entry_type key))"
  using download_all_claims [of x "is_locked rl" "unspent (rl_ds rl)" nw now s e key] assms
  unfolding triple_def claims_def by fastforce

definition claimed_outputs :: DownloadResponse where
  "claimed_outputs = \<lparr> dlr_utxo_entries = [sample_entry_at 0, sample_entry_at 1, sample_entry_at 0], dlr_transactions = [],
     dlr_observations = [], dlr_observation_edges = [], dlr_complete_response = True \<rparr>"

definition claiming_network :: network where
  "claiming_network = \<lparr> nw_send = \<lambda>_ _. Inr (), nw_reply = \<lambda>_ _. Inr (empty_success \<lparr> rs_download_response := Some claimed_outputs \<rparr>),
     nw_late = \<lambda>_ _. None \<rparr>"

lemma claiming_download_msg: "download_msg x claiming_network s t d k = Ok claimed_outputs"
  by (simp add: download_msg_def send_message_sync_def channel_send_def claiming_network_def lib_result_def recv_async_err_def
      as_error_info_def empty_success_def response_metadata_def response_default_def ok_msg_def)

lemma store_sample_entry:
  assumes "ds_fault (rl_ds rl) = None" "rl_utxo_channels rl = Map.empty"
  shows "\<exists>ds'. store_utxo x (sample_entry_at i) rl = Some (Ok (), rl \<lparr> rl_ds := ds' \<rparr>) \<and> ds_fault ds' = None"
proof -
  obtain w ds' where w: "insert_utxo x (sample_entry_at i) (rl_ds rl) = (w, ds')" by fastforce
  with assms(1) have "\<not> is_panic w" "ds_fault ds' = None"
    by (auto simp: insert_utxo_def exec_def pool_def map_err_sqlx_def sample_row sql_insert_def result_simps split: result.splits option.splits if_splits)
  with w assms(2) show ?thesis
    by (cases w) (auto simp: store_utxo_def sample_entry_at_def from_output_new_def then_do_def read_do_def drop_err_def
        in_store_def lift_do_def is_panic_def)
qed

theorem download_adds_claims_witness:
  "\<exists>rl'. download_all sample_ext claiming_network 9 5 7 sample_public_key (mem_relay idle_mempool) = Some (Ok True, rl') \<and>
     unspent (rl_ds rl') = [([7], 0) \<mapsto> sample_row_at sample_ext 0, ([7], 1) \<mapsto> sample_row_at sample_ext 1]"
proof -
  have id: "ue_utxo_id (sample_entry_at i) = Some (utxo_id_new (hash_new [7]) i)" for i
    by (simp add: sample_entry_at_def from_output_new_def)
  obtain rl' where d: "download_all sample_ext claiming_network 9 5 7 sample_public_key (mem_relay idle_mempool) = Some (Ok True, rl')"
  proof -
    let ?rl = "mem_relay idle_mempool"
    have r: "ds_fault (rl_ds ?rl) = None" "rl_utxo_channels ?rl = Map.empty" by (simp_all add: idle_mempool_def mempool_new_def)
    from store_sample_entry [OF r, of sample_ext 0] obtain d1 where
      1: "store_utxo sample_ext (sample_entry_at 0) ?rl = Some (Ok (), ?rl \<lparr> rl_ds := d1 \<rparr>)" "ds_fault d1 = None" by blast
    from store_sample_entry [of "?rl \<lparr> rl_ds := d1 \<rparr>" sample_ext 1] r 1(2) obtain d2 where
      2: "store_utxo sample_ext (sample_entry_at 1) (?rl \<lparr> rl_ds := d1 \<rparr>) = Some (Ok (), ?rl \<lparr> rl_ds := d2 \<rparr>)" "ds_fault d2 = None" by auto
    from store_sample_entry [of "?rl \<lparr> rl_ds := d2 \<rparr>" sample_ext 0] r 2(2) obtain d3 where
      3: "store_utxo sample_ext (sample_entry_at 0) (?rl \<lparr> rl_ds := d2 \<rparr>) = Some (Ok (), ?rl \<lparr> rl_ds := d3 \<rparr>)" by auto
    have "download_all sample_ext claiming_network 9 5 7 sample_public_key ?rl = Some (Ok True, ?rl \<lparr> rl_ds := d3 \<rparr>)"
      by (simp add: download_all_def claiming_download_msg download_part_def claimed_outputs_def then_do_def try_do_def 1 2 3 id)
    then show thesis by (rule that)
  qed
  have h: "ds_fault (rl_ds (mem_relay idle_mempool)) = None" "unspent (rl_ds (mem_relay idle_mempool)) = Map.empty"
    "is_locked (mem_relay idle_mempool) = (\<lambda>_. False)"
    by (simp_all add: idle_mempool_def mempool_new_def is_locked_def fun_eq_iff)
  from download_adds_claims [OF d h(1)] have "unspent (rl_ds rl') =
      [([7], 0) \<mapsto> sample_row_at sample_ext 0, ([7], 1) \<mapsto> sample_row_at sample_ext 1]"
    unfolding claiming_download_msg offered_def claimed_outputs_def h
    by (simp add: claim_def id sample_row)
  with d show ?thesis by blast
qed

end
