(* ===== verification/Discovery.thy ===== *)
theory Discovery
  imports Mempool Process_Transaction
begin

text \<open>
  Discovery of peers, \<open>src/core/discovery.rs\<close>, and of transactions, \<open>src/core/data_discovery.rs\<close>.
  \<open>sync_env\<close> is what the two read of their surroundings: the node's key and configuration, the
  clock, the network, the iteration order of a hash set and the outcome of sends.  The debug
  log is taken as switched off.
\<close>

section \<open>Surroundings\<close>

record sync_env =
  se_key :: PublicKey
  se_config :: node_config
  se_fixed_node_tx :: "NodeMetadata option \<Rightarrow> Transaction"
  se_now :: i64
  se_network :: network
  se_order :: "PeerNodeInfo list \<Rightarrow> PeerNodeInfo list"
  se_deliver :: "TransactionMessage \<Rightarrow> string + unit"

definition drop_error :: "('s, unit) action \<Rightarrow> ('s, unit) action" where
  "drop_error m s = (case m s of (Err _, s') \<Rightarrow> (Ok (), s') | r \<Rightarrow> r)"

fun gather_do :: "('b \<Rightarrow> ('s, 'a list) action) \<Rightarrow> 'b list \<Rightarrow> ('s, 'a list) action" where
  "gather_do f [] = pure (Ok [])"
| "gather_do f (b # bs) = seq_do (f b) (\<lambda>as. seq_do (gather_do f bs) (\<lambda>as'. pure (Ok (as @ as'))))"

section \<open>Distances to the node\<close>

definition partition_info :: "externals \<Rightarrow> sync_env \<Rightarrow> (data_store, PartitionInfo option) action" where
  "partition_info x e =
     seq_do (relay_node_metadata x (se_key e) (nc_fixed_peer_tx (se_config e)) (se_fixed_node_tx e)) (\<lambda>n.
     pure (Ok (nm_partition_info n)))"

definition tx_in_distance :: "externals \<Rightarrow> sync_env \<Rightarrow> Hash \<Rightarrow> (data_store, bool) action" where
  "tx_in_distance x e h =
     seq_do (pure (xorfc_hash x h (se_key e))) (\<lambda>_.
     seq_do (partition_info x e) (\<lambda>pi. pure (tx_hash_distance x (se_key e) pi h)))"

definition utxo_hash_distance :: "externals \<Rightarrow> sync_env \<Rightarrow> UtxoId \<Rightarrow> (data_store, bool) action" where
  "utxo_hash_distance x e utxo_id =
     seq_do (pure (utxo_id_vec x utxo_id)) (\<lambda>v.
     seq_do (pure (public_key_vec x (se_key e))) (\<lambda>marker.
     seq_do (pure (xorf_conv_distance x v marker)) (\<lambda>d.
     seq_do (partition_info x e) (\<lambda>pi.
     pure (Ok (case Option.bind pi pai_utxo of Some d_max \<Rightarrow> sint d < sint d_max | None \<Rightarrow> True))))))"

section \<open>Discovery of peers\<close>

definition node_key :: "externals \<Rightarrow> string \<Rightarrow> Transaction \<Rightarrow> PublicKey rg_result" where
  "node_key x m t =
     and_then (expect ''nmd'' (node_metadata x t)) (\<lambda>n.
     case nm_public_key n of Some k \<Rightarrow> Ok k | None \<Rightarrow> Panic m)"

text \<open>One answer: a node whose transaction differs or that did not answer is removed, what it says
  of itself is added; its peers are collected.\<close>

definition discovery_answer ::
    "externals \<Rightarrow> sync_env \<Rightarrow> Response rg_result \<times> Transaction \<Rightarrow> (data_store, PeerNodeInfo list) action" where
  "discovery_answer x e p = (case p of (r, node_tx_original) \<Rightarrow> (case r of
     Ok res \<Rightarrow> (case rs_get_peers_info_response res of
         None \<Rightarrow> pure (Ok [])
       | Some g \<Rightarrow> (case gpr_self_info g of
           None \<Rightarrow> pure (Ok (gpr_peer_info g))
         | Some info \<Rightarrow>
             seq_do (case pni_latest_node_transaction info of
                 None \<Rightarrow> pure (Ok ())
               | Some latest_node_tx \<Rightarrow>
                   if latest_node_tx \<noteq> node_tx_original
                   then seq_do (pure (node_key x ''pk'' node_tx_original)) (remove_node x)
                   else pure (Ok ())) (\<lambda>_.
             seq_do (add_peer_new x (se_now e) info (se_key e)) (\<lambda>_.
             pure (Ok (gpr_peer_info g))))))
   | Err _ \<Rightarrow>
       seq_do (pure (node_key x '''' node_tx_original)) (\<lambda>k.
       seq_do (remove_node x k) (\<lambda>_. pure (Ok [])))
   | Panic m \<Rightarrow> pure (Panic m)))"

definition discover_info :: "externals \<Rightarrow> sync_env \<Rightarrow> PeerNodeInfo \<Rightarrow> (data_store, unit) action" where
  "discover_info x e r = (case nmd_pk x r of
     None \<Rightarrow> pure (Ok ())
   | Some pk \<Rightarrow>
       if pk = se_key e then pure (Ok ())
       else seq_do (query (query_public_key_node x pk)) (\<lambda>known.
         if known \<noteq> None then pure (Ok ()) else drop_error (add_peer_new x (se_now e) r (se_key e))))"

definition discovery_interval_fold :: "externals \<Rightarrow> sync_env \<Rightarrow> (data_store, unit) action" where
  "discovery_interval_fold x e =
     seq_do (query (\<lambda>ds. add ''Active nodes query in discovery failure'' (active_node_info x (se_now e) None ds))) (\<lambda>node_tx_all.
     let peers = List.map_filter (\<lambda>t. case node_metadata x t of Ok n \<Rightarrow> nm_public_key n | _ \<Rightarrow> None) node_tx_all in
     if length node_tx_all \<noteq> length peers then pure (Panic ''assertion failed: left == right'') else
     seq_do (pure (broadcast_async x (se_network e) peers
       (request_empty \<lparr> rq_get_peers_info_request := Some GetPeersInfoRequest \<rparr>))) (\<lambda>rs.
     seq_do (gather_do (discovery_answer x e) (zip rs node_tx_all)) (\<lambda>results.
     for_each_do (discover_info x e) (se_order e (remdups results)))))"

text \<open>Discovery of one node that sent a message: its answer to an about request is added.\<close>

definition discovery_process :: "externals \<Rightarrow> sync_env \<Rightarrow> Response \<Rightarrow> (data_store, unit) action" where
  "discovery_process x e result =
     seq_do (pure (safe_get_msg x ''Missing about node response during peer discovery'' (rs_about_node_response result))) (\<lambda>a.
     seq_do (pure (safe_get_msg x ''Missing about node response peer_node_info during peer discovery''
       (anr_peer_node_info a))) (\<lambda>res.
     seq_do (pure (safe_get_msg x ''Missing about node response latest_node_transaction during peer discovery''
       (pni_latest_node_transaction res))) (\<lambda>t.
     seq_do (pure (node_metadata x t)) (\<lambda>nmd.
     seq_do (pure (safe_get_msg x ''Missing about node response public_key during peer discovery'' (nm_public_key nmd))) (\<lambda>pk.
     seq_do (pure (public_key_short_id x pk)) (\<lambda>_.
     add_peer_new x (se_now e) res (se_key e)))))))"

definition discovery_recv_for_each ::
    "externals \<Rightarrow> sync_env \<Rightarrow> string + unit \<Rightarrow> string + Response \<Rightarrow> (data_store, unit) action" where
  "discovery_recv_for_each x e sent reply = drop_error (
     seq_do (pure (and_then (channel_send x sent) (\<lambda>_. recv_async_err x reply))) (discovery_process x e))"

section \<open>Discovery of transactions\<close>

text \<open>The relay, and the messages put on the channel of the mempool.\<close>

record sync_state =
  sy_relay :: relay
  sy_mempool :: "TransactionMessage list"

definition in_ds :: "(data_store, 'a) action \<Rightarrow> (sync_state, 'a) action" where
  "in_ds m s = (case m (rl_ds (sy_relay s)) of (r, ds) \<Rightarrow> (r, s \<lparr> sy_relay := sy_relay s \<lparr> rl_ds := ds \<rparr> \<rparr>))"

definition send_mempool :: "externals \<Rightarrow> sync_env \<Rightarrow> TransactionMessage \<Rightarrow> (sync_state, unit) action" where
  "send_mempool x e m s = (case channel_send x (se_deliver e m) of
     Ok _ \<Rightarrow> (Ok (), s \<lparr> sy_mempool := sy_mempool s @ [m] \<rparr>) | Err r \<Rightarrow> (Err r, s) | Panic p \<Rightarrow> (Panic p, s))"

definition discover_hash :: "externals \<Rightarrow> sync_env \<Rightarrow> Hash \<Rightarrow> (sync_state, unit) action" where
  "discover_hash x e h =
     seq_do (query (\<lambda>s. relay_transaction_known x h (sy_relay s))) (\<lambda>known.
     if known then pure (Ok ()) else
     seq_do (in_ds (tx_in_distance x e h)) (\<lambda>near.
     if \<not> near then pure (Ok ()) else
     seq_do (in_ds (query (lookup_transaction_serial x (se_network e) (se_now e) h))) (\<lambda>t.
     case t of
       None \<Rightarrow> pure (Ok ())
     | Some tx \<Rightarrow> send_mempool x e \<lparr> tm_transaction = tx, tm_response_channel = None \<rparr>)))"

definition discover_node :: "externals \<Rightarrow> sync_env \<Rightarrow> PublicKey \<Rightarrow> (sync_state, unit) action" where
  "discover_node x e node =
     seq_do (pure (send_message_async x (se_network e) (request_empty \<lparr> rq_recent_transactions_request :=
       Some \<lparr> rdq_limit = None, rdq_min_time = None \<rparr> \<rparr>) node)) (\<lambda>res.
     seq_do (pure (recv_async_err x res)) (\<lambda>res.
     case rs_recent_discovery_transactions_response res of
       None \<Rightarrow> pure (Ok ())
     | Some r \<Rightarrow> for_each_do (discover_hash x e) (rdr_transaction_hashes r)))"

definition data_discovery_interval_fold :: "externals \<Rightarrow> sync_env \<Rightarrow> (sync_state, unit) action" where
  "data_discovery_interval_fold x e =
     seq_do (in_ds (query (active_nodes x (se_now e) None))) (\<lambda>n. for_each_do (discover_node x e) n)"

section \<open>What discovery does to the peer tables\<close>

lemma preserves_drop_error [preserves_rules]: "preserves I m \<Longrightarrow> preserves I (drop_error m)"
  by (auto simp: preserves_def drop_error_def split: prod.splits result.splits)

lemma preserves_gather_do: "(\<And>b. b \<in> set bs \<Longrightarrow> preserves I (f b)) \<Longrightarrow> preserves I (gather_do f bs)"
  by (induction bs) (auto intro!: preserves_rules)

lemma preserves_pure_then: "(\<And>a. r = Ok a \<Longrightarrow> preserves I (f a)) \<Longrightarrow> preserves I (seq_do (pure r) f)"
  by (auto simp: preserves_def seq_do_def pure_def split: result.splits)

text \<open>The row that an announced node gets.\<close>

definition announces :: "externals \<Rightarrow> PublicKey \<Rightarrow> PeerNodeInfo \<Rightarrow> node_row \<Rightarrow> bool" where
  "announces x self_key i r \<longleftrightarrow> (\<exists>t k. pni_latest_node_transaction i = Some t \<and> nmd_pk x i = Some k \<and> k \<noteq> self_key \<and>
     public_key_validate x k = Ok k \<and> public_key_bytes x k = Ok (nr_public_key r) \<and> nr_tx r = enc_transaction x t)"

definition announced :: "Response rg_result \<Rightarrow> PeerNodeInfo list" where
  "announced r = (case r of
     Ok res \<Rightarrow> (case rs_get_peers_info_response res of
       None \<Rightarrow> []
     | Some g \<Rightarrow> (case gpr_self_info g of None \<Rightarrow> [] | Some i \<Rightarrow> [i]) @ gpr_peer_info g)
   | _ \<Rightarrow> [])"

text \<open>Only the two tables of peers differ, and the new nodes are announced ones.\<close>

definition peers_only :: "externals \<Rightarrow> PublicKey \<Rightarrow> PeerNodeInfo set \<Rightarrow> data_store \<Rightarrow> data_store \<Rightarrow> bool" where
  "peers_only x self_key infos ds ds' \<longleftrightarrow> ds' \<lparr> ds_peers := ds_peers ds, ds_nodes := ds_nodes ds \<rparr> = ds \<and>
     set (ds_nodes ds') \<subseteq> set (ds_nodes ds) \<union> {r. \<exists>i \<in> infos. announces x self_key i r}"

lemma peers_only_refl: "peers_only x k infos ds ds"
  by (simp add: peers_only_def)

lemma peers_only_updates:
  assumes "peers_only x k infos ds d"
  shows "peers_only x k infos ds (d \<lparr> ds_peers := ps \<rparr>)"
    and "set ns \<subseteq> set (ds_nodes d) \<union> {r. \<exists>i \<in> infos. announces x k i r} \<Longrightarrow> peers_only x k infos ds (d \<lparr> ds_nodes := ns \<rparr>)"
  using assms unfolding peers_only_def by auto

lemma remove_node_peers_only: "preserves (peers_only x k infos ds) (remove_node x pk)"
  unfolding remove_node_def delete_node_def remove_peer_id_def
  by (intro preserves_rules) (auto simp: result_simps tbl_delete_def intro!: peers_only_updates)

lemma add_peer_new_peers_only:
  assumes "i \<in> infos"
  shows "preserves (peers_only x k infos ds) (add_peer_new x now i k)"
proof (cases "k \<in> set (public_keys x i)")
  case False
  have n: "preserves (peers_only x k infos ds) (insert_node x now t)" if t: "pni_latest_node_transaction i = Some t" for t
    unfolding insert_node_def
  proof (rule preserves_exec)
    fix d d' assume "peers_only x k infos ds d" "and_then (pool x d) (\<lambda>_. and_then (node_metadata x t) (\<lambda>nmd.
       and_then (safe_get x (nm_public_key nmd)) (\<lambda>public_key. and_then (public_key_validate x public_key) (\<lambda>_.
       and_then (public_key_bytes x public_key) (\<lambda>bs. and_then (safe_get x (nm_peer_id nmd)) (\<lambda>p.
       and_then (safe_get x (pid_peer_id p)) (\<lambda>k. and_then (safe_bytes x (pk_bytes k)) (\<lambda>pid.
       Ok (d \<lparr> ds_nodes := tbl_replace nr_public_key
         \<lparr> nr_public_key = bs, nr_peer_id = pid, nr_status = [], nr_last_seen = now, nr_tx = enc_transaction x t \<rparr>
         (ds_nodes d) \<rparr>))))))))) = Ok d'"
    with False t assms show "peers_only x k infos ds d'"
      by (auto simp: result_simps tbl_replace_def public_keys_def nmd_pk_def announces_def public_key_validate_def
          intro!: peers_only_updates bexI [of _ i])
  qed
  have p: "preserves (peers_only x k infos ds) (insert_peer x t)" for t
    unfolding insert_peer_def by (rule preserves_exec) (auto simp: result_simps intro!: peers_only_updates)
  from False show ?thesis unfolding add_peer_new_def if_not_P [OF False]
    by (intro preserves_pure_then preserves_seq_do p n) (simp add: safe_get_msg_eq_Ok)
qed (auto simp: add_peer_new_def intro!: preserves_rules)

lemma discovery_answer_peers_only:
  assumes "set (announced (fst p)) \<subseteq> infos"
  shows "preserves (peers_only x (se_key e) infos ds) (discovery_answer x e p)"
proof -
  obtain r t where p: "p = (r, t)" by fastforce
  show ?thesis
  proof (cases r)
    case (Ok res)
    show ?thesis
    proof (cases "rs_get_peers_info_response res")
      case (Some g)
      have "preserves (peers_only x (se_key e) infos ds) (add_peer_new x (se_now e) i (se_key e))" if "gpr_self_info g = Some i" for i
        using that p Ok Some assms by (intro add_peer_new_peers_only) (auto simp: announced_def)
      then show ?thesis using p Ok Some
        by (cases "gpr_self_info g") (auto simp: discovery_answer_def intro!: preserves_rules remove_node_peers_only)
    qed (simp add: discovery_answer_def p Ok preserves_rules)
  qed (auto simp: discovery_answer_def p intro!: preserves_rules remove_node_peers_only)
qed

lemma discover_info_peers_only:
  "i \<in> infos \<Longrightarrow> preserves (peers_only x (se_key e) infos ds) (discover_info x e i)"
  unfolding discover_info_def by (auto intro!: preserves_rules add_peer_new_peers_only)

text \<open>What the collected peers of the answers are.\<close>

lemma discovery_answer_results: "discovery_answer x e p ds = (Ok is, ds') \<Longrightarrow> set is \<subseteq> set (announced (fst p))"
  by (auto simp: discovery_answer_def announced_def seq_do_def pure_def split: prod.splits result.splits option.splits if_splits)

lemma gather_do_results:
  assumes "\<And>b s is s'. f b s = (Ok is, s') \<Longrightarrow> set is \<subseteq> A b"
  shows "gather_do f bs s = (Ok is, s') \<Longrightarrow> set is \<subseteq> \<Union> (A ` set bs)"
proof (induction bs arbitrary: s "is" s')
  case (Cons b bs)
  then show ?case using assms by (fastforce simp: seq_do_def pure_def split: prod.splits result.splits)
qed (simp add: pure_def)

text \<open>The answers that an interval of discovery gets.\<close>

definition discovery_answers :: "externals \<Rightarrow> sync_env \<Rightarrow> data_store \<Rightarrow> Response rg_result list" where
  "discovery_answers x e ds = (case active_node_info x (se_now e) None ds of
     Ok txs \<Rightarrow> (case broadcast_async x (se_network e)
         (List.map_filter (\<lambda>t. case node_metadata x t of Ok n \<Rightarrow> nm_public_key n | _ \<Rightarrow> None) txs)
         (request_empty \<lparr> rq_get_peers_info_request := Some GetPeersInfoRequest \<rparr>) of Ok rs \<Rightarrow> rs | _ \<Rightarrow> [])
   | _ \<Rightarrow> [])"

text \<open>An interval that changes the store asked all active nodes.\<close>

lemma discovery_interval_asks:
  assumes "discovery_interval_fold x e ds = (r, ds')"
  obtains "ds' = ds" | txs rs where "active_node_info x (se_now e) None ds = Ok txs"
      "broadcast_async x (se_network e) (List.map_filter (\<lambda>t. case node_metadata x t of Ok n \<Rightarrow> nm_public_key n | _ \<Rightarrow> None) txs)
         (request_empty \<lparr> rq_get_peers_info_request := Some GetPeersInfoRequest \<rparr>) = Ok rs"
      "seq_do (gather_do (discovery_answer x e) (zip rs txs)) (\<lambda>results. for_each_do (discover_info x e) (se_order e (remdups results))) ds = (r, ds')"
proof -
  let ?pks = "\<lambda>txs. List.map_filter (\<lambda>t. case node_metadata x t of Ok n \<Rightarrow> nm_public_key n | _ \<Rightarrow> None) txs"
  let ?bc = "\<lambda>txs. broadcast_async x (se_network e) (?pks txs) (request_empty \<lparr> rq_get_peers_info_request := Some GetPeersInfoRequest \<rparr>)"
  show thesis
  proof (cases "active_node_info x (se_now e) None ds")
    case (Ok txs)
    note body = assms [unfolded discovery_interval_fold_def add_def seq_do_def [of "query _"] query_def Let_def prod.case Ok
        map_err.simps result.case]
    show thesis
    proof (cases "length txs \<noteq> length (?pks txs)")
      case True
      then show thesis using body that(1) by (simp add: pure_def)
    next
      case False
      note body' = body [unfolded if_not_P [OF False] seq_do_def [of "pure _"] pure_def prod.case]
      show thesis
      proof (cases "?bc txs")
        case bc: (Ok rs)
        show thesis using body' unfolding bc result.case by (rule that(2) [OF Ok bc])
      qed (use body' that(1) in auto)
    qed
  qed (use assms that(1) in \<open>auto simp: discovery_interval_fold_def add_def seq_do_def query_def\<close>)
qed

text \<open>C34: An interval of discovery, however it ends, changes no table but those of peers and nodes, and every
  node it adds was announced in an answer to it, with a valid key that is not the key of the
  node itself.\<close>

theorem discovery_adds_announced:
  assumes "discovery_interval_fold x e ds = (r, ds')" "\<forall>infos. set (se_order e infos) \<subseteq> set infos"
  shows "peers_only x (se_key e) (\<Union> (set ` announced ` set (discovery_answers x e ds))) ds ds'"
proof -
  let ?infos = "\<Union> (set ` announced ` set (discovery_answers x e ds))"
  let ?I = "peers_only x (se_key e) ?infos ds"
  from assms(1) show ?thesis
  proof (cases rule: discovery_interval_asks)
    case 1
    then show ?thesis by (simp add: peers_only_refl)
  next
    case (2 txs rs)
    have da: "discovery_answers x e ds = rs" using 2(1,2) by (simp add: discovery_answers_def)
    have a: "set (announced (fst p)) \<subseteq> ?infos" if "p \<in> set (zip rs txs)" for p
    proof -
      have "fst p \<in> set rs" using that by (metis prod.collapse set_zip_leftD)
      then show ?thesis unfolding da by blast
    qed
    obtain w d where g: "gather_do (discovery_answer x e) (zip rs txs) ds = (w, d)" by fastforce
    have d: "?I d" using preservesD [OF preserves_gather_do, of "zip rs txs" ?I "discovery_answer x e" ds]
      discovery_answer_peers_only [OF a] peers_only_refl g by (metis snd_conv)
    show ?thesis
    proof (cases w)
      case (Ok found)
      have "set found \<subseteq> \<Union> ((\<lambda>p. set (announced (fst p))) ` set (zip rs txs))"
        using g Ok by (intro gather_do_results [OF discovery_answer_results]) auto
      also have "\<dots> \<subseteq> ?infos" using a by blast
      finally have "i \<in> ?infos" if "i \<in> set (se_order e (remdups found))" for i using that assms(2) by fastforce
      then have "preserves ?I (for_each_do (discover_info x e) (se_order e (remdups found)))"
        by (intro preserves_for_each_do discover_info_peers_only)
      from preservesD [OF this d] show ?thesis using 2(3) g Ok by (simp add: seq_do_def)
    qed (use 2(3) g d in \<open>simp_all add: seq_do_def\<close>)
  qed
qed

section \<open>Silence\<close>

lemma remove_node_effect:
  assumes "ds_fault ds = None" "public_key_validate x pk = Ok pk" "public_key_bytes x pk = Ok v"
  shows "remove_node x pk ds = (Ok (), ds \<lparr> ds_nodes := filter (\<lambda>q. nr_public_key q \<noteq> v) (ds_nodes ds) \<rparr>)"
proof (cases "tbl_lookup nr_public_key (ds_nodes ds) v")
  case None
  then have "filter (\<lambda>q. nr_public_key q \<noteq> v) (ds_nodes ds) = ds_nodes ds"
    by (force simp: tbl_lookup_def find_None_iff filter_id_conv)
  with None assms show ?thesis
    by (simp add: remove_node_def seq_do_def query_def pure_def peer_id_for_node_pk_def pool_def map_err_sqlx_def)
next
  case (Some q)
  let ?d = "ds \<lparr> ds_nodes := filter (\<lambda>q. nr_public_key q \<noteq> v) (ds_nodes ds) \<rparr>"
  have p: "peer_id_for_node_pk x pk ds = Ok (Some (peer_id_from_bytes (nr_peer_id q)))"
    using Some assms by (simp add: peer_id_for_node_pk_def pool_def map_err_sqlx_def)
  have d: "delete_node x pk ds = (Ok (), ?d)"
    using assms by (simp add: delete_node_def exec_def pool_def map_err_sqlx_def tbl_delete_def)
  show ?thesis using count_after_delete [OF d] by (simp add: remove_node_def seq_do_def query_def pure_def p d)
qed

text \<open>A row whose transaction is readable and names the row's key.\<close>

definition row_names_key :: "externals \<Rightarrow> node_row \<Rightarrow> Transaction \<Rightarrow> bool" where
  "row_names_key x r t \<longleftrightarrow> dec_transaction x (nr_tx r) = Inr t \<and> (\<exists>n k. node_metadata x t = Ok n \<and> nm_public_key n = Some k \<and>
     public_key_validate x k = Ok k \<and> public_key_bytes x k = Ok (nr_public_key r))"

lemma silent_answer:
  assumes "ds_fault ds = None" "row_names_key x r t"
  shows "discovery_answer x e (Err err, t) ds = (Ok [], ds \<lparr> ds_nodes := filter (\<lambda>q. nr_public_key q \<noteq> nr_public_key r) (ds_nodes ds) \<rparr>)"
  using assms
  by (auto simp: discovery_answer_def row_names_key_def node_key_def seq_do_def pure_def remove_node_effect)

lemma silent_answers:
  assumes "ds_fault ds = None" "list_all2 (row_names_key x) rows txs" "length errs = length txs"
  shows "gather_do (discovery_answer x e) (zip (map Err errs) txs) ds =
     (Ok [], ds \<lparr> ds_nodes := filter (\<lambda>q. nr_public_key q \<notin> nr_public_key ` set rows) (ds_nodes ds) \<rparr>)"
  using assms(2,3,1)
proof (induction rows txs arbitrary: errs ds rule: list_all2_induct)
  case Nil
  then show ?case by (simp add: pure_def)
next
  case (Cons r rows t txs)
  from Cons(4) obtain e1 errs' where es: "errs = e1 # errs'" "length errs' = length txs" by (cases errs) auto
  let ?d = "ds \<lparr> ds_nodes := filter (\<lambda>q. nr_public_key q \<noteq> nr_public_key r) (ds_nodes ds) \<rparr>"
  have "gather_do (discovery_answer x e) (zip (map Err errs') txs) ?d =
      (Ok [], ?d \<lparr> ds_nodes := filter (\<lambda>q. nr_public_key q \<notin> nr_public_key ` set rows) (ds_nodes ?d) \<rparr>)"
    using Cons(5) by (intro Cons(3) es(2)) simp
  then show ?case
    by (simp add: es seq_do_def pure_def silent_answer [OF Cons(5) Cons(1)] conj_commute)
qed

lemma named_keys:
  assumes "list_all2 (row_names_key x) rows txs"
  shows "length (List.map_filter (\<lambda>t. case node_metadata x t of Ok n \<Rightarrow> nm_public_key n | _ \<Rightarrow> None) txs) = length txs"
    and "try_map (\<lambda>r. proto_deserialize x (dec_transaction x) (nr_tx r)) rows = Ok txs"
proof -
  show "try_map (\<lambda>r. proto_deserialize x (dec_transaction x) (nr_tx r)) rows = Ok txs"
    unfolding try_map_eq_Ok proto_deserialize_eq_Ok
    by (rule list_all2_mono [OF assms]) (simp add: row_names_key_def)
qed (use assms in \<open>induction rows txs rule: list_all2_induct; auto simp: row_names_key_def List.map_filter_simps\<close>)

lemma silent_broadcast:
  assumes "\<forall>k q. nw_send nw k q = Inr () \<and> (\<exists>m. nw_reply nw k q = Inl m)"
  shows "\<exists>errs. broadcast_async x nw pks q = Ok (map Err errs) \<and> length errs = length pks"
proof -
  have s: "try_map (send_message_async x nw q) pks = Ok (map (\<lambda>k. nw_reply nw k q) pks)"
    using assms by (induction pks) (simp_all add: send_message_async_def channel_send_def lib_result_def)
  have "\<exists>err. recv_async_err x (nw_reply nw k q) = Err err" for k
    using assms by (metis lib_result_def recv_async_err_def sum.case(1))
  then obtain f where "\<And>k. recv_async_err x (nw_reply nw k q) = Err (f k)" by metis
  then have "broadcast_async x nw pks q = Ok (map Err (map f pks))" by (simp add: broadcast_async_def s)
  then show ?thesis by (metis length_map)
qed

lemma filter_keys:
  assumes "tbl_wf k t" "rows = filter p t"
  shows "filter (\<lambda>q. k q \<notin> k ` set rows) t = filter (\<lambda>q. q \<notin> set rows) t"
proof (rule filter_cong [OF refl])
  fix q assume "q \<in> set t"
  with assms show "(k q \<notin> k ` set rows) = (q \<notin> set rows)"
    by (auto simp: tbl_wf_def distinct_map inj_on_def)
qed

text \<open>C33: A node that is cut off from the network for one interval of discovery forgets every active peer:
  when all requests are sent and none is answered, every node that was active is deleted.\<close>

theorem silence_removes_active_nodes:
  assumes "ds_fault ds = None" "tbl_wf nr_public_key (ds_nodes ds)"
    and "\<forall>r \<in> set (active_rows (se_now e) None ds). \<exists>t. row_names_key x r t"
    and "\<forall>k q. nw_send (se_network e) k q = Inr () \<and> (\<exists>m. nw_reply (se_network e) k q = Inl m)"
    and "se_order e [] = []"
  shows "discovery_interval_fold x e ds =
     (Ok (), ds \<lparr> ds_nodes := filter (\<lambda>r. r \<notin> set (active_rows (se_now e) None ds)) (ds_nodes ds) \<rparr>)"
proof -
  let ?rows = "active_rows (se_now e) None ds"
  obtain f where "\<forall>r \<in> set ?rows. row_names_key x r (f r)" using bchoice [OF assms(3)] by blast
  then obtain txs where t: "list_all2 (row_names_key x) ?rows txs"
    by (metis (mono_tags) list_all2_map2 list_all2_same)
  have i: "active_node_info x (se_now e) None ds = Ok txs"
    using assms(1) named_keys(2) [OF t] by (simp add: active_node_info_def pool_def map_err_sqlx_def)
  let ?pks = "List.map_filter (\<lambda>t. case node_metadata x t of Ok n \<Rightarrow> nm_public_key n | _ \<Rightarrow> None) txs"
  obtain errs where b: "broadcast_async x (se_network e) ?pks (request_empty \<lparr> rq_get_peers_info_request := Some GetPeersInfoRequest \<rparr>) =
      Ok (map Err errs)" "length errs = length ?pks" using silent_broadcast [OF assms(4)] by blast
  note n = named_keys(1) [OF t]
  have "filter (\<lambda>q. nr_public_key q \<notin> nr_public_key ` set ?rows) (ds_nodes ds) = filter (\<lambda>q. q \<notin> set ?rows) (ds_nodes ds)"
    by (rule filter_keys [OF assms(2) active_rows_def])
  with silent_answers [OF assms(1) t, of errs e] b n show ?thesis
    by (simp add: discovery_interval_fold_def add_def seq_do_def query_def pure_def i Let_def assms(5))
qed

section \<open>What is offered to the mempool\<close>

text \<open>Announced by some node in its answer.\<close>

definition announced_hash :: "sync_env \<Rightarrow> Hash \<Rightarrow> bool" where
  "announced_hash e h \<longleftrightarrow> (\<exists>node res r. nw_reply (se_network e) node (request_empty \<lparr> rq_recent_transactions_request :=
     Some \<lparr> rdq_limit = None, rdq_min_time = None \<rparr> \<rparr>) = Inr res \<and>
     rs_recent_discovery_transactions_response res = Some r \<and> h \<in> set (rdr_transaction_hashes r))"

definition offers :: "externals \<Rightarrow> sync_env \<Rightarrow> sync_state \<Rightarrow> TransactionMessage \<Rightarrow> bool" where
  "offers x e s m \<longleftrightarrow> announced_hash e (hash_or x (tm_transaction m)) \<and>
     relay_transaction_known x (hash_or x (tm_transaction m)) (sy_relay s) = Ok False"

text \<open>What the knowledge of a transaction depends on is unchanged, and only offers were sent.\<close>

definition offering :: "externals \<Rightarrow> sync_env \<Rightarrow> sync_state \<Rightarrow> sync_state \<Rightarrow> bool" where
  "offering x e s s' \<longleftrightarrow> sy_relay s' \<lparr> rl_ds := rl_ds (sy_relay s) \<rparr> = sy_relay s \<and>
     ds_transactions (rl_ds (sy_relay s')) = ds_transactions (rl_ds (sy_relay s)) \<and>
     ds_fault (rl_ds (sy_relay s')) = ds_fault (rl_ds (sy_relay s)) \<and>
     (\<exists>ms. sy_mempool s' = sy_mempool s @ ms \<and> list_all (offers x e s) ms)"

lemma offering_known:
  assumes "offering x e s s'"
  shows "relay_transaction_known x h (sy_relay s') = relay_transaction_known x h (sy_relay s)"
proof -
  have r: "sy_relay s' \<lparr> rl_ds := rl_ds (sy_relay s) \<rparr> = sy_relay s" using assms by (simp add: offering_def)
  have "rl_mempool_entries (sy_relay s') = rl_mempool_entries (sy_relay s)"
    "rl_transaction_channels (sy_relay s') = rl_transaction_channels (sy_relay s)"
    using arg_cong [OF r, of rl_mempool_entries] arg_cong [OF r, of rl_transaction_channels] by simp_all
  then show ?thesis using assms
    by (simp add: relay_transaction_known_def query_maybe_transaction_def pool_def offering_def)
qed

lemma offering_in_ds:
  assumes "\<And>T F. preserves (\<lambda>ds. ds_transactions ds = T \<and> ds_fault ds = F) m"
  shows "preserves (offering x e s) (in_ds m)"
  unfolding preserves_def
proof (intro allI impI)
  fix s1 assume o: "offering x e s s1"
  obtain r d where m: "m (rl_ds (sy_relay s1)) = (r, d)" by fastforce
  with assms have "ds_transactions d = ds_transactions (rl_ds (sy_relay s1)) \<and> ds_fault d = ds_fault (rl_ds (sy_relay s1))"
    unfolding preserves_def by (metis snd_conv)
  with o m show "offering x e s (snd (in_ds m s1))" by (simp add: in_ds_def offering_def)
qed

lemma config_replace_keeps [preserves_rules]: "preserves (\<lambda>ds. ds_transactions ds = T \<and> ds_fault ds = F) (config_replace x c)"
  unfolding config_replace_def by (rule preserves_exec) (auto simp: result_simps)

lemma tx_in_distance_keeps: "preserves (\<lambda>ds. ds_transactions ds = T \<and> ds_fault ds = F) (tx_in_distance x e h)"
  unfolding tx_in_distance_def partition_info_def relay_node_metadata_def node_tx_def peer_tx_def set_node_tx_def set_peer_tx_def
    store_proto_ref_def insert_update_bytes_def Let_def
  by (intro preserves_rules)

lemma first_lookup_hash: "first_lookup x nw h q ps = Ok (Some t) \<Longrightarrow> hash_or x t = h"
  by (induction ps) (auto split: result.splits option.splits if_splits)

lemma send_mempool_offering:
  "offers x e s m \<Longrightarrow> preserves (offering x e s) (send_mempool x e m)"
  unfolding preserves_def send_mempool_def offering_def by (auto split: result.split)

lemma discover_hash_offering:
  assumes "announced_hash e h"
  shows "preserves (offering x e s) (discover_hash x e h)"
proof (cases "relay_transaction_known x h (sy_relay s) = Ok False")
  case True
  have look: "preserves (offering x e s) (seq_do (in_ds (query (lookup_transaction_serial x (se_network e) (se_now e) h)))
      (\<lambda>t. case t of None \<Rightarrow> pure (Ok ()) | Some tx \<Rightarrow> send_mempool x e \<lparr> tm_transaction = tx, tm_response_channel = None \<rparr>))"
    unfolding preserves_def
  proof (intro allI impI)
    fix s1 assume o: "offering x e s s1"
    let ?l = "lookup_transaction_serial x (se_network e) (se_now e) h (rl_ds (sy_relay s1))"
    have "offers x e s \<lparr> tm_transaction = t, tm_response_channel = None \<rparr>" if "?l = Ok (Some t)" for t
      using that assms True by (auto simp: offers_def lookup_transaction_serial_def and_then_eq_Ok dest!: first_lookup_hash)
    then show "offering x e s (snd (seq_do (in_ds (query (lookup_transaction_serial x (se_network e) (se_now e) h)))
        (\<lambda>t. case t of None \<Rightarrow> pure (Ok ()) | Some tx \<Rightarrow> send_mempool x e \<lparr> tm_transaction = tx, tm_response_channel = None \<rparr>) s1))"
      using o preservesD [OF send_mempool_offering o]
      by (cases ?l) (auto simp: seq_do_def in_ds_def query_def pure_def split: option.split)
  qed
  show ?thesis unfolding discover_hash_def
    by (intro preserves_rules offering_in_ds tx_in_distance_keeps look)
next
  case False
  show ?thesis unfolding preserves_def
  proof (intro allI impI)
    fix s1 assume o: "offering x e s s1"
    with False offering_known [OF o, of h] show "offering x e s (snd (discover_hash x e h s1))"
      by (cases "relay_transaction_known x h (sy_relay s)") (auto simp: discover_hash_def seq_do_def query_def pure_def)
  qed
qed

lemma discover_node_offering: "preserves (offering x e s) (discover_node x e node)"
  unfolding discover_node_def
proof (intro preserves_pure_then)
  fix res res' assume "send_message_async x (se_network e) (request_empty \<lparr> rq_recent_transactions_request :=
      Some \<lparr> rdq_limit = None, rdq_min_time = None \<rparr> \<rparr>) node = Ok res" "recv_async_err x res = Ok res'"
  then have a: "announced_hash e h" if "rs_recent_discovery_transactions_response res' = Some r" "h \<in> set (rdr_transaction_hashes r)" for r h
    using that by (auto simp: announced_hash_def send_message_async_def recv_async_err_def result_simps)
  show "preserves (offering x e s) (case rs_recent_discovery_transactions_response res' of None \<Rightarrow> pure (Ok ())
      | Some r \<Rightarrow> for_each_do (discover_hash x e) (rdr_transaction_hashes r))"
    using a by (cases "rs_recent_discovery_transactions_response res'")
      (auto intro!: preserves_pure preserves_for_each_do discover_hash_offering)
qed

text \<open>Discovery of transactions offers to the mempool only transactions whose hash some node announced
  and which the node did not know, neither waiting, in processing nor stored; it changes
  nothing that decides which transactions are known.\<close>

theorem data_discovery_offers_unknown:
  assumes "data_discovery_interval_fold x e s = (r, s')"
  shows "offering x e s s'"
proof -
  have "preserves (offering x e s) (data_discovery_interval_fold x e)"
    unfolding data_discovery_interval_fold_def
    by (intro preserves_seq_do offering_in_ds preserves_query preserves_for_each_do discover_node_offering)
  moreover have "offering x e s s" by (simp add: offering_def)
  ultimately show ?thesis using assms by (metis preservesD snd_conv)
qed

section \<open>Witnesses\<close>

definition silent_network :: network where
  "silent_network = \<lparr> nw_send = \<lambda>_ _. Inr (), nw_reply = \<lambda>_ _. Inl ''timeout'', nw_late = \<lambda>_ _. None \<rparr>"

definition announcing_network :: network where
  "announcing_network = \<lparr> nw_send = \<lambda>_ _. Inr (), nw_reply = \<lambda>_ _. Inr (empty_success \<lparr> rs_get_peers_info_response :=
     Some \<lparr> gpr_self_info = None, gpr_peer_info = [sample_pni] \<rparr> \<rparr>), nw_late = \<lambda>_ _. None \<rparr>"

definition sample_sync_env :: "network \<Rightarrow> sync_env" where
  "sample_sync_env nw = \<lparr> se_key = public_key_from_bytes [9], se_config = \<lparr> nc_network = Main, nc_finalization = 0, nc_seeds = [],
     nc_fixed_peer_tx = sample_peer_tx, nc_predicted_trust = Map.empty, nc_contract_buckets = 1 \<rparr>,
     se_fixed_node_tx = (\<lambda>_. sample_peer_tx), se_now = 5, se_network = nw, se_order = (\<lambda>is. is), se_deliver = (\<lambda>_. Inr ()) \<rparr>"

lemma node_store_active:
  "active_rows 5 None node_store = ds_nodes node_store" "ds_fault node_store = None" "tbl_wf nr_public_key (ds_nodes node_store)"
  by (simp_all add: node_store_def active_rows_def active_cutoff_def DAY_MILLIS_def empty_store_def tbl_wf_def)

lemma node_store_named: "r \<in> set (ds_nodes node_store) \<Longrightarrow> row_names_key (echo_ext sample_peer_tx) r sample_peer_tx"
proof -
  assume "r \<in> set (ds_nodes node_store)"
  then have "nr_public_key r = [1]" by (simp add: node_store_def)
  moreover have "safe_bytes x (pk_bytes (public_key_from_bytes v)) = Ok v" for x v by (simp add: public_key_from_bytes_def)
  moreover have "dec_transaction (echo_ext sample_peer_tx) bs = Inr sample_peer_tx" for bs by (simp add: echo_ext_def)
  ultimately show ?thesis
    by (simp add: row_names_key_def sample_peer_tx_sel sample_nmd_sel sample_public_key_def public_key_bytes_def
        public_key_validate_def to_lib_public_key_def) (simp add: echo_ext_def sample_ext_def lib_result_def)
qed

theorem silence_removes_active_nodes_witness:
  "\<exists>ds'. discovery_interval_fold (echo_ext sample_peer_tx) (sample_sync_env silent_network) node_store = (Ok (), ds') \<and>
     ds_nodes node_store \<noteq> [] \<and> ds_nodes ds' = []"
proof -
  have "discovery_interval_fold (echo_ext sample_peer_tx) (sample_sync_env silent_network) node_store = (Ok (), node_store \<lparr> ds_nodes :=
     filter (\<lambda>r. r \<notin> set (active_rows (se_now (sample_sync_env silent_network)) None node_store)) (ds_nodes node_store) \<rparr>)"
    by (rule silence_removes_active_nodes)
       (use node_store_active node_store_named in \<open>auto simp: sample_sync_env_def silent_network_def\<close>)
  moreover have "se_now (sample_sync_env silent_network) = 5" by (simp add: sample_sync_env_def)
  ultimately show ?thesis by (simp add: node_store_active) (simp add: node_store_def)
qed

theorem discovery_adds_announced_witness:
  "\<exists>r ds'. discovery_interval_fold (echo_ext sample_peer_tx) (sample_sync_env announcing_network) node_store = (r, ds') \<and>
     peers_only (echo_ext sample_peer_tx) (public_key_from_bytes [9]) {sample_pni} node_store ds'"
proof -
  let ?x = "echo_ext sample_peer_tx" and ?e = "sample_sync_env announcing_network"
  obtain r ds' where d: "discovery_interval_fold ?x ?e node_store = (r, ds')" by fastforce
  have e: "se_key ?e = public_key_from_bytes [9]" "se_now ?e = 5" "se_network ?e = announcing_network" "se_order ?e = (\<lambda>is. is)"
    by (simp_all add: sample_sync_env_def)
  have "list_all2 (row_names_key ?x) (ds_nodes node_store) [sample_peer_tx]"
    using node_store_named by (simp add: node_store_def)
  then have "active_node_info ?x 5 None node_store = Ok [sample_peer_tx]"
    using node_store_active by (simp add: active_node_info_def pool_def map_err_sqlx_def named_keys(2))
  then have "discovery_answers ?x ?e node_store = [Ok (empty_success \<lparr> rs_get_peers_info_response :=
      Some \<lparr> gpr_self_info = None, gpr_peer_info = [sample_pni] \<rparr> \<rparr>)]"
    by (simp add: discovery_answers_def e sample_peer_tx_sel sample_nmd_sel List.map_filter_simps broadcast_async_def
        send_message_async_def channel_send_def lib_result_def recv_async_err_def)
      (simp add: announcing_network_def recv_async_err_def)
  with discovery_adds_announced [OF d] d e show ?thesis by (auto simp: announced_def)
qed

definition hash_network :: network where
  "hash_network = \<lparr> nw_send = \<lambda>_ _. Inr (), nw_reply = \<lambda>_ _. Inr (empty_success \<lparr> rs_recent_discovery_transactions_response :=
     Some \<lparr> rdr_transaction_hashes = [hash_new [7]] \<rparr> \<rparr>), nw_late = \<lambda>_ _. None \<rparr>"

theorem data_discovery_offers_unknown_witness:
  "\<exists>r s'. data_discovery_interval_fold (echo_ext sample_peer_tx) (sample_sync_env hash_network)
       \<lparr> sy_relay = (mem_relay idle_mempool) \<lparr> rl_ds := node_store \<rparr>, sy_mempool = [some_message] \<rparr> = (r, s') \<and>
     (\<exists>ms. sy_mempool s' = some_message # ms)"
proof -
  let ?s = "\<lparr> sy_relay = (mem_relay idle_mempool) \<lparr> rl_ds := node_store \<rparr>, sy_mempool = [some_message] \<rparr>"
  obtain r s' where d: "data_discovery_interval_fold (echo_ext sample_peer_tx) (sample_sync_env hash_network) ?s = (r, s')" by fastforce
  with data_discovery_offers_unknown [OF d] show ?thesis by (auto simp: offering_def)
qed

end
