(* ===== verification/Recent_Download.thy ===== *)
theory Recent_Download
  imports Download Discovery
begin

text \<open>
  Storing the parents that the resolution of inputs met at other nodes, \<open>src/core/recent_download.rs\<close>,
  and asking peers whether an output is unspent (\<open>utxo_id_valid_peers\<close> of \<open>src/core/relay.rs\<close>).
  The queue of resolved inputs is a field of the state; \<open>order\<close> is the iteration order of a hash
  map of transactions.  Trust values are exact rationals.
\<close>

section \<open>Asking peers whether an output is unspent\<close>

text \<open>One answer: the trust of the answering node is added or subtracted, and added to the child it names.\<close>

definition name_child :: "UtxoValidResponse \<Rightarrow> rat \<Rightarrow> (Transaction \<times> rat) list \<Rightarrow> (Transaction \<times> rat) list" where
  "name_child utxo_r t hm = (case (uvr_child_transaction utxo_r, uvr_child_transaction_input utxo_r) of
     (Some h, Some _) \<Rightarrow> AList.update h (case map_of hm h of Some c \<Rightarrow> c + t | None \<Rightarrow> t) hm
   | _ \<Rightarrow> hm)"

definition tally_answer ::
    "externals \<Rightarrow> node_config \<Rightarrow> Response rg_result \<Rightarrow> rat \<times> (Transaction \<times> rat) list \<Rightarrow>
     (data_store, rat \<times> (Transaction \<times> rat) list) action" where
  "tally_answer x cfg r acc = (case acc of (trust_sum, hm) \<Rightarrow> (case r of
     Ok res \<Rightarrow> (case (Option.bind (rs_proof res) pr_public_key, rs_utxo_valid_response res) of
         (Some pk, Some utxo_r) \<Rightarrow> (case uvr_valid utxo_r of
             Some v \<Rightarrow> seq_do (get_trust_of_node x cfg pk) (\<lambda>t. case t of
                 Some t \<Rightarrow> pure (Ok (if v then trust_sum + t else trust_sum - t, name_child utxo_r t hm))
               | None \<Rightarrow> pure (Ok (trust_sum, hm)))
           | None \<Rightarrow> pure (Ok (trust_sum, hm)))
       | _ \<Rightarrow> pure (Ok (trust_sum, hm)))
   | _ \<Rightarrow> pure (Ok (trust_sum, hm))))"

fun tally :: "externals \<Rightarrow> node_config \<Rightarrow> Response rg_result list \<Rightarrow> rat \<times> (Transaction \<times> rat) list \<Rightarrow>
    (data_store, rat \<times> (Transaction \<times> rat) list) action" where
  "tally x cfg [] acc = pure (Ok acc)"
| "tally x cfg (r # rs) acc = seq_do (tally_answer x cfg r acc) (tally x cfg rs)"

definition utxo_id_valid_peers ::
    "externals \<Rightarrow> sync_env \<Rightarrow> ((Transaction \<times> rat) list \<Rightarrow> (Transaction \<times> rat) list) \<Rightarrow> UtxoId \<Rightarrow>
     (data_store, Transaction option) action" where
  "utxo_id_valid_peers x e order utxo_id =
     seq_do (pure (utxo_id_as_hash x utxo_id)) (\<lambda>h.
     seq_do (query (peers_near x (se_now e) h pai_utxo)) (\<lambda>peers.
     seq_do (pure (broadcast_async x (se_network e) peers (request_empty \<lparr> rq_utxo_valid_request := Some utxo_id \<rparr>))) (\<lambda>res.
     seq_do (tally x (se_config e) res (0, [])) (\<lambda>(trust_sum, hm).
     let tx = map_option fst (max_by snd (order hm)) in
     pure (Ok (if 0 < trust_sum then None else tx))))))"

section \<open>Processing a resolved input\<close>

record recent_state =
  rec_relay :: relay
  rec_unknown :: "ResolvedInput list"

definition on_rec :: "(data_store, 'a) action \<Rightarrow> (recent_state, 'a) action" where
  "on_rec m s = (case m (rl_ds (rec_relay s)) of (r, ds) \<Rightarrow> (r, s \<lparr> rec_relay := rec_relay s \<lparr> rl_ds := ds \<rparr> \<rparr>))"

text \<open>Whether a node trusted by more than a half observed the parent.\<close>

fun trusted_observer :: "externals \<Rightarrow> node_config \<Rightarrow> PublicKey list \<Rightarrow> bool \<Rightarrow> (data_store, bool) action" where
  "trusted_observer x cfg [] store = pure (Ok store)"
| "trusted_observer x cfg (pk # pks) store =
     seq_do (get_trust_of_node x cfg pk) (\<lambda>t.
     trusted_observer x cfg pks (case t of Some t \<Rightarrow> store \<or> 1 / 2 < t | None \<Rightarrow> store))"

definition store_output ::
    "externals \<Rightarrow> sync_env \<Rightarrow> ((Transaction \<times> rat) list \<Rightarrow> (Transaction \<times> rat) list) \<Rightarrow> UtxoEntry \<Rightarrow> (recent_state, unit) action" where
  "store_output x e order u = (case ue_utxo_id u of
     None \<Rightarrow> pure (Ok ())
   | Some i \<Rightarrow>
       seq_do (on_rec (query (utxo_used x i))) (\<lambda>used.
       if used \<noteq> None then pure (Ok ()) else
       seq_do (on_rec (utxo_id_valid_peers x e order i)) (\<lambda>valid.
       if valid \<noteq> None then pure (Ok ()) else
       seq_do (on_rec (insert_utxo x u)) (\<lambda>_.
       seq_do (query (\<lambda>s. Ok (rl_utxo_channels (rec_relay s) i \<noteq> None))) (\<lambda>held.
       if held then pure (Ok ()) else on_rec (insert_utxo x u))))))"

definition send_unknown :: "externals \<Rightarrow> (ResolvedInput \<Rightarrow> string + unit) \<Rightarrow> ResolvedInput \<Rightarrow> (recent_state, unit) action" where
  "send_unknown x sent r s = (case channel_send x (sent r) of
     Ok _ \<Rightarrow> (Ok (), s \<lparr> rec_unknown := rec_unknown s @ [r] \<rparr>) | Err err \<Rightarrow> (Err err, s) | Panic p \<Rightarrow> (Panic p, s))"

definition follow_input ::
    "externals \<Rightarrow> sync_env \<Rightarrow> (ResolvedInput \<Rightarrow> string + unit) \<Rightarrow> Hash \<Rightarrow> Input \<Rightarrow> (recent_state, unit) action" where
  "follow_input x e sent signable input = (case Option.bind (i_utxo_id input) u_transaction_hash of
     None \<Rightarrow> pure (Ok ())
   | Some h \<Rightarrow>
       seq_do (on_rec (query (transaction_known x h))) (\<lambda>known.
       if known then pure (Ok ()) else
       (\<lambda>s. case resolve_input x (se_network e) (se_now e) input signable False (rl_ds (rec_relay s)) of
          Ok r \<Rightarrow> send_unknown x sent r s
        | Err _ \<Rightarrow> (Ok (), s)
        | Panic p \<Rightarrow> (Panic p, s))))"

definition process_resolved_input ::
    "externals \<Rightarrow> sync_env \<Rightarrow> ((Transaction \<times> rat) list \<Rightarrow> (Transaction \<times> rat) list) \<Rightarrow>
     (ResolvedInput \<Rightarrow> string + unit) \<Rightarrow> ResolvedInput \<Rightarrow> (recent_state, unit) action" where
  "process_resolved_input x e order sent update = (let parent = ri_parent_transaction update in
     seq_do (on_rec (tx_in_distance x e (hash_or x parent))) (\<lambda>within_distance.
     if \<not> within_distance then pure (Ok ()) else
     seq_do (on_rec (trusted_observer x (se_config e)
       (List.map_filter (\<lambda>o1. Option.bind (op_proof o1) pr_public_key) (ri_observation_proofs update)) False)) (\<lambda>store.
     if \<not> store then pure (Ok ()) else
     seq_do (pure (time x parent)) (\<lambda>tm.
     seq_do (on_rec (insert_transaction x parent tm True None False)) (\<lambda>_.
     seq_do (for_each_do (store_output x e order) (case utxo_outputs x parent of Ok us \<Rightarrow> us | _ \<Rightarrow> [])) (\<lambda>_.
     for_each_do (follow_input x e sent (signable_hash x parent)) (t_inputs parent)))))))"

definition recent_interval_fold ::
    "externals \<Rightarrow> sync_env \<Rightarrow> ((Transaction \<times> rat) list \<Rightarrow> (Transaction \<times> rat) list) \<Rightarrow>
     (ResolvedInput \<Rightarrow> string + unit) \<Rightarrow> bool \<Rightarrow> (recent_state, unit) action" where
  "recent_interval_fold x e order sent disconnected =
     seq_do (\<lambda>s. (recv_while x disconnected (rec_unknown s), s \<lparr> rec_unknown := [] \<rparr>)) (\<lambda>updates.
     for_each_do (process_resolved_input x e order sent) updates)"

section \<open>What successful runs keep\<close>

definition ok_keeps :: "('s \<Rightarrow> bool) \<Rightarrow> ('s, 'a) action \<Rightarrow> bool" where
  "ok_keeps I m \<longleftrightarrow> (\<forall>s a s'. I s \<longrightarrow> m s = (Ok a, s') \<longrightarrow> I s')"

named_theorems ok_rules

lemma ok_keepsD: "ok_keeps I m \<Longrightarrow> I s \<Longrightarrow> m s = (Ok a, s') \<Longrightarrow> I s'"
  unfolding ok_keeps_def by blast

lemma ok_keeps_preserves: "preserves I m \<Longrightarrow> ok_keeps I m"
  unfolding ok_keeps_def by (auto dest: preservesD)

lemma ok_keeps_seq_do [ok_rules]:
  assumes "ok_keeps I m" "\<And>a. ok_keeps I (f a)"
  shows "ok_keeps I (seq_do m f)"
  unfolding ok_keeps_def
proof (intro allI impI)
  fix s b s' assume "I s" "seq_do m f s = (Ok b, s')"
  then obtain a t where "m s = (Ok a, t)" "f a t = (Ok b, s')" unfolding seq_do_eq_Ok by blast
  with ok_keepsD [OF assms(1) \<open>I s\<close>] show "I s'" using ok_keepsD [OF assms(2)] by blast
qed

lemma ok_keeps_if [ok_rules]: "ok_keeps I m \<Longrightarrow> ok_keeps I m' \<Longrightarrow> ok_keeps I (if b then m else m')"
  by simp

lemma ok_keeps_option [ok_rules]:
  "ok_keeps I m \<Longrightarrow> (\<And>a. ok_keeps I (f a)) \<Longrightarrow> ok_keeps I (case v of None \<Rightarrow> m | Some a \<Rightarrow> f a)"
  by (simp split: option.split)

lemma ok_keeps_basic [ok_rules]: "ok_keeps I (pure r)" "ok_keeps I (query q)"
  by (rule ok_keeps_preserves, rule preserves_pure) (rule ok_keeps_preserves, rule preserves_query)

lemma ok_keeps_for_each [ok_rules]: "(\<And>y. ok_keeps I (f y)) \<Longrightarrow> ok_keeps I (for_each_do f ys)"
  by (induction ys) (auto intro!: ok_rules)

lemma ok_keeps_ticks: "(\<And>k. ok_keeps I (f k)) \<Longrightarrow> ok_keeps I (fold_ticks f k n)"
  by (induction n arbitrary: k) (auto intro!: ok_rules)

section \<open>Outputs that the recent download stores\<close>

definition held_row :: "externals \<Rightarrow> (UtxoId \<Rightarrow> UTXOContentionPool option) \<Rightarrow> utxo_row \<Rightarrow> bool" where
  "held_row x channels row \<longleftrightarrow> (\<exists>u i. ue_utxo_id u = Some i \<and> channels i \<noteq> None \<and> utxo_row_of x u = Ok row)"

definition stored_held :: "externals \<Rightarrow> recent_state \<Rightarrow> recent_state \<Rightarrow> bool" where
  "stored_held x s s' \<longleftrightarrow> rl_utxo_channels (rec_relay s') = rl_utxo_channels (rec_relay s) \<and>
     (\<forall>row \<in> set (ds_utxo (rl_ds (rec_relay s'))).
        row \<in> set (ds_utxo (rl_ds (rec_relay s))) \<or> held_row x (rl_utxo_channels (rec_relay s)) row)"

lemma config_replace_keeps_utxo [preserves_rules]: "preserves (\<lambda>ds. ds_utxo ds = U) (config_replace x c)"
  unfolding config_replace_def by (rule preserves_exec) (auto simp: result_simps)

lemma get_trust_keeps_utxo [preserves_rules]: "preserves (\<lambda>ds. ds_utxo ds = U) (get_trust_of_node x cfg pk)"
  unfolding get_trust_of_node_def get_trust_def peer_tx_def set_peer_tx_def store_proto_ref_def insert_update_bytes_def
  by (intro preserves_rules)

lemma tally_answer_keeps_utxo: "preserves (\<lambda>ds. ds_utxo ds = U) (tally_answer x cfg r acc)"
  unfolding tally_answer_def
  by (simp split: prod.split result.split option.split add: preserves_rules)

lemma queries_keep_utxo:
  "preserves (\<lambda>ds. ds_utxo ds = U) (tx_in_distance x e h)"
  "preserves (\<lambda>ds. ds_utxo ds = U) (trusted_observer x cfg pks b)"
  "preserves (\<lambda>ds. ds_utxo ds = U) (tally x cfg rs acc)"
proof -
  show "preserves (\<lambda>ds. ds_utxo ds = U) (tx_in_distance x e h)"
    unfolding tx_in_distance_def partition_info_def relay_node_metadata_def node_tx_def peer_tx_def set_node_tx_def set_peer_tx_def
      store_proto_ref_def insert_update_bytes_def Let_def
    by (intro preserves_rules)
  show "preserves (\<lambda>ds. ds_utxo ds = U) (trusted_observer x cfg pks b)"
    by (induction pks arbitrary: b) (simp_all only: trusted_observer.simps preserves_rules)
  show "preserves (\<lambda>ds. ds_utxo ds = U) (tally x cfg rs acc)"
    by (induction rs arbitrary: acc) (simp_all only: tally.simps preserves_rules tally_answer_keeps_utxo)
qed

lemma valid_peers_keeps_utxo: "preserves (\<lambda>ds. ds_utxo ds = U) (utxo_id_valid_peers x e order i)"
  unfolding utxo_id_valid_peers_def
  by (intro preserves_seq_do preserves_pure preserves_query queries_keep_utxo) (simp add: Let_def preserves_pure split: prod.split)

lemma on_rec_stored_held:
  assumes "\<And>U. preserves (\<lambda>ds. ds_utxo ds = U) m"
  shows "preserves (stored_held x s) (on_rec m)"
  unfolding preserves_def
proof (intro allI impI)
  fix t assume h: "stored_held x s t"
  obtain r d where m: "m (rl_ds (rec_relay t)) = (r, d)" by fastforce
  then have "ds_utxo d = ds_utxo (rl_ds (rec_relay t))"
    using preservesD [OF assms [of "ds_utxo (rl_ds (rec_relay t))"], of "rl_ds (rec_relay t)"] by simp
  with h m show "stored_held x s (snd (on_rec m t))" by (simp add: on_rec_def stored_held_def)
qed

text \<open>The two insertions: the second one succeeds for no output.\<close>

lemma insert_utxo_once: "insert_utxo x u ds = (Ok a, ds1) \<Longrightarrow> insert_utxo x u ds1 \<noteq> (Ok b, ds2)"
  by (auto simp: insert_utxo_eq_Ok unspent_append tbl_lookup_def split: option.splits)

lemma insert_output_held:
  assumes "ue_utxo_id u = Some i"
  shows "ok_keeps (stored_held x s) (seq_do (on_rec (insert_utxo x u)) (\<lambda>_.
       seq_do (query (\<lambda>s. Ok (rl_utxo_channels (rec_relay s) i \<noteq> None))) (\<lambda>held.
       if held then pure (Ok ()) else on_rec (insert_utxo x u))))"
  unfolding ok_keeps_def
proof (intro allI impI)
  fix t a t' assume h: "stored_held x s t" and r: "seq_do (on_rec (insert_utxo x u)) (\<lambda>_.
       seq_do (query (\<lambda>s. Ok (rl_utxo_channels (rec_relay s) i \<noteq> None))) (\<lambda>held.
       if held then pure (Ok ()) else on_rec (insert_utxo x u))) t = (Ok a, t')"
  obtain w d where w: "insert_utxo x u (rl_ds (rec_relay t)) = (w, d)" by fastforce
  let ?t = "t \<lparr> rec_relay := rec_relay t \<lparr> rl_ds := d \<rparr> \<rparr>"
  from r w have ok: "w = Ok ()" by (cases w) (auto simp: seq_do_def on_rec_def)
  show "stored_held x s t'"
  proof (cases "rl_utxo_channels (rec_relay t) i")
    case None
    with r w ok obtain d2 where "insert_utxo x u d = (Ok a, d2)"
      by (auto simp: seq_do_def on_rec_def query_def split: prod.splits)
    with insert_utxo_once w ok show ?thesis by blast
  next
    case (Some c)
    with r w ok have t': "t' = ?t" by (simp add: seq_do_def on_rec_def query_def pure_def)
    from w ok obtain row where "utxo_row_of x u = Ok row" "ds_utxo d = ds_utxo (rl_ds (rec_relay t)) @ [row]"
      by (auto simp: insert_utxo_eq_Ok)
    moreover from this h Some assms have "held_row x (rl_utxo_channels (rec_relay s)) row"
      unfolding held_row_def stored_held_def by (intro exI [of _ u] exI [of _ i]) simp
    ultimately show ?thesis using h unfolding t' by (auto simp: stored_held_def)
  qed
qed

lemma store_output_held: "ok_keeps (stored_held x s) (store_output x e order u)"
proof (cases "ue_utxo_id u")
  case (Some i)
  show ?thesis unfolding store_output_def Some option.case
    by (intro ok_keeps_seq_do ok_keeps_if ok_keeps_basic insert_output_held [OF Some]
        ok_keeps_preserves [OF on_rec_stored_held] preserves_query valid_peers_keeps_utxo)
qed (simp add: store_output_def ok_rules)

lemma follow_input_held: "ok_keeps (stored_held x s) (follow_input x e sent h i)"
proof -
  have s: "stored_held x s (t \<lparr> rec_unknown := q \<rparr>)" if "stored_held x s t" for t q using that by (simp add: stored_held_def)
  have "ok_keeps (stored_held x s) (\<lambda>s. case resolve_input x (se_network e) (se_now e) i h False (rl_ds (rec_relay s)) of
          Ok r \<Rightarrow> send_unknown x sent r s | Err _ \<Rightarrow> (Ok (), s) | Panic p \<Rightarrow> (Panic p, s))"
    by (auto simp: ok_keeps_def send_unknown_def intro: s split: result.splits)
  then show ?thesis unfolding follow_input_def
    by (intro ok_rules ok_keeps_preserves [OF on_rec_stored_held] preserves_query)
qed

lemma process_resolved_input_held: "ok_keeps (stored_held x s) (process_resolved_input x e order sent update)"
  unfolding process_resolved_input_def Let_def
  by (intro ok_rules ok_keeps_preserves [OF on_rec_stored_held] queries_keep_utxo keep_utxo store_output_held follow_input_held)

text \<open>C17: The recent download ends itself: as long as all of its intervals have succeeded it has stored only
  outputs that some transaction task holds, since an output that nobody holds is inserted
  twice, the second insertion violates the key of the table, and the error stops the
  interval for good.\<close>

theorem recent_download_stores_held:
  assumes "run_interval_inner (\<lambda>k. recent_interval_fold x (e k) order sent disconnected) at_start n s = (Ok (), s')"
  shows "stored_held x s s'"
proof -
  have t: "stored_held x s (t \<lparr> rec_unknown := q \<rparr>)" if "stored_held x s t" for t q using that by (simp add: stored_held_def)
  have "ok_keeps (stored_held x s) (recent_interval_fold x (e k) order sent disconnected)" for k
    unfolding recent_interval_fold_def
    by (rule ok_keeps_seq_do) (auto simp: ok_keeps_def [of _ "\<lambda>s. (_ s, _ s)"] t intro!: ok_rules process_resolved_input_held)
  then have "ok_keeps (stored_held x s) (run_interval_inner (\<lambda>k. recent_interval_fold x (e k) order sent disconnected) at_start n)"
    unfolding run_interval_inner_def by (intro ok_rules ok_keeps_ticks)
  moreover have "stored_held x s s" by (simp add: stored_held_def)
  ultimately show ?thesis using assms by (rule ok_keepsD)
qed

definition recent_update :: ResolvedInput where
  "recent_update = (resolved_spend (hash_new [])) \<lparr> ri_parent_transaction := sample_peer_tx \<rparr>"

definition recent_sample :: "ResolvedInput list \<Rightarrow> recent_state" where
  "recent_sample us = \<lparr> rec_relay = (mem_relay idle_mempool) \<lparr> rl_ds := node_store \<lparr> ds_config :=
       [\<lparr> cr_key_name = ''node_tx'', cr_value_data = None, cr_value_bytes = Some [] \<rparr>] \<rparr> \<rparr>, rec_unknown = us \<rparr>"

lemma sample_distance:
  "\<exists>b. tx_in_distance (echo_ext sample_peer_tx) (sample_sync_env nw) (hash_or (echo_ext sample_peer_tx) sample_peer_tx)
     (rl_ds (rec_relay (recent_sample us))) = (Ok b, rl_ds (rec_relay (recent_sample us)))"
proof -
  let ?x = "echo_ext sample_peer_tx" and ?ds = "rl_ds (rec_relay (recent_sample us))"
  obtain q where h: "hash_or ?x sample_peer_tx = digest ?x q" using sample_peer_tx_sel(3) by blast
  obtain d where d: "xorfc_hash ?x (digest ?x q) (public_key_from_bytes [9]) = Ok d"
    by (simp add: xorfc_hash_def xorf_conv_distance_def public_key_bytes_def public_key_from_bytes_def)
  have "ds_fault ?ds = None" by (simp add: recent_sample_def node_store_def)
  moreover have "ds_config ?ds = [\<lparr> cr_key_name = ''node_tx'', cr_value_data = None, cr_value_bytes = Some [] \<rparr>]"
    by (simp add: recent_sample_def)
  moreover have "proto_deserialize ?x (dec_transaction ?x) [] = Ok sample_peer_tx" by (simp add: proto_deserialize_eq_Ok echo_ext_def)
  ultimately have "get_node_tx ?x ?ds = Ok (Some sample_peer_tx)"
    by (simp add: get_node_tx_def get_maybe_proto_def select_config_bytes_def pool_def map_err_sqlx_def tbl_lookup_def)
  then have "partition_info ?x (sample_sync_env nw) ?ds = (Ok (nm_partition_info sample_nmd), ?ds)"
    by (simp add: partition_info_def relay_node_metadata_def node_tx_def seq_do_def query_def pure_def sample_peer_tx_sel)
  moreover have "se_key (sample_sync_env nw) = public_key_from_bytes [9]" by (simp add: sample_sync_env_def)
  ultimately show ?thesis using h d by (simp add: tx_in_distance_def seq_do_def pure_def tx_hash_distance_def)
qed

lemma recent_sample_tick:
  "recent_interval_fold (echo_ext sample_peer_tx) (sample_sync_env nw) (\<lambda>h. h) (\<lambda>_. Inr ()) False (recent_sample us) =
     (Ok (), recent_sample [])" if "us = [] \<or> us = [recent_update]"
proof -
  have q: "recent_sample v \<lparr> rec_unknown := [] \<rparr> = recent_sample []" "recent_state.rec_unknown (recent_sample v) = v" for v
    by (simp_all add: recent_sample_def)
  obtain b where d: "tx_in_distance (echo_ext sample_peer_tx) (sample_sync_env nw) (hash_or (echo_ext sample_peer_tx) sample_peer_tx)
     (rl_ds (rec_relay (recent_sample []))) = (Ok b, rl_ds (rec_relay (recent_sample [])))" using sample_distance by blast
  have "process_resolved_input (echo_ext sample_peer_tx) (sample_sync_env nw) (\<lambda>h. h) (\<lambda>_. Inr ()) recent_update (recent_sample []) =
      (Ok (), recent_sample [])"
    using d by (simp add: process_resolved_input_def Let_def recent_update_def resolved_spend_def seq_do_def on_rec_def pure_def
        List.map_filter_simps)
  with that show ?thesis
    by (elim disjE) (simp_all add: recent_interval_fold_def seq_do_def recv_while_def q pure_def)
qed

theorem recent_download_stores_held_witness:
  "\<exists>s'. run_interval_inner (\<lambda>k. recent_interval_fold (echo_ext sample_peer_tx) (sample_sync_env silent_network) (\<lambda>h. h)
        (\<lambda>_. Inr ()) False) True 2 (recent_sample [recent_update]) = (Ok (), s') \<and> rec_unknown s' = [] \<and>
     ds_utxo (rl_ds (rec_relay s')) = []"
proof -
  let ?f = "\<lambda>k :: nat. recent_interval_fold (echo_ext sample_peer_tx) (sample_sync_env silent_network) (\<lambda>h. h) (\<lambda>_. Inr ()) False"
  have r: "run_interval_inner ?f True 2 (recent_sample [recent_update]) = (Ok (), recent_sample [])"
    by (simp add: run_interval_inner_def seq_do_def recent_sample_tick numeral_2_eq_2 pure_def)
  have "stored_held (echo_ext sample_peer_tx) (recent_sample [recent_update]) (recent_sample [])"
    using recent_download_stores_held [OF r] .
  then have "ds_utxo (rl_ds (rec_relay (recent_sample []))) = []"
    by (auto simp: stored_held_def held_row_def recent_sample_def node_store_def empty_store_def idle_mempool_def mempool_new_def)
  with r show ?thesis by (simp add: recent_sample_def)
qed

section \<open>Verdicts of the peers\<close>

lemma tally_without_child:
  assumes "\<forall>r \<in> set rs. \<forall>res u. r = Ok res \<longrightarrow> rs_utxo_valid_response res = Some u \<longrightarrow>
      uvr_child_transaction u = None \<or> uvr_child_transaction_input u = None"
  shows "tally x cfg rs (c, hm) ds = (Ok (c', hm'), ds') \<Longrightarrow> hm' = hm"
  using assms
proof (induction rs arbitrary: c ds)
  case (Cons r rs)
  from Cons.prems(1) obtain acc d where a: "tally_answer x cfg r (c, hm) ds = (Ok acc, d)" "tally x cfg rs acc d = (Ok (c', hm'), ds')"
    by (auto simp: seq_do_eq_Ok)
  have n: "name_child u t hm = hm" if "r = Ok res" "rs_utxo_valid_response res = Some u" for res u t
    using Cons.prems(2) that by (auto simp: name_child_def split: option.split)
  have "snd acc = hm" using a(1)
    by (auto simp: tally_answer_def seq_do_eq_Ok pure_eq n split: result.splits option.splits prod.splits)
  with a(2) Cons.IH [of "fst acc" d] Cons.prems(2) show ?case by (cases acc) auto
qed (simp add: pure_def)

lemma broadcast_reply:
  assumes "broadcast_async x nw ps q = Ok rs" "Ok res \<in> set rs"
  shows "\<exists>k. nw_reply nw k q = Inr res"
proof -
  from assms(1) obtain as where as: "list_all2 (\<lambda>p a. send_message_async x nw q p = Ok a) ps as" "rs = map (recv_async_err x) as"
    by (auto simp: broadcast_async_def and_then_eq_Ok try_map_eq_Ok)
  from assms(2) as(2) obtain a where a: "a \<in> set as" "recv_async_err x a = Ok res" by auto
  then have "a = Inr res" by (auto simp: recv_async_err_def lib_result_eq_Ok)
  moreover from as(1) a(1) obtain p where "send_message_async x nw q p = Ok a" by (auto simp: list_all2_conv_all_nth in_set_conv_nth)
  ultimately show ?thesis by (auto simp: send_message_async_def and_then_eq_Ok)
qed

text \<open>A verdict of the peers against an output counts only if it names the transaction that spent it:
  when no answer does, the output is taken as valid, although every answer may have called
  it invalid, or none may have come.\<close>

theorem childless_verdicts_are_valid:
  assumes "utxo_id_valid_peers x e order i ds = (Ok v, ds')" "order [] = []"
    and "\<forall>k q res u. nw_reply (se_network e) k q = Inr res \<longrightarrow> rs_utxo_valid_response res = Some u \<longrightarrow>
      uvr_child_transaction u = None \<or> uvr_child_transaction_input u = None"
  shows "v = None"
proof -
  from assms(1) obtain ps rs c hm d where b: "broadcast_async x (se_network e) ps (request_empty \<lparr> rq_utxo_valid_request := Some i \<rparr>) = Ok rs"
    and t: "tally x (se_config e) rs (0, []) d = (Ok (c, hm), ds')"
    and v: "v = (if 0 < c then None else map_option fst (max_by snd (order hm)))"
    by (auto simp: utxo_id_valid_peers_def seq_do_eq_Ok pure_eq query_eq Let_def split: prod.splits) metis
  have "\<forall>r \<in> set rs. \<forall>res u. r = Ok res \<longrightarrow> rs_utxo_valid_response res = Some u \<longrightarrow>
      uvr_child_transaction u = None \<or> uvr_child_transaction_input u = None"
    using broadcast_reply [OF b] assms(3) by metis
  from tally_without_child [OF this t] show ?thesis using v assms(2) by (simp add: max_by_def)
qed

text \<open>A peer that calls every output invalid without naming a child.\<close>

definition denying_network :: network where
  "denying_network = \<lparr> nw_send = \<lambda>_ _. Inr (), nw_reply = \<lambda>_ _. Inr (empty_success \<lparr> rs_utxo_valid_response :=
     Some \<lparr> uvr_valid = Some False, uvr_child_transaction = None, uvr_child_transaction_input = None \<rparr> \<rparr>), nw_late = \<lambda>_ _. None \<rparr>"

theorem childless_verdicts_are_valid_witness:
  "\<exists>ds'. utxo_id_valid_peers (echo_ext near_tx) (sample_sync_env denying_network) (\<lambda>h. h) (utxo_id_new (hash_new [7]) 0)
     near_store = (Ok None, ds')"
proof -
  let ?x = "echo_ext near_tx" and ?e = "sample_sync_env denying_network"
  obtain w ds' where w: "utxo_id_valid_peers ?x ?e (\<lambda>h. h) (utxo_id_new (hash_new [7]) 0) near_store = (w, ds')" by fastforce
  let ?r = "empty_success \<lparr> rs_utxo_valid_response := Some \<lparr> uvr_valid = Some False, uvr_child_transaction = None,
    uvr_child_transaction_input = None \<rparr> \<rparr>"
  have nm: "node_metadata ?x near_tx = Ok (sample_nmd \<lparr> nm_partition_info := None \<rparr>)"
    by (simp add: node_metadata_def near_tx_def output_from_data_def standard_data_default_def List.map_filter_simps
        index_def output_default_def)
  have near: "peers_near ?x 5 h pai_utxo near_store = Ok [sample_public_key]" for h
    by (simp add: peers_near_def active_node_info_def pool_def map_err_sqlx_def near_store_def active_rows_def active_cutoff_def
        DAY_MILLIS_def proto_deserialize_def echo_ext_def nm [unfolded echo_ext_def] hash_in_range_def sample_nmd_sel List.map_filter_simps)
  have b: "broadcast_async ?x denying_network [sample_public_key] q = Ok [Ok ?r]" for q
    by (simp add: broadcast_async_def send_message_async_def channel_send_def lib_result_def denying_network_def recv_async_err_def)
  have "rs_proof ?r = None" by (simp add: empty_success_def response_default_def)
  then have t: "tally ?x cfg [Ok ?r] acc ds = (Ok acc, ds)" for cfg acc ds
    by (cases acc) (simp add: tally_answer_def seq_do_def pure_def)
  have "utxo_id_as_hash ?x (utxo_id_new (hash_new [7]) 0) = Ok (hash_new ([7] @ to_le_bytes (0 :: i64)) \<lparr> h_hash_type := hash_type_i32 HT_UtxoId \<rparr>)"
    by (simp add: utxo_id_as_hash_def utxo_id_vec_def utxo_id_new_def)
  then have "\<exists>v. w = Ok v" using w near b t
    by (auto simp: utxo_id_valid_peers_def seq_do_def pure_def query_def sample_sync_env_def Let_def)
  then show ?thesis using w childless_verdicts_are_valid [of ?x ?e "\<lambda>h. h"]
    by (auto simp: sample_sync_env_def denying_network_def empty_success_def)
qed

end
