(* ===== verification/Node_Metadata.thy ===== *)
theory Node_Metadata
  imports Discovery Tx_Builder
begin

text \<open>
  What a node says of itself: the transactions that its configuration generates
  (\<open>src/node_config.rs\<close>) and the metadata operations of the relay (\<open>src/core/relay.rs\<close>).  The key
  pairs derived from the mnemonic, the build number and a peer transaction found in the
  data folder are fields of the configuration.
\<close>

section \<open>Configuration\<close>

record NodeConfig =
  cfg_network :: NetworkEnvironment
  cfg_peer_id :: PeerId
  cfg_port_offset :: "16 word"
  cfg_p2p_port :: "16 word option"
  cfg_control_port :: "16 word option"
  cfg_public_port :: "16 word option"
  cfg_rosetta_port :: "16 word option"
  cfg_external_ip :: string
  cfg_external_host :: string
  cfg_executable_checksum :: "string option"
  cfg_build_number :: i64
  cfg_key_pair :: KeyPair
  cfg_pid_key_pair :: KeyPair
  cfg_folder_peer_tx :: "Transaction option"

definition cfg_public_key :: "externals \<Rightarrow> NodeConfig \<Rightarrow> PublicKey" where
  "cfg_public_key x c = to_struct_public_key x (kp_public_key (cfg_key_pair c))"

definition default_peer_id :: "externals \<Rightarrow> NodeConfig \<Rightarrow> PeerId" where
  "default_peer_id x c = \<lparr> pid_peer_id = Some (to_struct_public_key x (kp_public_key (cfg_pid_key_pair c))), pid_known_proof = [] \<rparr>"

definition version_info :: "NodeConfig \<Rightarrow> VersionInfo" where
  "version_info c = \<lparr> vi_executable_checksum = (case cfg_executable_checksum c of Some s \<Rightarrow> s | None \<Rightarrow> []),
     vi_commit_hash = None, vi_next_executable_checksum = None, vi_next_upgrade_time = None,
     vi_build_number = Some (cfg_build_number c) \<rparr>"

definition node_type_static :: i32 where "node_type_static = 1"

definition node_metadata_fixed :: "externals \<Rightarrow> NodeConfig \<Rightarrow> NodeMetadata" where
  "node_metadata_fixed x c = \<lparr> nm_transport_info = Some \<lparr> ti_external_ipv4 = Some (cfg_external_ip c), ti_external_ipv6 = None,
       ti_external_host = Some (cfg_external_host c), ti_port_offset = Some (ucast (cfg_port_offset c)), ti_nat_restricted = None \<rparr>,
     nm_public_key = Some (cfg_public_key x c), nm_node_type = Some node_type_static, nm_version_info = Some (version_info c),
     nm_partition_info = None, nm_node_name = None, nm_peer_id = Some (cfg_peer_id c), nm_parties = [] \<rparr>"

definition peer_tx_fixed :: "externals \<Rightarrow> NodeConfig \<Rightarrow> i64 \<Rightarrow> i64 \<Rightarrow> Transaction rg_result" where
  "peer_tx_fixed x c now rnd =
     (let pair = cfg_pid_key_pair c;
          pd = PeerMetadata (Some (cfg_peer_id c)) [node_metadata_fixed x c] [] (Some (version_info c)) None [] None 0 None in
      and_then (key_pair_address_typed x pair) (\<lambda>a.
      and_then (expect ''Failed signing?'' (sign x pair (tb_transaction
        (with_genesis_input a (with_output_peer_data a pd 0 (builder_new now rnd (cfg_network c))))))) (\<lambda>tx.
      Ok (case cfg_folder_peer_tx c of Some t \<Rightarrow> t | None \<Rightarrow> tx))))"

definition dynamic_node_metadata_fixed :: DynamicNodeMetadata where
  "dynamic_node_metadata_fixed = \<lparr> dnm_udp_port = None, dnm_proof = None, dnm_peer_id = None, dnm_sequence = 0 \<rparr>"

definition node_tx_fixed :: "externals \<Rightarrow> NodeConfig \<Rightarrow> i64 \<Rightarrow> i64 \<Rightarrow> NodeMetadata option \<Rightarrow> Transaction rg_result" where
  "node_tx_fixed x c now rnd opt =
     (let pair = cfg_key_pair c;
          metadata = (case opt of Some m \<Rightarrow> m | None \<Rightarrow> node_metadata_fixed x c) in
      and_then (key_pair_address_typed x pair) (\<lambda>a.
      expect ''sign'' (sign x pair (tb_transaction
        (with_genesis_input a (with_output_node_metadata a metadata 0 (builder_new now rnd (cfg_network c))))))))"

definition cfg_is_local_debug :: "NodeConfig \<Rightarrow> bool" where
  "cfg_is_local_debug c \<longleftrightarrow> cfg_network c = Local \<or> cfg_network c = Debug"

definition main_stage_network :: "NodeConfig \<Rightarrow> bool" where
  "main_stage_network c \<longleftrightarrow> cfg_network c \<in> {Main, Test, Staging, Dev, Predev}"

definition control_port :: "NodeConfig \<Rightarrow> 16 word" where
  "control_port c = (case cfg_control_port c of Some p \<Rightarrow> p | None \<Rightarrow> cfg_port_offset c - 3)"

definition p2p_port :: "NodeConfig \<Rightarrow> 16 word" where
  "p2p_port c = (case cfg_p2p_port c of Some p \<Rightarrow> p | None \<Rightarrow> cfg_port_offset c + 0)"

definition public_port :: "NodeConfig \<Rightarrow> 16 word" where
  "public_port c = (case cfg_public_port c of Some p \<Rightarrow> p | None \<Rightarrow> cfg_port_offset c + 1)"

definition placeholder_port :: "NodeConfig \<Rightarrow> 16 word" where
  "placeholder_port c = cfg_port_offset c + 2"

definition rosetta_port :: "NodeConfig \<Rightarrow> 16 word" where
  "rosetta_port c = (case cfg_rosetta_port c of Some p \<Rightarrow> p | None \<Rightarrow> cfg_port_offset c + 3)"

definition mparty_port :: "NodeConfig \<Rightarrow> 16 word" where
  "mparty_port c = cfg_port_offset c + 4"

definition udp_port :: "NodeConfig \<Rightarrow> 16 word" where
  "udp_port c = cfg_port_offset c + 5"

definition explorer_port :: "NodeConfig \<Rightarrow> 16 word" where
  "explorer_port c = cfg_port_offset c + 6"

section \<open>Metadata operations of the relay\<close>

definition own_peer_tx :: "externals \<Rightarrow> sync_env \<Rightarrow> (data_store, Transaction) action" where
  "own_peer_tx x e = peer_tx x (nc_fixed_peer_tx (se_config e))"

definition own_node_tx :: "externals \<Rightarrow> sync_env \<Rightarrow> (data_store, Transaction) action" where
  "own_node_tx x e = node_tx x (se_key e) (nc_fixed_peer_tx (se_config e)) (se_fixed_node_tx e)"

definition own_node_metadata :: "externals \<Rightarrow> sync_env \<Rightarrow> (data_store, NodeMetadata) action" where
  "own_node_metadata x e = relay_node_metadata x (se_key e) (nc_fixed_peer_tx (se_config e)) (se_fixed_node_tx e)"

definition relay_peer_id :: "externals \<Rightarrow> sync_env \<Rightarrow> (data_store, PeerId) action" where
  "relay_peer_id x e =
     seq_do (own_node_tx x e) (\<lambda>n.
     pure (and_then (node_metadata x n) (\<lambda>n. ok_or (nm_peer_id n) (error_info x ''Missing peer_id''))))"

definition relay_peer_id_for_node_pk :: "externals \<Rightarrow> sync_env \<Rightarrow> PublicKey \<Rightarrow> (data_store, PeerId option) action" where
  "relay_peer_id_for_node_pk x e public_key =
     (if se_key e = public_key then seq_do (relay_peer_id x e) (\<lambda>p. pure (Ok (Some p)))
      else query (peer_id_for_node_pk x public_key))"

definition get_dynamic_md :: "externals \<Rightarrow> data_store \<Rightarrow> DynamicNodeMetadata option rg_result" where
  "get_dynamic_md x ds = get_maybe_proto x (dec_dynamic_node_metadata x) ''dynamic_node_metadata'' ds"

definition set_dynamic_md :: "externals \<Rightarrow> DynamicNodeMetadata \<Rightarrow> (data_store, unit) action" where
  "set_dynamic_md x d = store_proto_ref x (enc_dynamic_node_metadata x) ''dynamic_node_metadata'' d"

definition dynamic_node_metadata :: "externals \<Rightarrow> (data_store, DynamicNodeMetadata) action" where
  "dynamic_node_metadata x =
     seq_do (query (get_dynamic_md x)) (\<lambda>tx. case tx of
       Some d \<Rightarrow> pure (Ok d)
     | None \<Rightarrow> seq_do (set_dynamic_md x dynamic_node_metadata_fixed) (\<lambda>_. pure (Ok dynamic_node_metadata_fixed)))"

definition peer_node_info :: "externals \<Rightarrow> sync_env \<Rightarrow> (data_store, PeerNodeInfo) action" where
  "peer_node_info x e =
     seq_do (own_peer_tx x e) (\<lambda>p.
     seq_do (own_node_tx x e) (\<lambda>n.
     seq_do (dynamic_node_metadata x) (\<lambda>d.
     pure (Ok \<lparr> pni_latest_peer_transaction = Some p, pni_latest_node_transaction = Some n,
       pni_dynamic_node_metadata = Some d \<rparr>))))"

definition peer_id_info :: "externals \<Rightarrow> sync_env \<Rightarrow> (data_store, PeerIdInfo) action" where
  "peer_id_info x e =
     seq_do (own_peer_tx x e) (\<lambda>p.
     seq_do (peer_node_info x e) (\<lambda>n.
     pure (Ok \<lparr> pii_latest_peer_transaction = Some p, pii_peer_node_info = [n] \<rparr>)))"

definition update_dynamic_node_metadata :: "externals \<Rightarrow> DynamicNodeMetadata \<Rightarrow> (data_store, unit) action" where
  "update_dynamic_node_metadata x d = set_dynamic_md x d"

text \<open>The transaction that replaces \<open>tx\<close> in an update, and the update itself; \<open>rnd\<close> is the salt of the new one.\<close>

definition next_node_tx :: "externals \<Rightarrow> sync_env \<Rightarrow> i64 \<Rightarrow> NodeMetadata \<Rightarrow> Transaction \<Rightarrow> Transaction rg_result" where
  "next_node_tx x e rnd nmd tx =
     and_then (head_utxo x tx) (\<lambda>utxo.
     and_then (utxo_entry_height x utxo) (\<lambda>h.
     and_then (public_key_address x (se_key e)) (\<lambda>address.
     and_then (with_maybe_currency_utxo x utxo (builder_new (se_now e) rnd (nc_network (se_config e)))) (\<lambda>tx_b.
     and_then (build x (with_output_node_metadata address nmd (h + 1) tx_b)) (\<lambda>(_, updated). Ok updated)))))"

definition update_node_metadata :: "externals \<Rightarrow> sync_env \<Rightarrow> i64 \<Rightarrow> NodeMetadata \<Rightarrow> (data_store, unit) action" where
  "update_node_metadata x e rnd nmd =
     seq_do (own_node_tx x e) (\<lambda>tx.
     seq_do (pure (next_node_tx x e rnd nmd tx)) (\<lambda>updated.
     set_node_tx x updated))"

definition update_nmd_auto :: "externals \<Rightarrow> sync_env \<Rightarrow> i64 \<Rightarrow> VersionInfo \<Rightarrow> (data_store, unit) action" where
  "update_nmd_auto x e rnd vii =
     seq_do (own_node_metadata x e) (\<lambda>nmd.
     update_node_metadata x e rnd (nmd \<lparr> nm_version_info := map_option (\<lambda>vi. vi \<lparr> vi_commit_hash := vi_commit_hash vii,
       vi_executable_checksum := vi_executable_checksum vii, vi_build_number := vi_build_number vii \<rparr>) (nm_version_info nmd) \<rparr>))"

definition add_party_id :: "externals \<Rightarrow> sync_env \<Rightarrow> i64 \<Rightarrow> PartyId \<Rightarrow> (data_store, unit) action" where
  "add_party_id x e rnd d =
     seq_do (own_node_metadata x e) (\<lambda>nmd.
     if \<exists>d2 \<in> set (nm_parties nmd). pty_public_key d2 = pty_public_key d then pure (Ok ())
     else update_node_metadata x e rnd (nmd \<lparr> nm_parties := nm_parties nmd @ [d] \<rparr>))"

definition sign_request :: "externals \<Rightarrow> sync_env \<Rightarrow> KeyPair \<Rightarrow> Request \<Rightarrow> (data_store, Request) action" where
  "sign_request x e key_pair req =
     seq_do (own_node_metadata x e) (\<lambda>nmd. pure (request_with_auth x key_pair (request_with_metadata nmd req)))"

section \<open>The chain of node transactions\<close>

text \<open>A transaction that carries metadata, its first output at some height.\<close>

definition head_height :: "externals \<Rightarrow> Transaction \<Rightarrow> i64 rg_result" where
  "head_height x t = and_then (head_utxo x t) (utxo_entry_height x)"

definition carries :: "externals \<Rightarrow> Transaction \<Rightarrow> NodeMetadata \<Rightarrow> i64 \<Rightarrow> bool" where
  "carries x t nmd h \<longleftrightarrow> node_metadata x t = Ok nmd \<and> head_height x t = Ok h"

lemma add_inputs_metadata:
  "add_inputs x us b = Ok b' \<Longrightarrow> t_struct_metadata (tb_transaction b') = t_struct_metadata (tb_transaction b)"
proof (induction x us b rule: add_inputs.induct)
  case (2 x u us b)
  then obtain b1 where b1: "with_unsigned_input x u b = Ok b1" "(if 0 < sint (balance b1) then Ok b1 else add_inputs x us b1) = Ok b'"
    by (auto simp: result_simps)
  then have "t_struct_metadata (tb_transaction b1) = t_struct_metadata (tb_transaction b)"
    by (auto simp: with_unsigned_input_Ok push_input_def)
  with b1 "2.IH" [OF b1(1)] show ?case by (auto split: if_splits)
qed simp

lemma build_shape:
  assumes "build x b = Ok (b', t)"
  shows "\<exists>rest. t_outputs t = t_outputs (tb_transaction b) @ rest \<and> (rest = [] \<or> (\<exists>a v. rest = [output_new a v])) \<and>
     t_struct_metadata t = t_struct_metadata (tb_transaction b)"
proof -
  from assms obtain us b1 where b: "add_inputs x us (b \<lparr> tb_utxos := us \<rparr>) = Ok b1" "t = tb_transaction b'"
    "if 0 < sint (balance b1) then with_remainder b1 = Ok b' else b' = b1" unfolding build_eq_Ok by blast
  from add_inputs_shape [OF b(1)] add_inputs_metadata [OF b(1)] have
    "t_outputs (tb_transaction b1) = t_outputs (tb_transaction b)" "t_struct_metadata (tb_transaction b1) = t_struct_metadata (tb_transaction b)"
    by auto
  with b(2,3) show ?thesis by (auto simp: with_remainder_Ok push_output_def split: if_splits) blast
qed

lemma carries_node_output:
  assumes "t_outputs t = output_default \<lparr> o_address := a, o_data := Some (set_sd_height (Some h) (set_sd_node_metadata (Some nmd) standard_data_default)) \<rparr> # rest"
    and "rest = [] \<or> (\<exists>a v. rest = [output_new a v])" "Option.bind (t_struct_metadata t) sm_time \<noteq> None"
  shows "carries x t nmd h"
proof -
  obtain tm where tm: "time x t = Ok tm" using assms(3) by (cases "t_struct_metadata t") (auto simp: time_def)
  have "node_metadata x t = Ok nmd" using assms(1,2)
    by (auto simp: node_metadata_def List.map_filter_simps standard_data_default_def output_new_def amount_data_def index_def)
  moreover have "head_height x t = Ok h" using assms(1) tm
    by (simp add: head_height_def head_utxo_def utxo_outputs_def from_transaction_def get_def from_output_new_def utxo_entry_height_def
        standard_data_default_def)
  ultimately show ?thesis by (simp add: carries_def)
qed

lemma set_node_tx_stores:
  assumes "set_node_tx x t ds = (Ok (), ds')"
  shows "select_config_bytes x ''node_tx'' ds' = Ok (Some (enc_transaction x t))"
proof -
  have "ds_fault ds = None" "ds' = ds \<lparr> ds_config := tbl_replace cr_key_name \<lparr> cr_key_name = ''node_tx'', cr_value_data = None,
      cr_value_bytes = Some (enc_transaction x t) \<rparr> (ds_config ds) \<rparr>"
    using assms by (auto simp: set_node_tx_def store_proto_ref_def insert_update_bytes_def config_replace_def exec_eq_Ok result_simps)
  then show ?thesis by (simp add: select_config_bytes_def pool_def map_err_sqlx_def tbl_lookup_replace)
qed

lemma stored_node_tx_read:
  assumes "select_config_bytes x ''node_tx'' ds = Ok (Some (enc_transaction x t))" "transaction_codec_law x t"
  shows "own_node_tx x e ds = (Ok t, ds)"
    "node_metadata x t = Ok nmd \<Longrightarrow> own_node_metadata x e ds = (Ok nmd, ds)"
proof -
  have "get_node_tx x ds = Ok (Some t)" using assms
    by (simp add: get_node_tx_def get_maybe_proto_def proto_deserialize_eq_Ok transaction_codec_law_def and_then_eq_Ok)
  then show "own_node_tx x e ds = (Ok t, ds)" "node_metadata x t = Ok nmd \<Longrightarrow> own_node_metadata x e ds = (Ok nmd, ds)"
    by (simp_all add: own_node_tx_def own_node_metadata_def relay_node_metadata_def node_tx_def seq_do_def query_def pure_def)
qed

lemma sign_keeps:
  assumes "sign x kp t = Ok t'"
  shows "t_outputs t' = t_outputs t" "Option.bind (t_struct_metadata t') sm_time = Option.bind (t_struct_metadata t) sm_time"
  using assms by (auto simp: sign_def Let_def result_simps split: prod.splits option.splits if_splits)

lemma next_node_tx_carries:
  assumes "next_node_tx x e rnd nmd tx = Ok t"
  shows "\<exists>h. head_height x tx = Ok h \<and> carries x t nmd (h + 1)"
proof -
  let ?b = "builder_new (se_now e) rnd (nc_network (se_config e))"
  from assms obtain utxo h address b1 bt where
    tx: "head_utxo x tx = Ok utxo" "utxo_entry_height x utxo = Ok h"
    and b: "with_maybe_currency_utxo x utxo ?b = Ok b1"
    and t: "build x (with_output_node_metadata address nmd (h + 1) b1) = Ok (bt, t)"
    by (auto simp: next_node_tx_def result_simps)
  have b1: "tb_transaction b1 = tb_transaction ?b"
    using b by (auto simp: with_maybe_currency_utxo_def with_utxo_def result_simps split: if_splits)
  have n: "t_outputs (tb_transaction ?b) = []" "Option.bind (t_struct_metadata (tb_transaction ?b)) sm_time \<noteq> None"
    by (simp_all add: builder_new_def with_network_def set_opts_def new_blank_def tx_default_def struct_metadata_def)
  from build_shape [OF t] n b1 have "carries x t nmd (h + 1)"
    by (auto simp: with_output_node_metadata_def push_output_def intro!: carries_node_output)
  with tx show ?thesis by (auto simp: head_height_def)
qed

text \<open>C32: An update of the node's metadata replaces the node's transaction: what the configuration then holds under
  the node's key is the encoding of the transaction built from the previous one, which carries exactly the new metadata,
  one height above the transaction it replaces. Where the transaction codec inverts on it, reading the node's transaction
  afterwards returns it, reading the node's metadata returns the new metadata, and neither changes the store.\<close>

theorem metadata_update_read:
  assumes "update_node_metadata x e rnd nmd ds = (Ok (), ds')"
  shows "\<exists>tx h updated. fst (own_node_tx x e ds) = Ok tx \<and> head_height x tx = Ok h \<and>
     next_node_tx x e rnd nmd tx = Ok updated \<and> carries x updated nmd (h + 1) \<and>
     select_config_bytes x ''node_tx'' ds' = Ok (Some (enc_transaction x updated)) \<and>
     (transaction_codec_law x updated \<longrightarrow>
        own_node_tx x e ds' = (Ok updated, ds') \<and> own_node_metadata x e ds' = (Ok nmd, ds'))"
proof -
  from assms obtain tx ds1 t where tx: "own_node_tx x e ds = (Ok tx, ds1)" "next_node_tx x e rnd nmd tx = Ok t"
    and t: "set_node_tx x t ds1 = (Ok (), ds')"
    by (auto simp: update_node_metadata_def seq_do_eq_Ok pure_eq dest: sym)
  from next_node_tx_carries [OF tx(2)] obtain h where h: "head_height x tx = Ok h" "carries x t nmd (h + 1)" by blast
  note stored = set_node_tx_stores [OF t]
  with h have "transaction_codec_law x t \<longrightarrow> own_node_tx x e ds' = (Ok t, ds') \<and> own_node_metadata x e ds' = (Ok nmd, ds')"
    by (auto simp: carries_def stored_node_tx_read)
  with tx h stored show ?thesis by auto
qed

text \<open>The first transaction of the chain, at height zero.\<close>

lemma node_tx_fixed_carries:
  assumes "node_tx_fixed x c now rnd opt = Ok t"
  shows "carries x t (case opt of Some m \<Rightarrow> m | None \<Rightarrow> node_metadata_fixed x c) 0"
proof -
  let ?m = "case opt of Some m \<Rightarrow> m | None \<Rightarrow> node_metadata_fixed x c"
  from assms obtain a where "sign x (cfg_key_pair c) (tb_transaction
      (with_genesis_input a (with_output_node_metadata a ?m 0 (builder_new now rnd (cfg_network c))))) = Ok t"
    by (auto simp: node_tx_fixed_def Let_def result_simps)
  from sign_keeps [OF this] show ?thesis
    by (auto intro!: carries_node_output simp: with_genesis_input_def with_output_node_metadata_def push_output_def push_input_def
        builder_new_def with_network_def set_opts_def new_blank_def tx_default_def struct_metadata_def)
qed

definition metadata_tx :: "Address \<Rightarrow> i64 \<Rightarrow> Transaction" where
  "metadata_tx a h = tb_transaction (with_output_node_metadata a sample_nmd h (builder_new 5 7 Main))"

definition metadata_env :: "Address \<Rightarrow> sync_env" where
  "metadata_env a = (sample_sync_env silent_network) \<lparr> se_fixed_node_tx := \<lambda>_. metadata_tx a 0 \<rparr>"

lemma metadata_env_sel [simp]:
  "se_key (metadata_env a) = public_key_from_bytes [9]" "nc_network (se_config (metadata_env a)) = Main"
  "se_fixed_node_tx (metadata_env a) p = metadata_tx a 0" "se_now (metadata_env a) = 5"
  by (simp_all add: metadata_env_def sample_sync_env_def)

lemma sample_address: "\<exists>a. \<forall>t. public_key_address (echo_ext t) (public_key_from_bytes [9]) = Ok a"
proof -
  have "public_key_address (echo_ext t) (public_key_from_bytes v) = public_key_address sample_ext (public_key_from_bytes v)" for t v
    by (simp add: echo_ext_def public_key_address_def from_struct_public_def address_of_hash public_key_from_bytes_def)
  moreover obtain a where "public_key_address sample_ext (public_key_from_bytes [9]) = Ok a"
    by (simp add: public_key_address_def from_struct_public_def address_of_hash public_key_from_bytes_def)
  ultimately show ?thesis by auto
qed

lemmas store_steps = seq_do_def query_def pure_def get_node_tx_def get_peer_tx_def set_node_tx_def set_peer_tx_def get_maybe_proto_def
  select_config_bytes_def store_proto_ref_def insert_update_bytes_def config_replace_def exec_def pool_def map_err_sqlx_def

lemma metadata_tx_next:
  "\<exists>u b. head_utxo x (metadata_tx a 0) = Ok u \<and> utxo_entry_height x u = Ok 0 \<and>
     with_maybe_currency_utxo x u (builder_new 5 7 Main) = Ok (builder_new 5 7 Main) \<and>
     build x (with_output_node_metadata a sample_nmd 1 (builder_new 5 7 Main)) = Ok (b, metadata_tx a 1)"
  by (simp add: metadata_tx_def build_def sort_utxos_def head_utxo_def utxo_outputs_def from_transaction_def from_output_new_def
      utxo_entry_height_def get_def with_maybe_currency_utxo_def safe_ensure_amount_def time_def with_output_node_metadata_def
      push_output_def builder_new_def with_network_def set_opts_def new_blank_def tx_default_def struct_metadata_def standard_data_default_def
      balance_def total_input_amount_def total_output_amount_def opt_amount_def)

theorem metadata_update_read_witness:
  "\<exists>a ds'. update_node_metadata (echo_ext (metadata_tx a 1)) (metadata_env a) 7 sample_nmd empty_store = (Ok (), ds') \<and>
     carries (echo_ext (metadata_tx a 1)) (metadata_tx a 1) sample_nmd 1 \<and>
     own_node_tx (echo_ext (metadata_tx a 1)) (metadata_env a) ds' = (Ok (metadata_tx a 1), ds') \<and>
     own_node_metadata (echo_ext (metadata_tx a 1)) (metadata_env a) ds' = (Ok sample_nmd, ds')"
proof -
  obtain a where a: "public_key_address (echo_ext t) (public_key_from_bytes [9]) = Ok a" for t using sample_address by blast
  let ?x = "echo_ext (metadata_tx a 1)" and ?e = "metadata_env a"
  obtain ds1 where own: "own_node_tx ?x ?e empty_store = (Ok (metadata_tx a 0), ds1)" "ds_fault ds1 = None"
    by (simp add: own_node_tx_def node_tx_def peer_tx_def Let_def store_steps tbl_lookup_def empty_store_def metadata_env_def
        sample_sync_env_def sample_peer_tx_sel)
  have n: "next_node_tx ?x ?e 7 sample_nmd (metadata_tx a 0) = Ok (metadata_tx a 1)"
    using metadata_tx_next [of ?x a] a by (auto simp: next_node_tx_def)
  then obtain ds' where u: "update_node_metadata ?x ?e 7 sample_nmd empty_store = (Ok (), ds')"
    using own by (auto simp: update_node_metadata_def store_steps)
  have "head_height ?x (metadata_tx a 0) = Ok 0" using metadata_tx_next [of ?x a] by (auto simp: head_height_def)
  then show ?thesis using metadata_update_read [OF u] own n u by auto
qed

end
