(* ===== verification/Multiparty.thy ===== *)
theory Multiparty
  imports Node_Metadata
begin

text \<open>
  Threshold keys: the tables of multiparty rooms, signatures and bridge transactions
  (\<open>data/src/mp_store.rs\<close>) and the two sides of key generation and signing
  (\<open>src/multiparty/initiate_mp.rs\<close>).  The protocol runs of the \<open>gg20\<close> modules are functions of the
  environment: what a run gives for its address, port, room and indexes, or nothing when it
  exceeds its time limit.  Fresh room identifiers are arguments.
\<close>

section \<open>The tables\<close>

definition local_share_and_initiate ::
    "externals \<Rightarrow> string \<Rightarrow> data_store \<Rightarrow> (string \<times> InitiateMultipartyKeygenRequest) option rg_result" where
  "local_share_and_initiate x room_id ds =
     and_then (pool x ds) (\<lambda>_.
     try_fold (\<lambda>_ row. and_then (proto_deserialize x (dec_initiate_keygen x) (mpr_initiate_keygen row)) (\<lambda>r.
         Ok (Some (mpr_local_share row, r))))
       None (filter (\<lambda>row. mpr_room_id row = room_id) (ds_multiparty ds)))"

definition add_keygen ::
    "externals \<Rightarrow> i64 \<Rightarrow> string \<Rightarrow> string \<Rightarrow> InitiateMultipartyKeygenRequest \<Rightarrow> bool \<Rightarrow> (data_store, unit) action" where
  "add_keygen x now local_share room_id initiate_keygen self_initiated = exec (\<lambda>ds.
     and_then (pool x ds) (\<lambda>_.
     and_then (safe_get_msg x ''ident missing in keygen sql add'' (mkq_identifier initiate_keygen)) (\<lambda>i.
     and_then (safe_get_msg x ''Missing public key head in identifier multiparty keygen'' (get (mpi_party_keys i) 0)) (\<lambda>pk.
     and_then (safe_bytes x (pk_bytes pk)) (\<lambda>pkb.
     Ok (ds \<lparr> ds_multiparty := tbl_replace mpr_room_id \<lparr> mpr_room_id = room_id, mpr_local_share = local_share,
       mpr_keygen_time = now, mpr_initiate_keygen = enc_initiate_keygen x initiate_keygen,
       mpr_self_initiated = self_initiated, mpr_host_public_key = pkb, mpr_keygen_public_key = None \<rparr> (ds_multiparty ds) \<rparr>))))))"

definition update_room_id_key :: "externals \<Rightarrow> string \<Rightarrow> PublicKey \<Rightarrow> (data_store, unit) action" where
  "update_room_id_key x room_id k = exec (\<lambda>ds.
     and_then (pool x ds) (\<lambda>_.
     and_then (safe_bytes x (pk_bytes k)) (\<lambda>pkb.
     Ok (ds \<lparr> ds_multiparty := map (\<lambda>r. if mpr_room_id r = room_id then r \<lparr> mpr_keygen_public_key := Some pkb \<rparr> else r)
       (ds_multiparty ds) \<rparr>))))"

definition add_signing_proof_signatures ::
    "externals \<Rightarrow> i64 \<Rightarrow> string \<Rightarrow> string \<Rightarrow> Proof \<Rightarrow> InitiateMultipartySigningRequest \<Rightarrow> (data_store, unit) action" where
  "add_signing_proof_signatures x now keygen_room_id room_id pf initiate_signing = exec (\<lambda>ds.
     and_then (pool x ds) (\<lambda>_.
     Ok (ds \<lparr> ds_multiparty_signatures := tbl_replace mps_room_id \<lparr> mps_room_id = room_id, mps_keygen_room_id = keygen_room_id,
       mps_proof = enc_proof x pf, mps_proof_time = now, mps_initiate_signing = enc_initiate_signing x initiate_signing \<rparr>
       (ds_multiparty_signatures ds) \<rparr>)))"

definition add_signing_proof ::
    "externals \<Rightarrow> i64 \<Rightarrow> string \<Rightarrow> string \<Rightarrow> Proof \<Rightarrow> InitiateMultipartySigningRequest \<Rightarrow> (data_store, unit) action" where
  "add_signing_proof x now keygen_room_id room_id pf initiate_signing =
     seq_do (pure (safe_get_msg x ''Missing pk'' (pr_public_key pf))) (\<lambda>k.
     seq_do (update_room_id_key x keygen_room_id k) (\<lambda>_.
     add_signing_proof_signatures x now keygen_room_id room_id pf initiate_signing))"

definition check_bridge_txid_used :: "externals \<Rightarrow> bytes \<Rightarrow> data_store \<Rightarrow> bool rg_result" where
  "check_bridge_txid_used x txid ds =
     and_then (pool x ds) (\<lambda>_.
     Ok (0 < length (filter (\<lambda>r. mpb_txid r = txid) (ds_multiparty_bridge ds))))"

definition insert_bridge_tx ::
    "externals \<Rightarrow> bytes \<Rightarrow> bytes \<Rightarrow> bool \<Rightarrow> SupportedCurrency \<Rightarrow> Address \<Rightarrow> Address \<Rightarrow> i64 \<Rightarrow> i64 \<Rightarrow> (data_store, unit) action" where
  "insert_bridge_tx x txid secondary_txid outgoing network source_address destination_address timestamp amt = exec (\<lambda>ds.
     and_then (pool x ds) (\<lambda>_.
     and_then (safe_bytes x (a_address source_address)) (\<lambda>src.
     and_then (safe_bytes x (a_address destination_address)) (\<lambda>dst.
     and_then (sql_insert x ''multiparty_bridge'' mpb_txid \<lparr> mpb_txid = txid, mpb_secondary_txid = secondary_txid,
       mpb_outgoing = outgoing, mpb_network = currency_i32 network, mpb_source_address = src, mpb_destination_address = dst,
       mpb_timestamp = timestamp, mpb_amount = amt \<rparr> (ds_multiparty_bridge ds)) (\<lambda>t.
     Ok (ds \<lparr> ds_multiparty_bridge := t \<rparr>))))))"

section \<open>The environment of a run\<close>

record mp_env =
  me_sync :: sync_env
  me_config :: NodeConfig
  me_keygen :: "string \<Rightarrow> 16 word \<Rightarrow> string \<Rightarrow> 16 word \<Rightarrow> 16 word \<Rightarrow> 16 word \<Rightarrow> string rg_result option"
  me_signing :: "string \<Rightarrow> 16 word \<Rightarrow> string \<Rightarrow> string \<Rightarrow> 16 word list \<Rightarrow> bytes \<Rightarrow> Proof rg_result option"
  me_elapsed :: string
  me_join_error :: string

definition within_time :: "ErrorInfo \<Rightarrow> 'a rg_result option \<Rightarrow> 'a rg_result" where
  "within_time late r = (case r of None \<Rightarrow> Err late | Some v \<Rightarrow> v)"

text \<open>A spawned run: its panic is an error of the task that waits for it.\<close>

definition joined :: "externals \<Rightarrow> mp_env \<Rightarrow> 'a rg_result \<Rightarrow> 'a rg_result" where
  "joined x e r = (case r of Panic _ \<Rightarrow> Err (error_msg x UnknownError ''join handle error'' (me_join_error e)) | v \<Rightarrow> v)"

section \<open>Parties\<close>

definition default_room_id_signing :: "string \<Rightarrow> string \<Rightarrow> string" where
  "default_room_id_signing uuid keygen_room_id = keygen_room_id @ ''_'' @ uuid"

definition first_node_key :: "PeerMetadata \<Rightarrow> PublicKey rg_result" where
  "first_node_key p =
     (case get (pm_node_metadata p) 0 of
        None \<Rightarrow> Panic ''called `Option::unwrap()` on a `None` value''
      | Some n \<Rightarrow> (case nm_public_key n of
            None \<Rightarrow> Panic ''called `Option::unwrap()` on a `None` value''
          | Some k \<Rightarrow> Ok k))"

definition find_multiparty_key_pairs :: "externals \<Rightarrow> mp_env \<Rightarrow> data_store \<Rightarrow> PublicKey list rg_result" where
  "find_multiparty_key_pairs x e ds =
     (let self_key = se_key (me_sync e) in
      and_then (all_peers x ds) (\<lambda>peers.
      and_then (try_map first_node_key peers) (\<lambda>ks.
      let results = broadcast x (se_network (me_sync e)) (filter (\<lambda>p. p \<noteq> self_key) ks) (request_about request_empty);
          valid_pks = map fst (filter (\<lambda>(_, r). case r of Ok v \<Rightarrow> is_ok (as_error_info x v) | _ \<Rightarrow> False) results) in
      if valid_pks = [] then Err (error_info x ''No valid peers found'') else Ok (self_key # valid_pks))))"

definition default_identifier :: "externals \<Rightarrow> mp_env \<Rightarrow> string \<Rightarrow> data_store \<Rightarrow> MultipartyIdentifier rg_result" where
  "default_identifier x e uuid ds =
     and_then (find_multiparty_key_pairs x e ds) (\<lambda>kp.
     Ok \<lparr> mpi_party_keys = kp, mpi_threshold = of_nat (length kp - 1), mpi_uuid = uuid \<rparr>)"

definition default_half_identifier :: "string \<Rightarrow> PublicKey list \<Rightarrow> MultipartyIdentifier" where
  "default_half_identifier uuid kp = \<lparr> mpi_party_keys = kp, mpi_threshold = of_nat (length kp div 2), mpi_uuid = uuid \<rparr>"

definition fill_identifier :: "string \<Rightarrow> PublicKey list \<Rightarrow> MultipartyIdentifier option \<Rightarrow> MultipartyIdentifier option" where
  "fill_identifier uuid ks identifier =
     (let num_parties = (of_nat (length ks) :: i64) in
      case identifier of
        Some i \<Rightarrow> Some (i \<lparr> mpi_uuid := uuid, mpi_party_keys := (if mpi_party_keys i = [] then ks else mpi_party_keys i) \<rparr>)
      | None \<Rightarrow>
          let threshold = num_parties div 2;
              threshold = (if sint threshold < 1 then 1 else threshold);
              threshold = (if sint (num_parties - 1) < sint threshold then num_parties - 1 else threshold) in
          Some \<lparr> mpi_party_keys = ks, mpi_threshold = threshold, mpi_uuid = uuid \<rparr>)"

text \<open>The indexes, from one, of the parties of a signing.\<close>

definition party_indexes :: "MultipartyIdentifier \<Rightarrow> PublicKey list \<Rightarrow> 16 word list" where
  "party_indexes i parties =
     map (\<lambda>(n, _). of_nat (n + 1)) (filter (\<lambda>(_, pk). pk \<in> set parties) (enumerate 0 (mpi_party_keys i)))"

text \<open>How many peers answered without an error.\<close>

definition successful :: "externals \<Rightarrow> Response rg_result list \<Rightarrow> i64" where
  "successful x results = of_nat (length (filter (\<lambda>r. is_ok (and_then r (as_error_info x))) results))"

section \<open>Key generation\<close>

record SelfInitiateKeygenResult =
  sik_local_share :: string
  sik_identifier :: MultipartyIdentifier
  sik_request :: InitiateMultipartyKeygenRequest

definition initiate_mp_keygen_authed ::
    "externals \<Rightarrow> mp_env \<Rightarrow> InitiateMultipartyKeygenRequest \<Rightarrow> bool \<Rightarrow> (data_store, SelfInitiateKeygenResult) action" where
  "initiate_mp_keygen_authed x e base_request store_local_share =
     seq_do (pure (safe_get_msg x ''No identifier'' (mkq_identifier base_request))) (\<lambda>i.
     let res = joined x e (within_time (error_info x ''Timeout'') (me_keygen e ''127.0.0.1'' (mparty_port (me_config e))
           (mpi_uuid i) 1 (ucast (mpi_threshold i)) (of_nat (length (mpi_party_keys i)))));
         peers = filter (\<lambda>p. p \<noteq> se_key (me_sync e)) (mpi_party_keys i) in
     seq_do (pure (broadcast_async x (se_network (me_sync e)) peers
       (request_empty \<lparr> rq_initiate_keygen := Some base_request \<rparr>))) (\<lambda>results.
     if sint (successful x results) < sint (mpi_threshold i) then pure (Err (error_info x ''Not enough successful peers''))
     else seq_do (pure res) (\<lambda>local_share.
       seq_do (if \<not> store_local_share then pure (Ok ())
         else seq_do (add_keygen x (se_now (me_sync e)) local_share (mpi_uuid i) base_request True) (\<lambda>_.
           seq_do (query (local_share_and_initiate x (mpi_uuid i))) (\<lambda>q.
           pure (and_then (safe_get_msg x ''Unable to query local store for room_id on keygen'' q) (\<lambda>_. Ok ()))))) (\<lambda>_.
       pure (Ok \<lparr> sik_local_share = local_share, sik_identifier = i, sik_request = base_request \<rparr>)))))"

record mp_state =
  ms_ds :: data_store
  ms_auth :: mp_authorizations

definition in_store :: "(data_store, 'a) action \<Rightarrow> (mp_state, 'a) action" where
  "in_store m s = (case m (ms_ds s) of (r, ds) \<Rightarrow> (r, s \<lparr> ms_ds := ds \<rparr>))"

definition in_auth :: "(mp_authorizations, 'a) action \<Rightarrow> (mp_state, 'a) action" where
  "in_auth m s = (case m (ms_auth s) of (r, a) \<Rightarrow> (r, s \<lparr> ms_auth := a \<rparr>))"

text \<open>The result of the first action, after the second; a panic of the first skips it.\<close>

definition and_finally :: "('s, 'a) action \<Rightarrow> ('s \<Rightarrow> 's) \<Rightarrow> ('s, 'a) action" where
  "and_finally m f s = (case m s of (Panic p, s') \<Rightarrow> (Panic p, s') | (r, s') \<Rightarrow> (r, f s'))"

definition initiate_mp_keygen ::
    "externals \<Rightarrow> mp_env \<Rightarrow> string \<Rightarrow> MultipartyIdentifier option \<Rightarrow> bool \<Rightarrow> PublicKey list option \<Rightarrow>
     (mp_state, SelfInitiateKeygenResult) action" where
  "initiate_mp_keygen x e uuid ident store_local_share node_ids =
     seq_do (in_store (case ident of
         Some i \<Rightarrow> pure (Ok i)
       | None \<Rightarrow> (case node_ids of
           None \<Rightarrow> query (default_identifier x e uuid)
         | Some pks \<Rightarrow> pure (Ok (default_half_identifier uuid pks))))) (\<lambda>i.
     let base_request = \<lparr> mkq_identifier = Some i \<rparr> in
     seq_do (in_auth (authorize_keygen x base_request)) (\<lambda>_.
     and_finally (in_store (initiate_mp_keygen_authed x e base_request store_local_share))
       (\<lambda>s. s \<lparr> ms_auth := remove_keygen_authorization (mpi_uuid i) (ms_auth s) \<rparr>)))"

definition initiate_mp_keygen_follower ::
    "externals \<Rightarrow> mp_env \<Rightarrow> InitiateMultipartyKeygenRequest \<Rightarrow> PublicKey \<Rightarrow> (data_store, InitiateMultipartyKeygenResponse) action" where
  "initiate_mp_keygen_follower x e mp_req initiating_pk =
     seq_do (pure (safe_get x (mkq_identifier mp_req))) (\<lambda>i.
     seq_do (pure (ok_or (map_option (\<lambda>(n, _). of_nat n + 1) (find (\<lambda>(_, k). k = se_key (me_sync e)) (enumerate 0 (mpi_party_keys i))))
       (error_info x ''Not a participant''))) (\<lambda>idx.
     seq_do (pure (safe_get_msg x ''No host key'' (get (mpi_party_keys i) 0))) (\<lambda>host_key.
     seq_do (query (query_public_key_metadata x host_key)) (\<lambda>md.
     seq_do (pure (safe_get_msg x ''No host key metadata'' md)) (\<lambda>md.
     seq_do (pure (external_address x md)) (\<lambda>address.
     seq_do (pure (within_time (error_info x ''Timeout'') (me_keygen e address (port_or (cfg_network (me_config e)) md + 4)
       (mpi_uuid i) idx (ucast (mpi_threshold i)) (of_nat (length (mpi_party_keys i)))))) (\<lambda>res.
     seq_do (add_keygen x (se_now (me_sync e)) res (mpi_uuid i) mp_req False) (\<lambda>_.
     seq_do (query (local_share_and_initiate x (mpi_uuid i))) (\<lambda>q.
     seq_do (pure (safe_get_msg x ''Unable to query local store for room_id on keygen'' q)) (\<lambda>_.
     pure (Ok \<lparr> mkr_initial_request = Some mp_req \<rparr>)))))))))))"

section \<open>Signing\<close>

record SelfInitiateKeysignResult =
  sis_ident :: MultipartyIdentifier
  sis_signing_room_id :: string
  sis_parties :: "PublicKey list"
  sis_proof :: Proof

definition initiate_mp_keysign_authed ::
    "externals \<Rightarrow> mp_env \<Rightarrow> InitiateMultipartySigningRequest \<Rightarrow> (data_store, SelfInitiateKeysignResult) action" where
  "initiate_mp_keysign_authed x e mp_req =
     seq_do (pure (safe_get_msg x ''Missing identifier'' (msq_identifier mp_req))) (\<lambda>i.
     seq_do (pure (safe_get_msg x ''Missing data'' (msq_data_to_sign mp_req))) (\<lambda>_.
     let parties = msq_signing_party_keys mp_req in
     seq_do (query (local_share_and_initiate x (mpi_uuid i))) (\<lambda>q.
     seq_do (pure (ok_or q (error_info x ''Local share not found''))) (\<lambda>(local_share, _).
     seq_do (pure (safe_bytes x (msq_data_to_sign mp_req))) (\<lambda>option.
     let jh = joined x e (within_time (error_msg x UnknownError ''Timeout'' (me_elapsed e)) (me_signing e ''127.0.0.1''
           (mparty_port (me_config e)) (msq_signing_room_id mp_req) local_share (party_indexes i parties) option));
         peers = filter (\<lambda>p. p \<noteq> se_key (me_sync e)) parties in
     seq_do (pure (broadcast_async x (se_network (me_sync e)) peers
       (request_empty \<lparr> rq_initiate_signing := Some mp_req \<rparr>))) (\<lambda>results.
     if sint (successful x results) < sint (mpi_threshold i) then pure (Err (error_info x ''Not enough successful peers''))
     else seq_do (pure jh) (\<lambda>pf.
       seq_do (add_signing_proof x (se_now (me_sync e)) (mpi_uuid i) (msq_signing_room_id mp_req) pf mp_req) (\<lambda>_.
       pure (Ok \<lparr> sis_ident = i, sis_signing_room_id = msq_signing_room_id mp_req, sis_parties = parties, sis_proof = pf \<rparr>)))))))))"

definition initiate_mp_keysign ::
    "externals \<Rightarrow> mp_env \<Rightarrow> string \<Rightarrow> MultipartyIdentifier \<Rightarrow> BytesData \<Rightarrow> PublicKey list \<Rightarrow> string option \<Rightarrow>
     (mp_state, SelfInitiateKeysignResult) action" where
  "initiate_mp_keysign x e uuid i data_to_sign parties signing_room_id =
     seq_do (in_store (if parties = [] then query (find_multiparty_key_pairs x e) else pure (Ok parties))) (\<lambda>parties.
     let room = (case signing_room_id of Some r \<Rightarrow> r | None \<Rightarrow> default_room_id_signing uuid (mpi_uuid i));
         mp_req = \<lparr> msq_identifier = Some i, msq_signing_room_id = room, msq_signing_party_keys = parties,
           msq_data_to_sign = Some data_to_sign \<rparr> in
     seq_do (\<lambda>s. (Ok (), s \<lparr> ms_auth := authorize_signing mp_req (ms_auth s) \<rparr>)) (\<lambda>_.
     and_finally (in_store (initiate_mp_keysign_authed x e mp_req))
       (\<lambda>s. s \<lparr> ms_auth := remove_signing_authorization room (ms_auth s) \<rparr>)))"

definition initiate_mp_keysign_follower ::
    "externals \<Rightarrow> mp_env \<Rightarrow> InitiateMultipartySigningRequest \<Rightarrow> PublicKey \<Rightarrow> (data_store, InitiateMultipartySigningResponse) action" where
  "initiate_mp_keysign_follower x e mp_req initiating_pk =
     seq_do (pure (safe_get_msg x ''Missing room id for keygen on signing follower'' (msq_identifier mp_req))) (\<lambda>i.
     let idx = party_indexes i (msq_signing_party_keys mp_req) in
     seq_do (pure (safe_get_msg x ''No host key'' (get (msq_signing_party_keys mp_req) 0))) (\<lambda>host_key.
     seq_do (query (query_public_key_metadata x host_key)) (\<lambda>md.
     seq_do (pure (safe_get_msg x ''No host key metadata'' md)) (\<lambda>md.
     seq_do (pure (external_address x md)) (\<lambda>address.
     seq_do (query (local_share_and_initiate x (mpi_uuid i))) (\<lambda>q.
     seq_do (pure (ok_or q (error_info x ''Local share not found''))) (\<lambda>(local_share, init).
     let ser = json_or x (json_initiate_keygen x init) in
     seq_do (pure (add ser (ok_or (mkq_identifier init) (error_info x ''No identifier on stored initiate keygen'')))) (\<lambda>stored.
     seq_do (pure (if initiating_pk \<in> set (mpi_party_keys stored) then Ok ()
       else add (json_or x (json_public_key x initiating_pk)) (add ser
         (Err (error_info x ''Initiating public key not found in stored initiate keygen''))))) (\<lambda>_.
     seq_do (pure (safe_get x (msq_data_to_sign mp_req))) (\<lambda>d.
     seq_do (pure (within_time (error_msg x UnknownError ''Timeout'' (me_elapsed e)) (me_signing e address
       (port_or (cfg_network (me_config e)) md + 4) (msq_signing_room_id mp_req) local_share idx (bd_value d)))) (\<lambda>res.
     seq_do (add_signing_proof x (se_now (me_sync e)) (mpi_uuid i) (msq_signing_room_id mp_req) res mp_req) (\<lambda>_.
     pure (Ok \<lparr> msr_proof = Some res, msr_initial_request = Some mp_req \<rparr>)))))))))))))"

section \<open>What a run leaves behind\<close>

definition keygen_codec_law :: "externals \<Rightarrow> InitiateMultipartyKeygenRequest \<Rightarrow> bool" where
  "keygen_codec_law x r \<longleftrightarrow> dec_initiate_keygen x (enc_initiate_keygen x r) = Inr r"

lemma add_keygen_rooms:
  assumes "add_keygen x now share room req self ds = (Ok (), ds')"
  shows "keygen_codec_law x req \<Longrightarrow> local_share_and_initiate x room ds' = Ok (Some (share, req))"
    and "room' \<noteq> room \<Longrightarrow> local_share_and_initiate x room' ds' = local_share_and_initiate x room' ds"
proof -
  obtain r where r: "ds' = ds \<lparr> ds_multiparty := tbl_replace mpr_room_id r (ds_multiparty ds) \<rparr>" "mpr_room_id r = room"
    "mpr_local_share r = share" "mpr_initiate_keygen r = enc_initiate_keygen x req" "ds_fault ds = None"
    using assms by (auto simp: add_keygen_def exec_eq_Ok result_simps)
  have "filter (\<lambda>row. mpr_room_id row = room) (filter (\<lambda>row. mpr_room_id row \<noteq> room) t) = []" for t
    by (induction t) auto
  then show "keygen_codec_law x req \<Longrightarrow> local_share_and_initiate x room ds' = Ok (Some (share, req))"
    using r by (simp add: local_share_and_initiate_def tbl_replace_def keygen_codec_law_def proto_deserialize_def lib_result_def
        pool_def map_err_sqlx_def)
  assume "room' \<noteq> room"
  then have "filter (\<lambda>row. mpr_room_id row = room') (ds_multiparty ds') = filter (\<lambda>row. mpr_room_id row = room') (ds_multiparty ds)"
    using r by (auto simp: tbl_replace_def intro: filter_cong)
  moreover have "pool x ds' = pool x ds" using r by (simp add: pool_def)
  ultimately show "local_share_and_initiate x room' ds' = local_share_and_initiate x room' ds"
    by (simp only: local_share_and_initiate_def)
qed

text \<open>Steps that do not write.\<close>

lemma pure_changes:
  "seq_do (pure v) f s = (r, s') \<Longrightarrow> s' \<noteq> s \<or> is_ok r \<Longrightarrow> \<exists>a. v = Ok a \<and> f a s = (r, s')"
  by (cases v) (auto simp: seq_do_def pure_def)

lemma query_changes:
  "seq_do (query q) f s = (r, s') \<Longrightarrow> s' \<noteq> s \<or> is_ok r \<Longrightarrow> \<exists>a. q s = Ok a \<and> f a s = (r, s')"
  by (cases "q s") (auto simp: seq_do_def query_def)

lemma pure_then_Ok: "seq_do (pure v) f s = (Ok b, s') \<longleftrightarrow> (\<exists>a. v = Ok a \<and> f a s = (Ok b, s'))"
  by (cases v) (auto simp: seq_do_def pure_def)

lemma query_then_Ok: "seq_do (query q) f s = (Ok b, s') \<longleftrightarrow> (\<exists>a. q s = Ok a \<and> f a s = (Ok b, s'))"
  by (cases "q s") (auto simp: seq_do_def query_def)

text \<open>The room a signing request names, as the follower stored it, and whether the key is a party of it.\<close>

definition party_of_room :: "externals \<Rightarrow> data_store \<Rightarrow> string \<Rightarrow> PublicKey \<Rightarrow> bool" where
  "party_of_room x ds room pk \<longleftrightarrow> (\<exists>share init stored. local_share_and_initiate x room ds = Ok (Some (share, init)) \<and>
     mkq_identifier init = Some stored \<and> pk \<in> set (mpi_party_keys stored))"

lemma keysign_follower_steps:
  assumes "initiate_mp_keysign_follower x e req pk ds = (r, ds')" "ds' \<noteq> ds \<or> is_ok r"
  shows "\<exists>i pf. msq_identifier req = Some i \<and> party_of_room x ds (mpi_uuid i) pk \<and>
     seq_do (add_signing_proof x (se_now (me_sync e)) (mpi_uuid i) (msq_signing_room_id req) pf req)
       (\<lambda>_. pure (Ok \<lparr> msr_proof = Some pf, msr_initial_request = Some req \<rparr>)) ds = (r, ds')"
  using assms unfolding initiate_mp_keysign_follower_def Let_def
  by (auto dest!: pure_changes query_changes simp: result_simps party_of_room_def add_def split: if_splits)

text \<open>Storing a signature leaves everything but the multiparty tables alone.\<close>

definition same_ledger :: "data_store \<Rightarrow> data_store \<Rightarrow> bool" where
  "same_ledger ds ds' \<longleftrightarrow> ds' = ds \<lparr> ds_multiparty := ds_multiparty ds', ds_multiparty_signatures := ds_multiparty_signatures ds' \<rparr>"

lemma update_room_id_key_rooms:
  assumes "update_room_id_key x room k ds = (r, ds')"
  shows "same_ledger ds ds'" "ds_multiparty_signatures ds' = ds_multiparty_signatures ds"
    "local_share_and_initiate x room' ds' = local_share_and_initiate x room' ds"
proof -
  obtain g where g: "ds' = ds \<lparr> ds_multiparty := map g (ds_multiparty ds) \<rparr>" "\<And>r. mpr_room_id (g r) = mpr_room_id r"
    "\<And>r. mpr_local_share (g r) = mpr_local_share r" "\<And>r. mpr_initiate_keygen (g r) = mpr_initiate_keygen r"
  proof (cases "ds' = ds")
    case True
    then show thesis by (intro that [of "\<lambda>r. r"]) auto
  next
    case False
    with assms obtain b where "ds' = ds \<lparr> ds_multiparty := map (\<lambda>r. if mpr_room_id r = room then r \<lparr> mpr_keygen_public_key := Some b \<rparr> else r)
        (ds_multiparty ds) \<rparr>"
      by (auto simp: update_room_id_key_def exec_def result_simps split: result.splits)
    then show thesis by (rule that) auto
  qed
  show "same_ledger ds ds'" "ds_multiparty_signatures ds' = ds_multiparty_signatures ds" using g(1) by (simp_all add: same_ledger_def)
  have f: "try_fold h a (map g rows) = try_fold (\<lambda>a r. h a (g r)) a rows" for h :: "'c \<Rightarrow> _ \<Rightarrow> 'c rg_result" and a rows
    by (induction rows arbitrary: a) (simp_all add: and_then_def split: result.splits)
  have "filter (\<lambda>row. mpr_room_id row = room') (ds_multiparty ds') = map g (filter (\<lambda>row. mpr_room_id row = room') (ds_multiparty ds))"
    using g by (simp add: filter_map comp_def)
  moreover have "pool x ds' = pool x ds" using g(1) by (simp add: pool_def)
  ultimately show "local_share_and_initiate x room' ds' = local_share_and_initiate x room' ds"
    by (simp only: local_share_and_initiate_def f g)
qed

lemma add_signing_proof_effect:
  assumes "add_signing_proof x now keygen_room room pf req ds = (r, ds')"
  shows "same_ledger ds ds'" "local_share_and_initiate x room' ds' = local_share_and_initiate x room' ds"
    "is_ok r \<Longrightarrow> \<exists>row. tbl_lookup mps_room_id (ds_multiparty_signatures ds') room = Some row \<and>
       mps_keygen_room_id row = keygen_room \<and> mps_proof row = enc_proof x pf"
proof -
  have "(ds' = ds \<and> \<not> is_ok r) \<or> (\<exists>k r1 ds1. update_room_id_key x keygen_room k ds = (r1, ds1) \<and> (ds' = ds1 \<and> \<not> is_ok r \<or>
      add_signing_proof_signatures x now keygen_room room pf req ds1 = (Ok (), ds') \<and> r = Ok ()))"
  proof (cases "pr_public_key pf")
    case (Some k)
    obtain r1 ds1 where u: "update_room_id_key x keygen_room k ds = (r1, ds1)" by fastforce
    have "add_signing_proof_signatures x now keygen_room room pf req ds1 = (r, ds') \<Longrightarrow> r = Ok () \<or> ds' = ds1 \<and> \<not> is_ok r"
      by (auto simp: add_signing_proof_signatures_def exec_def split: result.splits)
    with assms Some u show ?thesis by (cases r1) (auto simp: add_signing_proof_def seq_do_def pure_def safe_get_msg_def)
  qed (use assms in \<open>auto simp: add_signing_proof_def seq_do_def pure_def safe_get_msg_def\<close>)
  then consider "ds' = ds" "\<not> is_ok r" | k r1 where "update_room_id_key x keygen_room k ds = (r1, ds')" "\<not> is_ok r"
    | k r1 ds1 where "update_room_id_key x keygen_room k ds = (r1, ds1)"
        "add_signing_proof_signatures x now keygen_room room pf req ds1 = (Ok (), ds')" "r = Ok ()" by blast
  then have "same_ledger ds ds' \<and> local_share_and_initiate x room' ds' = local_share_and_initiate x room' ds \<and>
     (is_ok r \<longrightarrow> (\<exists>row. tbl_lookup mps_room_id (ds_multiparty_signatures ds') room = Some row \<and>
       mps_keygen_room_id row = keygen_room \<and> mps_proof row = enc_proof x pf))"
  proof cases
    case (3 k r1 ds1)
    from 3(2) obtain row where row: "ds' = ds1 \<lparr> ds_multiparty_signatures := tbl_replace mps_room_id row (ds_multiparty_signatures ds1) \<rparr>"
      "mps_room_id row = room" "mps_keygen_room_id row = keygen_room" "mps_proof row = enc_proof x pf"
      by (auto simp: add_signing_proof_signatures_def exec_eq_Ok result_simps)
    have "local_share_and_initiate x room' ds' = local_share_and_initiate x room' ds1"
      using row(1) by (simp add: local_share_and_initiate_def pool_def)
    moreover have "tbl_lookup mps_room_id (ds_multiparty_signatures ds') room = Some row"
      using row by (simp add: tbl_lookup_replace)
    ultimately show ?thesis using update_room_id_key_rooms [OF 3(1)] row by (auto simp: same_ledger_def)
  qed (use update_room_id_key_rooms in \<open>auto simp: same_ledger_def\<close>)
  then show "same_ledger ds ds'" "local_share_and_initiate x room' ds' = local_share_and_initiate x room' ds"
    "is_ok r \<Longrightarrow> \<exists>row. tbl_lookup mps_room_id (ds_multiparty_signatures ds') room = Some row \<and>
       mps_keygen_room_id row = keygen_room \<and> mps_proof row = enc_proof x pf" by auto
qed

text \<open>C16: A follower takes part in a signing only for a party of the room: whenever the handling of a
  signing request changes the store or succeeds, the key that initiated it is one of the parties of the key
  generation that this node itself stored for the named room.  Nothing but the multiparty tables changes, what is stored of the rooms
  stays, and on success the proof is recorded under the signing room.\<close>

theorem signing_only_for_parties:
  assumes "initiate_mp_keysign_follower x e req pk ds = (r, ds')" "ds' \<noteq> ds \<or> is_ok r"
  shows "\<exists>i. msq_identifier req = Some i \<and> party_of_room x ds (mpi_uuid i) pk \<and> same_ledger ds ds' \<and>
     (\<forall>room. local_share_and_initiate x room ds' = local_share_and_initiate x room ds) \<and>
     (is_ok r \<longrightarrow> (\<exists>pf row. r = Ok \<lparr> msr_proof = Some pf, msr_initial_request = Some req \<rparr> \<and>
        tbl_lookup mps_room_id (ds_multiparty_signatures ds') (msq_signing_room_id req) = Some row \<and>
        mps_keygen_room_id row = mpi_uuid i \<and> mps_proof row = enc_proof x pf))"
proof -
  from keysign_follower_steps [OF assms] obtain i pf where i: "msq_identifier req = Some i" "party_of_room x ds (mpi_uuid i) pk"
    and s: "seq_do (add_signing_proof x (se_now (me_sync e)) (mpi_uuid i) (msq_signing_room_id req) pf req)
       (\<lambda>_. pure (Ok \<lparr> msr_proof = Some pf, msr_initial_request = Some req \<rparr>)) ds = (r, ds')" by blast
  then obtain r1 where a: "add_signing_proof x (se_now (me_sync e)) (mpi_uuid i) (msq_signing_room_id req) pf req ds = (r1, ds')"
    and r: "is_ok r \<longrightarrow> is_ok r1 \<and> r = Ok \<lparr> msr_proof = Some pf, msr_initial_request = Some req \<rparr>"
    by (auto simp: seq_do_def pure_def split: prod.splits result.splits)
  show ?thesis using i r add_signing_proof_effect [OF a] by auto
qed

lemma keygen_follower_steps:
  assumes "initiate_mp_keygen_follower x e req pk ds = (r, ds')" "ds' \<noteq> ds \<or> is_ok r"
  shows "\<exists>i share r1. mkq_identifier req = Some i \<and> se_key (me_sync e) \<in> set (mpi_party_keys i) \<and>
     add_keygen x (se_now (me_sync e)) share (mpi_uuid i) req False ds = (r1, ds') \<and> (is_ok r \<longrightarrow> r1 = Ok ())"
proof -
  have find: "find (\<lambda>(_, k). k = y) (enumerate n ks) = Some p \<Longrightarrow> y \<in> set ks" for y p n and ks :: "PublicKey list"
    by (induction ks arbitrary: n) (auto split: if_splits)
  show ?thesis using assms unfolding initiate_mp_keygen_follower_def
    by (auto dest!: pure_changes query_changes find simp: result_simps seq_do_def [of "add_keygen _ _ _ _ _ _"]
        split: prod.splits result.splits) blast+
qed

text \<open>C29: Whoever can have a key generation request accepted owns the room it names.  A follower
  that accepts one stores it under the identifier chosen by the request, whatever the node held there
  before and whoever sent it; from then on a signing request for that room that comes from a former
  party which the new request does not name is refused and changes nothing.  Other rooms are kept.\<close>

theorem keygen_takes_over_room:
  assumes "initiate_mp_keygen_follower x e req outsider ds = (Ok r, ds')" "mkq_identifier req = Some i" "keygen_codec_law x req"
    and "msq_identifier sreq = Some j" "mpi_uuid j = mpi_uuid i" "party_of_room x ds (mpi_uuid i) member"
    and "member \<notin> set (mpi_party_keys i)"
  shows "(\<exists>share. local_share_and_initiate x (mpi_uuid i) ds' = Ok (Some (share, req))) \<and>
     (\<forall>room. room \<noteq> mpi_uuid i \<longrightarrow> local_share_and_initiate x room ds' = local_share_and_initiate x room ds) \<and>
     \<not> is_ok (fst (initiate_mp_keysign_follower x e' sreq member ds')) \<and>
     snd (initiate_mp_keysign_follower x e' sreq member ds') = ds'"
proof -
  from keygen_follower_steps [OF assms(1)] assms(2) obtain share where
    a: "add_keygen x (se_now (me_sync e)) share (mpi_uuid i) req False ds = (Ok (), ds')" by auto
  have l: "local_share_and_initiate x (mpi_uuid i) ds' = Ok (Some (share, req))"
    using add_keygen_rooms(1) [OF a assms(3)] .
  then have "\<not> party_of_room x ds' (mpi_uuid j) member" using assms(2,5,7) by (auto simp: party_of_room_def)
  then have "\<not> is_ok (fst (initiate_mp_keysign_follower x e' sreq member ds'))"
    "snd (initiate_mp_keysign_follower x e' sreq member ds') = ds'"
    using keysign_follower_steps [of x e' sreq member ds'] assms(4) by (metis option.inject prod.collapse)+
  with l add_keygen_rooms(2) [OF a] show ?thesis by auto
qed

lemma and_finally_eq: "and_finally m f s = (r, s') \<Longrightarrow> \<not> is_panic r \<Longrightarrow> \<exists>s1. m s = (r, s1) \<and> s' = f s1"
  by (auto simp: and_finally_def split: prod.splits result.splits)

lemma keygen_authed_Ok:
  assumes "initiate_mp_keygen_authed x e req keep ds = (Ok res, ds')"
  shows "\<exists>i results. mkq_identifier req = Some i \<and> sik_identifier res = i \<and> sik_request res = req \<and>
     broadcast_async x (se_network (me_sync e)) (filter (\<lambda>p. p \<noteq> se_key (me_sync e)) (mpi_party_keys i))
       (request_empty \<lparr> rq_initiate_keygen := Some req \<rparr>) = Ok results \<and>
     sint (mpi_threshold i) \<le> sint (successful x results) \<and>
     (if keep then add_keygen x (se_now (me_sync e)) (sik_local_share res) (mpi_uuid i) req True ds = (Ok (), ds') else ds' = ds)"
  using assms unfolding initiate_mp_keygen_authed_def Let_def
  by (auto simp: pure_then_Ok query_then_Ok seq_do_eq_Ok [of "add_keygen _ _ _ _ _ _"] seq_do_eq_Ok [of "if _ then _ else _"]
      pure_def result_simps split: if_splits)

text \<open>C28: A key generation that a node starts leaves no authorization behind, whether it succeeds or
  fails: no key may join its room afterwards, and the authorizations of other rooms and of signings stay.  It succeeds
  only when at least the threshold of the other parties answered without an error, and a stored share is
  then the one read for the room.\<close>

theorem keygen_threshold_and_authorization:
  assumes "initiate_mp_keygen x e uuid (Some i) keep ids s = (r, s')" "\<not> is_panic r"
  shows "(\<forall>pk. check_keygen_authorized (mpi_uuid i) pk (ms_auth s') = None) \<and>
     (\<forall>room. room \<noteq> mpi_uuid i \<longrightarrow> mp_keygen (ms_auth s') room = mp_keygen (ms_auth s) room) \<and>
     mp_signing (ms_auth s') = mp_signing (ms_auth s) \<and>
     (\<forall>res. r = Ok res \<longrightarrow> sik_identifier res = i \<and> (\<exists>results. broadcast_async x (se_network (me_sync e))
          (filter (\<lambda>p. p \<noteq> se_key (me_sync e)) (mpi_party_keys i))
          (request_empty \<lparr> rq_initiate_keygen := Some \<lparr> mkq_identifier = Some i \<rparr> \<rparr>) = Ok results \<and>
          sint (mpi_threshold i) \<le> sint (successful x results)) \<and>
        (keep \<and> keygen_codec_law x \<lparr> mkq_identifier = Some i \<rparr> \<longrightarrow>
          local_share_and_initiate x (mpi_uuid i) (ms_ds s') = Ok (Some (sik_local_share res, \<lparr> mkq_identifier = Some i \<rparr>))))"
proof -
  let ?req = "\<lparr> mkq_identifier = Some i \<rparr>"
  let ?s = "s \<lparr> ms_auth := ms_auth s \<lparr> mp_keygen := (mp_keygen (ms_auth s))(mpi_uuid i \<mapsto> ?req) \<rparr> \<rparr>"
  have "and_finally (in_store (initiate_mp_keygen_authed x e ?req keep))
      (\<lambda>s. s \<lparr> ms_auth := remove_keygen_authorization (mpi_uuid i) (ms_auth s) \<rparr>) ?s = (r, s')"
    using assms(1) by (simp add: initiate_mp_keygen_def in_store_def in_auth_def authorize_keygen_def seq_do_def pure_def
        safe_get_msg_def Let_def)
  from and_finally_eq [OF this assms(2)] obtain ds where ds: "initiate_mp_keygen_authed x e ?req keep (ms_ds s) = (r, ds)"
    "s' = ?s \<lparr> ms_ds := ds, ms_auth := remove_keygen_authorization (mpi_uuid i) (ms_auth ?s) \<rparr>"
    by (auto simp: in_store_def split: prod.splits)
  then have "(\<forall>pk. check_keygen_authorized (mpi_uuid i) pk (ms_auth s') = None) \<and>
     (\<forall>room. room \<noteq> mpi_uuid i \<longrightarrow> mp_keygen (ms_auth s') room = mp_keygen (ms_auth s) room) \<and>
     mp_signing (ms_auth s') = mp_signing (ms_auth s)"
    by (simp add: check_keygen_authorized_def remove_keygen_authorization_def)
  moreover have "local_share_and_initiate x (mpi_uuid i) (ms_ds s') = Ok (Some (sik_local_share res, ?req))"
    if "r = Ok res" keep "keygen_codec_law x ?req" for res
    using keygen_authed_Ok [of x e ?req keep "ms_ds s" res ds] ds that add_keygen_rooms(1) by fastforce
  ultimately show ?thesis using keygen_authed_Ok [of x e ?req keep "ms_ds s" _ ds] ds(1) by fastforce
qed

section \<open>Sample runs\<close>

definition sample_config :: NodeConfig where
  "sample_config = \<lparr> cfg_network = Dev, cfg_peer_id = peer_id_from_bytes [2], cfg_port_offset = 16480, cfg_p2p_port = None,
     cfg_control_port = None, cfg_public_port = None, cfg_rosetta_port = None, cfg_external_ip = ''127.0.0.1'',
     cfg_external_host = ''localhost'', cfg_executable_checksum = None, cfg_build_number = 1, cfg_key_pair = sample_kp,
     cfg_pid_key_pair = sample_kp, cfg_folder_peer_tx = None \<rparr>"

definition answering_network :: network where
  "answering_network = \<lparr> nw_send = \<lambda>_ _. Inr (), nw_reply = \<lambda>_ _. Inr empty_success, nw_late = \<lambda>_ _. None \<rparr>"

definition sample_mp_env :: mp_env where
  "sample_mp_env = \<lparr> me_sync = sample_sync_env answering_network, me_config = sample_config,
     me_keygen = \<lambda>_ _ _ _ _ _. Some (Ok ''share''),
     me_signing = \<lambda>_ _ _ _ _ _. Some (Ok \<lparr> pr_signature = None, pr_public_key = Some sample_public_key \<rparr>),
     me_elapsed = [], me_join_error = [] \<rparr>"

definition room_of :: "bytes list \<Rightarrow> MultipartyIdentifier" where
  "room_of ks = \<lparr> mpi_party_keys = map public_key_from_bytes ks, mpi_threshold = 1, mpi_uuid = ''room'' \<rparr>"

definition room_request :: "bytes list \<Rightarrow> InitiateMultipartyKeygenRequest" where
  "room_request ks = \<lparr> mkq_identifier = Some (room_of ks) \<rparr>"

definition room_signing :: InitiateMultipartySigningRequest where
  "room_signing = \<lparr> msq_identifier = Some (room_of []), msq_signing_room_id = ''signing'',
     msq_signing_party_keys = [sample_public_key], msq_data_to_sign = bytes_data [5] \<rparr>"

definition mp_host_tx :: Transaction where
  "mp_host_tx = (new_blank 5 7) \<lparr> t_outputs := [output_from_data (set_sd_node_metadata (Some (sample_nmd \<lparr> nm_transport_info :=
     Some \<lparr> ti_external_ipv4 = None, ti_external_ipv6 = None, ti_external_host = Some ''host'', ti_port_offset = None,
       ti_nat_restricted = None \<rparr> \<rparr>)) standard_data_default)] \<rparr>"

text \<open>Requests are told apart by the number of their parties.\<close>

definition mp_ext :: externals where
  "mp_ext = (echo_ext mp_host_tx) \<lparr>
     enc_initiate_keygen := \<lambda>r. case mkq_identifier r of Some i \<Rightarrow> [of_nat (length (mpi_party_keys i))] | None \<Rightarrow> [],
     dec_initiate_keygen := \<lambda>b. Inr (room_request (if b = [2] then [[1], [9]] else [[1], [9], [7, 7, 7]])) \<rparr>"

definition room_store :: data_store where
  "room_store = node_store \<lparr> ds_multiparty := [\<lparr> mpr_room_id = ''room'', mpr_local_share = ''old'', mpr_keygen_time = 1,
     mpr_initiate_keygen = [3], mpr_self_initiated = False, mpr_host_public_key = [1], mpr_keygen_public_key = None \<rparr>] \<rparr>"

lemma room_store_rooms:
  "local_share_and_initiate mp_ext ''room'' room_store = Ok (Some (''old'', room_request [[1], [9], [7, 7, 7]]))"
  by (simp add: local_share_and_initiate_def room_store_def node_store_def empty_store_def pool_def map_err_sqlx_def
      proto_deserialize_def lib_result_def mp_ext_def)

lemma host_known:
  "\<exists>md. query_public_key_metadata mp_ext sample_public_key room_store = Ok (Some md) \<and> external_address mp_ext md = Ok ''host''"
proof -
  have "public_key_validate mp_ext sample_public_key = Ok sample_public_key"
    by (simp add: public_key_validate_def sample_public_key_def to_lib_public_key_def public_key_from_bytes_def)
      (simp add: mp_ext_def echo_ext_def sample_ext_def lib_result_def)
  then have "query_public_key_node mp_ext sample_public_key room_store = Ok (Some mp_host_tx)"
    by (simp add: query_public_key_node_def pool_def map_err_sqlx_def room_store_def node_store_def empty_store_def sample_public_key_def
        public_key_bytes_def public_key_from_bytes_def tbl_lookup_def proto_deserialize_def lib_result_def)
      (simp add: mp_ext_def echo_ext_def)
  then show ?thesis
    by (simp add: query_public_key_metadata_def node_metadata_def mp_host_tx_def output_from_data_def standard_data_default_def
        List.map_filter_simps index_def external_address_def transport_external_address_def)
qed

lemma mp_env_sel:
  "se_key (me_sync sample_mp_env) = public_key_from_bytes [9]" "se_network (me_sync sample_mp_env) = answering_network"
  "me_keygen sample_mp_env a p r n t k = Some (Ok ''share'')"
  "me_signing sample_mp_env a p r l is d = Some (Ok \<lparr> pr_signature = None, pr_public_key = Some sample_public_key \<rparr>)"
  by (simp_all add: sample_mp_env_def sample_sync_env_def)

lemma key_from_bytes_eq [simp]: "public_key_from_bytes a = public_key_from_bytes b \<longleftrightarrow> a = b"
  by (simp add: public_key_from_bytes_def bytes_data_def bytes_data_from_def)

lemma room_store_fault [simp]: "ds_fault room_store = None"
  by (simp add: room_store_def node_store_def)

lemma room_sel:
  "msq_identifier room_signing = Some (room_of [])" "msq_signing_party_keys room_signing = [sample_public_key]"
  "\<exists>d. msq_data_to_sign room_signing = Some d" "msq_signing_room_id room_signing = ''signing''" "mpi_uuid (room_of ks) = ''room''"
  "mkq_identifier (room_request ks) = Some (room_of ks)" "mpi_party_keys (room_of ks) = map public_key_from_bytes ks"
  "mpi_threshold (room_of ks) = 1" "public_key_from_bytes [1] = sample_public_key" "safe_bytes x (pk_bytes sample_public_key) = Ok [1]"
  by (simp_all add: room_signing_def room_of_def room_request_def bytes_data_def sample_public_key_def public_key_from_bytes_def
      safe_bytes_def bytes_data_from_def)

lemmas run_simps = seq_do_def pure_def query_def within_time_def joined_def exec_def pool_def map_err_sqlx_def get_def Let_def

lemma room_signed:
  "\<exists>r ds'. initiate_mp_keysign_follower mp_ext sample_mp_env room_signing (public_key_from_bytes [7, 7, 7]) room_store = (Ok r, ds') \<and>
     ds_multiparty_signatures ds' \<noteq> []"
proof -
  obtain md where md: "query_public_key_metadata mp_ext sample_public_key room_store = Ok (Some md)" "external_address mp_ext md = Ok ''host''"
    using host_known by blast
  show ?thesis
    using room_sel(3) by (auto simp: initiate_mp_keysign_follower_def room_sel(1,2,4-8,10) md mp_env_sel room_store_rooms run_simps
        add_signing_proof_def update_room_id_key_def add_signing_proof_signatures_def add_def tbl_replace_def)
qed

theorem signing_only_for_parties_witness:
  "\<exists>r ds'. initiate_mp_keysign_follower mp_ext sample_mp_env room_signing (public_key_from_bytes [7, 7, 7]) room_store = (Ok r, ds') \<and>
     party_of_room mp_ext room_store ''room'' (public_key_from_bytes [7, 7, 7]) \<and> same_ledger room_store ds' \<and>
     tbl_lookup mps_room_id (ds_multiparty_signatures ds') ''signing'' \<noteq> None"
proof -
  obtain r ds' where f: "initiate_mp_keysign_follower mp_ext sample_mp_env room_signing (public_key_from_bytes [7, 7, 7]) room_store = (Ok r, ds')"
    using room_signed by blast
  from signing_only_for_parties [OF f] room_sel f show ?thesis by auto
qed

lemma mp_codec: "keygen_codec_law mp_ext (room_request [[1], [9]])"
  by (simp add: keygen_codec_law_def mp_ext_def room_request_def room_of_def)

lemma room_party: "party_of_room mp_ext room_store ''room'' (public_key_from_bytes [7, 7, 7])"
  by (simp add: party_of_room_def room_store_rooms room_sel(6,7))

lemma room_stored:
  "\<exists>ds. add_keygen mp_ext now ''share'' ''room'' (room_request [[1], [9]]) self room_store = (Ok (), ds) \<and>
     local_share_and_initiate mp_ext ''room'' ds = Ok (Some (''share'', room_request [[1], [9]]))"
proof -
  obtain ds where "add_keygen mp_ext now ''share'' ''room'' (room_request [[1], [9]]) self room_store = (Ok (), ds)"
    by (simp add: add_keygen_def run_simps room_sel(6,7,9,10))
  with add_keygen_rooms(1) [OF this mp_codec] show ?thesis by blast
qed

theorem keygen_takes_over_room_witness:
  "\<exists>r ds'. initiate_mp_keygen_follower mp_ext sample_mp_env (room_request [[1], [9]]) (public_key_from_bytes [1]) room_store = (Ok r, ds') \<and>
     party_of_room mp_ext room_store ''room'' (public_key_from_bytes [7, 7, 7]) \<and>
     \<not> is_ok (fst (initiate_mp_keysign_follower mp_ext sample_mp_env room_signing (public_key_from_bytes [7, 7, 7]) ds'))"
proof -
  obtain md where md: "query_public_key_metadata mp_ext sample_public_key room_store = Ok (Some md)" "external_address mp_ext md = Ok ''host''"
    using host_known by blast
  obtain ds1 where a: "add_keygen mp_ext (se_now (me_sync sample_mp_env)) ''share'' ''room'' (room_request [[1], [9]]) False room_store =
      (Ok (), ds1)" "local_share_and_initiate mp_ext ''room'' ds1 = Ok (Some (''share'', room_request [[1], [9]]))"
    using room_stored by blast
  have ne: "sample_public_key \<noteq> public_key_from_bytes [9]" by (simp add: sample_public_key_def)
  have f: "initiate_mp_keygen_follower mp_ext sample_mp_env (room_request [[1], [9]]) (public_key_from_bytes [1]) room_store =
      (Ok \<lparr> mkr_initial_request = Some (room_request [[1], [9]]) \<rparr>, ds1)"
    by (simp add: initiate_mp_keygen_follower_def run_simps room_sel(5,6,7,9) md mp_env_sel a ne)
  have "public_key_from_bytes [7, 7, 7] \<notin> set (mpi_party_keys (room_of [[1], [9]]))" by (simp add: room_sel(7))
  with keygen_takes_over_room [OF f _ mp_codec, of "room_of [[1], [9]]" room_signing "room_of []" "public_key_from_bytes [7, 7, 7]" sample_mp_env]
    f room_party room_sel show ?thesis by auto
qed

theorem keygen_threshold_and_authorization_witness:
  "\<exists>r s'. initiate_mp_keygen mp_ext sample_mp_env [] (Some (room_of [[1], [9]])) True None
       \<lparr> ms_ds = room_store, ms_auth = \<lparr> mp_keygen = Map.empty, mp_signing = Map.empty \<rparr> \<rparr> = (Ok r, s') \<and>
     check_keygen_authorized ''room'' (public_key_from_bytes [1]) (ms_auth s') = None \<and>
     local_share_and_initiate mp_ext ''room'' (ms_ds s') = Ok (Some (sik_local_share r, room_request [[1], [9]]))"
proof -
  let ?s = "\<lparr> ms_ds = room_store, ms_auth = \<lparr> mp_keygen = Map.empty, mp_signing = Map.empty \<rparr> \<rparr>"
  obtain ds1 where a: "add_keygen mp_ext (se_now (me_sync sample_mp_env)) ''share'' ''room'' (room_request [[1], [9]]) True room_store =
      (Ok (), ds1)" "local_share_and_initiate mp_ext ''room'' ds1 = Ok (Some (''share'', room_request [[1], [9]]))"
    using room_stored by blast
  have ne: "sample_public_key \<noteq> public_key_from_bytes [9]" by (simp add: sample_public_key_def)
  have ok: "as_error_info mp_ext empty_success = Ok ()" by (simp add: as_error_info_def empty_success_def response_metadata_def)
  have rr: "\<lparr> mkq_identifier = Some (room_of ks) \<rparr> = room_request ks" for ks by (simp add: room_request_def)
  obtain r s' where f: "initiate_mp_keygen mp_ext sample_mp_env [] (Some (room_of [[1], [9]])) True None ?s = (Ok r, s')"
    by (simp add: initiate_mp_keygen_def initiate_mp_keygen_authed_def in_store_def in_auth_def and_finally_def authorize_keygen_def
        run_simps rr room_sel(5-9) mp_env_sel a ne broadcast_async_def send_message_async_def channel_send_def recv_async_err_def
        lib_result_def answering_network_def successful_def ok)
  from keygen_threshold_and_authorization [OF f] f mp_codec room_sel show ?thesis by (auto simp: rr)
qed

end
