(* ===== verification/Peer_Requests.thy ===== *)
theory Peer_Requests
  imports Multiparty Download
begin

text \<open>
  What a node answers to the requests of its peers: the request handler
  (\<open>src/core/peer_rx_event_handler.rs\<close>), the faucet (\<open>src/api/faucet.rs\<close>), the search by hash
  (\<open>src/api/hash_query.rs\<close>), the node's description (\<open>src/api/about.rs\<close>) and the parties of the
  deposit configuration (\<open>src/multiparty/watcher.rs\<close>).  The wallet keys, the captcha service, the
  address parsers of the Bitcoin and Ethereum libraries, the JSON decoder of the deposit
  configuration, the order of iteration over concurrent maps and the outcome of channel operations are
  functions of the environment.  The handler interleaves up to ten messages, by the
  parts of their requests: a part is one step.
\<close>

section \<open>Environment and state\<close>

record DepositKeyAllocation =
  dka_key :: PublicKey
  dka_allocation :: rat
  dka_initiate :: InitiateMultipartyKeygenRequest
  dka_balance_btc :: u64
  dka_balance_rdg :: u64

record DiscoveryMessage =
  dm_node_metadata :: NodeMetadata
  dm_dynamic_node_metadata :: "DynamicNodeMetadata option"

record PeerMessage =
  pm_request :: Request
  pm_response :: "nat option"
  pm_dynamic_node_metadata :: "DynamicNodeMetadata option"

record handler_env =
  he_mp :: mp_env
  he_rnd :: i64
  he_millis :: nat
  he_channel :: nat
  he_words :: "nat \<Rightarrow> KeyPair rg_result"
  he_order :: "Address list \<Rightarrow> Address list"
  he_mempool_iter :: "(Hash \<rightharpoonup> Transaction) \<Rightarrow> Transaction list"
  he_channels_iter :: "(Hash \<rightharpoonup> RequestProcessor) \<Rightarrow> RequestProcessor list"
  he_answer :: "Transaction \<Rightarrow> string + Response"
  he_captcha :: "string \<Rightarrow> string \<Rightarrow> bool rg_result"
  he_btc_address :: "string \<Rightarrow> bool"
  he_eth_address :: "string \<Rightarrow> bool"
  he_deposit_config :: "string \<Rightarrow> string + DepositKeyAllocation list"
  he_discovery_sent :: "string + unit"
  he_observation_sent :: "string + unit"
  he_response_sent :: "string + unit"

record handler_state =
  hs_sync :: sync_state
  hs_limits :: "(string \<times> (nat \<times> i32)) list"
  hs_observations :: "Transaction list"
  hs_discovery :: "DiscoveryMessage list"
  hs_responses :: "(nat \<times> Response) list"

definition in_sync :: "(sync_state, 'a) action \<Rightarrow> (handler_state, 'a) action" where
  "in_sync m s = (case m (hs_sync s) of (r, y) \<Rightarrow> (r, s \<lparr> hs_sync := y \<rparr>))"

definition in_table :: "(data_store, 'a) action \<Rightarrow> (handler_state, 'a) action" where
  "in_table m = in_sync (in_ds m)"

definition he_sync :: "handler_env \<Rightarrow> sync_env" where
  "he_sync h = me_sync (he_mp h)"

definition he_config :: "handler_env \<Rightarrow> NodeConfig" where
  "he_config h = me_config (he_mp h)"

section \<open>Parties of the deposit configuration\<close>

definition is_self_initiated :: "externals \<Rightarrow> PublicKey \<Rightarrow> DepositKeyAllocation \<Rightarrow> bool rg_result" where
  "is_self_initiated x self_key d =
     and_then (safe_get_msg x ''Missing identifier'' (mkq_identifier (dka_initiate d))) (\<lambda>i.
     and_then (safe_get_msg x ''Missing party keys'' (get (mpi_party_keys i) 0)) (\<lambda>k. Ok (k = self_key)))"

definition dka_party_id :: "externals \<Rightarrow> DepositKeyAllocation \<Rightarrow> PartyId rg_result" where
  "dka_party_id x d =
     and_then (safe_get_msg x ''Missing identifier'' (mkq_identifier (dka_initiate d))) (\<lambda>i.
     Ok \<lparr> pty_public_key = Some (dka_key d), pty_owner = get (mpi_party_keys i) 0 \<rparr>)"

definition dka_balances :: "DepositKeyAllocation \<Rightarrow> CurrencyAmount list" where
  "dka_balances d = [currency_amount_from_btc (dka_balance_btc d), currency_amount_from_rdg (dka_balance_btc d)]"

text \<open>\<open>Weighting::from_float\<close> of a quotient, in thousandths, rounded towards zero; a division by
  zero saturates, zero by zero is zero.  The quotient is exact.\<close>

definition weighting_of_ratio :: "i64 \<Rightarrow> nat \<Rightarrow> Weighting" where
  "weighting_of_ratio a n =
     \<lparr> w_value = (if n = 0 then (if a = 0 then 0 else if sint a < 0 then - (2 ^ 63) else 2 ^ 63 - 1)
        else (let q = of_int (sint a) * 1000 / of_nat n :: rat in of_int (if q < 0 then \<lceil>q\<rceil> else \<lfloor>q\<rfloor>))) \<rparr>"

definition party_info :: "externals \<Rightarrow> DepositKeyAllocation \<Rightarrow> PartyInfo rg_result" where
  "party_info x d =
     and_then (safe_get_msg x ''Missing identifier'' (mkq_identifier (dka_initiate d))) (\<lambda>ident.
     and_then (dka_party_id x d) (\<lambda>pid.
     let size = length (mpi_party_keys ident);
         w = weighting_of_ratio (mpi_threshold ident) size;
         mw = weighting_of_ratio 1 size in
     Ok \<lparr> pti_party_id = Some pid, pti_threshold = Some w,
       pti_members = map (\<lambda>p. \<lparr> pme_public_key = Some p, pme_weight = Some mw \<rparr>) (mpi_party_keys ident),
       pti_balances = dka_balances d \<rparr>))"

definition get_deposit_config :: "externals \<Rightarrow> handler_env \<Rightarrow> data_store \<Rightarrow> DepositKeyAllocation list option rg_result" where
  "get_deposit_config x h ds = get_json x (he_deposit_config h) ''deposit_watcher_config'' ds"

section \<open>Addresses and amounts\<close>

definition parse_address :: "externals \<Rightarrow> handler_env \<Rightarrow> string \<Rightarrow> Address rg_result" where
  "parse_address x h s =
     (if he_btc_address h s then Ok (from_bitcoin s)
      else if he_eth_address h s then Ok (from_eth s)
      else (case address_parse x s of
          Ok a \<Rightarrow> Ok a
        | Panic m \<Rightarrow> Panic m
        | Err _ \<Rightarrow> add s (Err (error_info x ''Unable to parse address: ''))))"

definition from_fractional :: "externals \<Rightarrow> rat \<Rightarrow> CurrencyAmount rg_result" where
  "from_fractional x a =
     (if a \<le> 0 then Err (error_info x ''Invalid negative or zero transaction amount'')
      else if of_int (sint MAX_COIN_SUPPLY) < a then Err (error_info x ''Invalid transaction amount'')
      else Ok (currency_amount_from (of_int \<lfloor>a * of_int (sint DECIMAL_MULTIPLIER)\<rfloor>)))"

section \<open>Submission\<close>

definition relay_submit :: "externals \<Rightarrow> handler_env \<Rightarrow> SubmitTransactionRequest \<Rightarrow> (sync_state, SubmitTransactionResponse) action" where
  "relay_submit x h q s =
     (case stq_transaction q of
        None \<Rightarrow> (submit_transaction x (Inr ()) (Inl []) q, s)
      | Some tx \<Rightarrow>
          let m = \<lparr> tm_transaction = tx, tm_response_channel = (if stq_sync_query_response q then Some (he_channel h) else None) \<rparr>;
              sent = se_deliver (he_sync h) m in
          (submit_transaction x sent (he_answer h tx) q,
           case sent of Inr _ \<Rightarrow> s \<lparr> sy_mempool := sy_mempool s @ [m] \<rparr> | Inl _ \<Rightarrow> s))"

section \<open>The faucet\<close>

text \<open>The wallet's addresses for the change indexes one to four.\<close>

definition faucet_keys :: "externals \<Rightarrow> handler_env \<Rightarrow> (Address \<times> KeyPair) list rg_result" where
  "faucet_keys x h = try_fold (\<lambda>m i.
     and_then (expect ''works'' (he_words h i)) (\<lambda>k.
     and_then (key_pair_address_typed x k) (\<lambda>a. Ok (AList.update a k m)))) [] [1..<5]"

definition spendable_utxo :: "externals \<Rightarrow> (Address \<times> KeyPair) list \<Rightarrow> UtxoEntry \<Rightarrow> (UtxoEntry \<times> KeyPair) rg_result" where
  "spendable_utxo x m u =
     and_then (expect ''a'' (utxo_entry_address x u)) (\<lambda>a.
     case map_of m a of None \<Rightarrow> Panic ''Map missing entry'' | Some k \<Rightarrow> Ok (u, k))"

text \<open>On a public network the origin is limited and the captcha is checked; the amount is smaller.\<close>

definition faucet_amount ::
    "externals \<Rightarrow> handler_env \<Rightarrow> string option \<Rightarrow> string option \<Rightarrow> (handler_state, rat) action" where
  "faucet_amount x h option_token origin =
     (if \<not> is_main_stage_network (cfg_network (he_config h)) then pure (Ok 5)
      else seq_do (pure (safe_get_msg x ''No origin found'' origin)) (\<lambda>origin.
        seq_do (\<lambda>s. case check_rate_limit x (he_millis h) origin (hs_limits s) of (r, l) \<Rightarrow> (r, s \<lparr> hs_limits := l \<rparr>)) (\<lambda>ok.
        if \<not> ok then pure (Err (error_info x ''Rate limit exceeded'')) else
        seq_do (pure (safe_get_msg x ''No recaptcha token found'' option_token)) (\<lambda>token.
        seq_do (pure (he_captcha h token origin)) (\<lambda>captcha.
        pure (if \<not> captcha then Err (error_info x ''Recaptcha verification failed'') else Ok (1 / 20)))))))"

definition faucet_tx ::
    "externals \<Rightarrow> handler_env \<Rightarrow> Address \<Rightarrow> rat \<Rightarrow> UtxoEntry \<times> KeyPair \<Rightarrow> Transaction rg_result" where
  "faucet_tx x h addr amt p =
     and_then (with_utxo x (fst p) (builder_new (se_now (he_sync h)) (he_rnd h) (cfg_network (he_config h)))) (\<lambda>b.
     and_then (from_fractional x amt) (\<lambda>a.
     and_then (with_message ''faucet'' (with_output addr a b)) (\<lambda>b.
     and_then (build x b) (\<lambda>(_, t). sign x (snd p) t))))"

definition faucet_request ::
    "externals \<Rightarrow> handler_env \<Rightarrow> FaucetRequest \<Rightarrow> string option \<Rightarrow> (handler_state, FaucetResponse) action" where
  "faucet_request x h q origin =
     (if is_main (cfg_network (he_config h)) then pure (Err (error_info x ''Faucet not supported on mainnet'')) else
      seq_do (pure (safe_get_msg x ''No address found'' (fq_address q))) (\<lambda>addr.
      seq_do (pure (faucet_keys x h)) (\<lambda>m.
      seq_do (in_table (query (utxo_for_addresses x (he_order h (map fst m))))) (\<lambda>result.
      seq_do (pure (try_map (spendable_utxo x m) result)) (\<lambda>utxos.
      if utxos = [] then pure (Err (error_info x ''No UTXOs found for faucet'')) else
      seq_do (faucet_amount x h (fq_token q) origin) (\<lambda>amt.
      seq_do (pure (safe_get x (get utxos 0))) (\<lambda>utxo.
      seq_do (pure (faucet_tx x h addr amt utxo)) (\<lambda>t.
      seq_do (in_sync (relay_submit x h \<lparr> stq_transaction = Some t, stq_sync_query_response = True \<rparr>)) (\<lambda>r.
      pure (Ok \<lparr> fr_submit_transaction_response = Some r \<rparr>))))))))))"

section \<open>Searching by hash\<close>

definition hash_search_default :: HashSearchResponse where
  "hash_search_default = \<lparr> hsr_transaction_info = None, hsr_address_info = None, hsr_observation = None,
     hsr_peer_node_info = None, hsr_peer_id_info = None \<rparr>"

text \<open>The last lookups: a peer identifier, then an observation.\<close>

definition hash_query_peer_id :: "externals \<Rightarrow> handler_env \<Rightarrow> string \<Rightarrow> (data_store, HashSearchResponse) action" where
  "hash_query_peer_id x h hash_input =
     seq_do (pure (from_hex x hash_input)) (\<lambda>result.
     let pid = peer_id_from_bytes result in
     if cfg_peer_id (he_config h) = pid then
       seq_do (peer_id_info x (he_sync h)) (\<lambda>i. pure (Ok (hash_search_default \<lparr> hsr_peer_id_info := Some i \<rparr>)))
     else seq_do (query (query_peer_id_info x pid)) (\<lambda>info. case info of
       Some i \<Rightarrow> pure (Ok (hash_search_default \<lparr> hsr_peer_id_info := Some i \<rparr>))
     | None \<Rightarrow> (case hash_from_hex x hash_input of
         Ok hs \<Rightarrow> seq_do (query (query_observation x hs)) (\<lambda>r. pure (Ok (case r of
             Some t \<Rightarrow> hash_search_default \<lparr> hsr_observation := Some t \<rparr>
           | None \<Rightarrow> hash_search_default)))
       | _ \<Rightarrow> pure (Ok hash_search_default))))"

definition hash_query_node :: "externals \<Rightarrow> handler_env \<Rightarrow> string \<Rightarrow> (data_store, HashSearchResponse) action" where
  "hash_query_node x h hash_input =
     (case public_key_from_hex x hash_input of
        Ok pk \<Rightarrow>
          if \<not> is_ok (public_key_validate x pk) then hash_query_peer_id x h hash_input
          else if se_key (he_sync h) = pk then
            seq_do (peer_node_info x (he_sync h)) (\<lambda>i. pure (Ok (hash_search_default \<lparr> hsr_peer_node_info := Some i \<rparr>)))
          else seq_do (query (query_nodes_peer_node_info x pk)) (\<lambda>pni. case pni of
            Some i \<Rightarrow> pure (Ok (hash_search_default \<lparr> hsr_peer_node_info := Some i \<rparr>))
          | None \<Rightarrow> hash_query_peer_id x h hash_input)
      | _ \<Rightarrow> hash_query_peer_id x h hash_input)"

definition hash_query ::
    "externals \<Rightarrow> handler_env \<Rightarrow> string \<Rightarrow> i64 option \<Rightarrow> i64 option \<Rightarrow> (data_store, HashSearchResponse) action" where
  "hash_query x h hash_input limit offset =
     (case parse_address x h hash_input of
        Ok a \<Rightarrow>
          seq_do (query (query_utxo_address x a)) (\<lambda>res.
          let info = from_utxo_entries a res;
              limit = (case limit of Some l \<Rightarrow> l | None \<Rightarrow> 10);
              offset = (case offset of Some l \<Rightarrow> l | None \<Rightarrow> 0) in
          seq_do (query (get_all_tx_for_address x a limit offset)) (\<lambda>txs.
          pure (Ok (hash_search_default \<lparr> hsr_address_info := Some (info \<lparr> ai_recent_transactions := txs \<rparr>) \<rparr>))))
      | Panic m \<Rightarrow> pure (Panic m)
      | Err _ \<Rightarrow>
          seq_do (pure (from_hex x hash_input)) (\<lambda>b.
          seq_do (query (resolve_transaction_hash x (hash_new b))) (\<lambda>t. case t of
            Some tx_info \<Rightarrow> pure (Ok (hash_search_default \<lparr> hsr_transaction_info := Some tx_info \<rparr>))
          | None \<Rightarrow> hash_query_node x h hash_input)))"

section \<open>The node's description\<close>

definition handle_about_node :: "externals \<Rightarrow> handler_env \<Rightarrow> (sync_state, AboutNodeResponse) action" where
  "handle_about_node x h =
     (let e = he_sync h in
      seq_do (in_ds (query (active_nodes x (se_now e) None))) (\<lambda>active.
      seq_do (in_ds (query (all_peers x))) (\<lambda>peers.
      seq_do (in_ds (query (query_recent_transactions x None None))) (\<lambda>recent.
      seq_do (in_ds (query (count_total_transactions x))) (\<lambda>accepted_count.
      seq_do (query (\<lambda>s. Ok (length (he_channels_iter h (rl_transaction_channels (sy_relay s)))))) (\<lambda>pending_count.
      seq_do (in_ds (query (select_latest_observation x (se_key e)))) (\<lambda>latest.
      seq_do (in_ds (peer_node_info x e)) (\<lambda>pni.
      seq_do (in_ds (own_peer_tx x e)) (\<lambda>p.
      seq_do (in_ds (own_node_tx x e)) (\<lambda>n.
      pure (Ok \<lparr> anr_latest_metadata = Some p, anr_latest_node_metadata = Some n,
        anr_num_known_peers = of_nat (length peers), anr_num_active_peers = of_nat (length active),
        anr_recent_transactions = recent, anr_pending_transactions = of_nat pending_count,
        anr_total_accepted_transactions = accepted_count,
        anr_observation_height = (case Option.bind latest (\<lambda>o1. case height x o1 of Ok v \<Rightarrow> Some v | _ \<Rightarrow> None) of
           Some v \<Rightarrow> v | None \<Rightarrow> 0),
        anr_peer_node_info = Some pni \<rparr>)))))))))))"

section \<open>The parts of a request\<close>

definition answer_faucet :: "externals \<Rightarrow> handler_env \<Rightarrow> Request \<Rightarrow> Response \<Rightarrow> (handler_state, Response) action" where
  "answer_faucet x h q r = (case rq_faucet_request q of
     None \<Rightarrow> pure (Ok r)
   | Some fr \<Rightarrow> seq_do (faucet_request x h fr (rq_origin q)) (\<lambda>f. pure (Ok (r \<lparr> rs_faucet_response := Some f \<rparr>))))"

definition answer_parties :: "externals \<Rightarrow> handler_env \<Rightarrow> Request \<Rightarrow> Response \<Rightarrow> (handler_state, Response) action" where
  "answer_parties x h q r = (case rq_get_parties_info_request q of
     None \<Rightarrow> pure (Ok r)
   | Some _ \<Rightarrow> seq_do (in_table (query (get_deposit_config x h))) (\<lambda>c.
       pure (Ok (r \<lparr> rs_get_parties_info_response := Some \<lparr> gir_party_info =
         (case c of None \<Rightarrow> [] | Some as \<Rightarrow> List.map_filter (\<lambda>a. case party_info x a of Ok v \<Rightarrow> Some v | _ \<Rightarrow> None) as) \<rparr> \<rparr>))))"

definition answer_lookup :: "externals \<Rightarrow> Request \<Rightarrow> Response \<Rightarrow> (handler_state, Response) action" where
  "answer_lookup x q r = (case rq_lookup_transaction_request q of
     None \<Rightarrow> pure (Ok r)
   | Some v \<Rightarrow> seq_do (in_sync (query (\<lambda>s. lookup_transaction x v (sy_relay s)))) (\<lambda>t.
       pure (Ok (r \<lparr> rs_lookup_transaction_response := t \<rparr>))))"

definition answer_genesis :: "externals \<Rightarrow> Request \<Rightarrow> Response \<Rightarrow> (handler_state, Response) action" where
  "answer_genesis x q r = (case rq_genesis_request q of
     None \<Rightarrow> pure (Ok r)
   | Some _ \<Rightarrow> seq_do (in_table (query (get_genesis x))) (\<lambda>t. pure (Ok (r \<lparr> rs_genesis_response := t \<rparr>))))"

definition answer_recent :: "externals \<Rightarrow> handler_env \<Rightarrow> Request \<Rightarrow> Response \<Rightarrow> (handler_state, Response) action" where
  "answer_recent x h q r = (case rq_recent_transactions_request q of
     None \<Rightarrow> pure (Ok r)
   | Some v \<Rightarrow>
       seq_do (in_sync (query (\<lambda>s. Ok (map (hash_or x) (he_mempool_iter h (rl_mempool_entries (sy_relay s))))))) (\<lambda>from_mempool.
       seq_do (in_sync (query (\<lambda>s. Ok (map rp_transaction_hash (he_channels_iter h (rl_transaction_channels (sy_relay s))))))) (\<lambda>in_process.
       seq_do (in_table (query (recent_transaction_hashes x (rdq_limit v) (rdq_min_time v)))) (\<lambda>known.
       pure (Ok (r \<lparr> rs_recent_discovery_transactions_response :=
         Some \<lparr> rdr_transaction_hashes = from_mempool @ in_process @ known \<rparr> \<rparr>))))))"

text \<open>Whether an output is unspent, or which accepted transaction spends it.\<close>

definition utxo_valid_answer :: "externals \<Rightarrow> UtxoId \<Rightarrow> data_store \<Rightarrow> UtxoValidResponse rg_result" where
  "utxo_valid_answer x u ds =
     (let none = \<lparr> uvr_valid = None, uvr_child_transaction = None, uvr_child_transaction_input = None \<rparr> in
      and_then (safe_get x (u_transaction_hash u)) (\<lambda>th.
      and_then (query_utxo_id_valid x th (u_output_index u) ds) (\<lambda>res.
      if res then Ok (none \<lparr> uvr_valid := Some True \<rparr>)
      else and_then (utxo_used x u ds) (\<lambda>child. case child of
          None \<Rightarrow> Ok none
        | Some (child_hash, child_idx) \<Rightarrow>
            and_then (query_maybe_transaction x child_hash ds) (\<lambda>t.
            Ok (case t of
                Some (tx, None) \<Rightarrow> \<lparr> uvr_valid = Some False, uvr_child_transaction = Some tx, uvr_child_transaction_input = Some child_idx \<rparr>
              | _ \<Rightarrow> none))))))"

definition answer_utxo_valid :: "externals \<Rightarrow> Request \<Rightarrow> Response \<Rightarrow> (handler_state, Response) action" where
  "answer_utxo_valid x q r = (case rq_utxo_valid_request q of
     None \<Rightarrow> pure (Ok r)
   | Some u \<Rightarrow> seq_do (in_table (query (utxo_valid_answer x u))) (\<lambda>v. pure (Ok (r \<lparr> rs_utxo_valid_response := Some v \<rparr>))))"

definition answer_code :: "externals \<Rightarrow> Request \<Rightarrow> Response \<Rightarrow> (handler_state, Response) action" where
  "answer_code x q r = (case rq_resolve_code_request q of
     None \<Rightarrow> pure (Ok r)
   | Some addr \<Rightarrow> seq_do (in_table (query (resolve_code x addr))) (\<lambda>v. pure (Ok (r \<lparr> rs_resolve_code_response := Some v \<rparr>))))"

definition answer_state :: "externals \<Rightarrow> Request \<Rightarrow> Response \<Rightarrow> (handler_state, Response) action" where
  "answer_state x q r = (case rq_get_contract_state_marker_request q of
     None \<Rightarrow> pure (Ok r)
   | Some v \<Rightarrow> (case gcq_address v of
       None \<Rightarrow> pure (Err (error_info x ''Missing address or utxo id''))
     | Some a \<Rightarrow> seq_do (in_table (query (query_recent_state x a (gcq_selector v) (Some 1)))) (\<lambda>res.
         pure (Ok (case get res 0 of None \<Rightarrow> r | Some csm \<Rightarrow> r \<lparr> rs_get_contract_state_marker_response := Some csm \<rparr>)))))"

definition answer_hash_search :: "externals \<Rightarrow> handler_env \<Rightarrow> Request \<Rightarrow> Response \<Rightarrow> (handler_state, Response) action" where
  "answer_hash_search x h q r = (case rq_hash_search_request q of
     None \<Rightarrow> pure (Ok r)
   | Some v \<Rightarrow> seq_do (in_table (hash_query x h (hsq_search_string v) None None)) (\<lambda>a.
       pure (Ok (r \<lparr> rs_hash_search_response := Some a \<rparr>))))"

definition answer_observation_proof :: "externals \<Rightarrow> Request \<Rightarrow> Response \<Rightarrow> (handler_state, Response) action" where
  "answer_observation_proof x q r = (case rq_query_observation_proof_request q of
     None \<Rightarrow> pure (Ok r)
   | Some v \<Rightarrow> seq_do (pure (safe_get x (qoq_hash v))) (\<lambda>hs.
       seq_do (in_table (query (select_observation_edge x hs))) (\<lambda>proofs.
       pure (Ok (r \<lparr> rs_query_observation_proof_response := Some \<lparr> qor_observation_proof = proofs \<rparr> \<rparr>)))))"

definition answer_submit :: "externals \<Rightarrow> handler_env \<Rightarrow> Request \<Rightarrow> Response \<Rightarrow> (handler_state, Response) action" where
  "answer_submit x h q r = (case rq_submit_transaction_request q of
     None \<Rightarrow> pure (Ok r)
   | Some v \<Rightarrow> seq_do (in_sync (relay_submit x h v)) (\<lambda>a. pure (Ok (r \<lparr> rs_submit_transaction_response := Some a \<rparr>))))"

definition answer_peers :: "externals \<Rightarrow> handler_env \<Rightarrow> Request \<Rightarrow> Response \<Rightarrow> (handler_state, Response) action" where
  "answer_peers x h q r = (case rq_get_peers_info_request q of
     None \<Rightarrow> pure (Ok r)
   | Some _ \<Rightarrow> seq_do (in_table (query (all_peers_info x))) (\<lambda>vec.
       seq_do (in_table (peer_node_info x (he_sync h))) (\<lambda>self_info.
       pure (Ok (r \<lparr> rs_get_peers_info_response := Some \<lparr> gpr_self_info = Some self_info, gpr_peer_info = vec \<rparr> \<rparr>)))))"

definition answer_gossip_transaction :: "externals \<Rightarrow> handler_env \<Rightarrow> Request \<Rightarrow> Response \<Rightarrow> (handler_state, Response) action" where
  "answer_gossip_transaction x h q r = (case Option.bind (rq_gossip_transaction_request q) gtr_transaction of
     None \<Rightarrow> pure (Ok r)
   | Some t \<Rightarrow> seq_do (in_sync (relay_submit x h \<lparr> stq_transaction = Some t, stq_sync_query_response = False \<rparr>)) (\<lambda>_. pure (Ok r)))"

definition answer_gossip_observation :: "handler_env \<Rightarrow> Request \<Rightarrow> Response \<Rightarrow> (handler_state, Response) action" where
  "answer_gossip_observation h q r = (case rq_gossip_observation_request q of
     None \<Rightarrow> pure (Ok r)
   | Some o1 \<Rightarrow> (case gor_observation o1 of
       None \<Rightarrow> pure (Panic ''called `Option::unwrap()` on a `None` value'')
     | Some t \<Rightarrow> (case he_observation_sent h of
         Inl _ \<Rightarrow> pure (Panic ''gossip send failure'')
       | Inr _ \<Rightarrow> (\<lambda>s. (Ok r, s \<lparr> hs_observations := hs_observations s @ [t] \<rparr>)))))"

definition answer_download :: "externals \<Rightarrow> Request \<Rightarrow> Response \<Rightarrow> (handler_state, Response) action" where
  "answer_download x q r = (case rq_download_request q of
     None \<Rightarrow> pure (Ok r)
   | Some v \<Rightarrow> seq_do (in_table (query (process_download_request x v))) (\<lambda>a. pure (Ok (r \<lparr> rs_download_response := Some a \<rparr>))))"

definition answer_about :: "externals \<Rightarrow> handler_env \<Rightarrow> Request \<Rightarrow> Response \<Rightarrow> (handler_state, Response) action" where
  "answer_about x h q r = (case rq_about_node_request q of
     None \<Rightarrow> pure (Ok r)
   | Some _ \<Rightarrow> seq_do (in_sync (handle_about_node x h)) (\<lambda>a. pure (Ok (r \<lparr> rs_about_node_response := Some a \<rparr>))))"

text \<open>Verified requests only.\<close>

definition answer_keygen :: "externals \<Rightarrow> handler_env \<Rightarrow> PublicKey \<Rightarrow> Request \<Rightarrow> Response \<Rightarrow> (handler_state, Response) action" where
  "answer_keygen x h pk q r = (case rq_initiate_keygen q of
     None \<Rightarrow> pure (Ok r)
   | Some v \<Rightarrow> seq_do (in_table (initiate_mp_keygen_follower x (he_mp h) v pk)) (\<lambda>a.
       pure (Ok (r \<lparr> rs_initiate_keygen_response := Some a \<rparr>))))"

definition answer_signing :: "externals \<Rightarrow> handler_env \<Rightarrow> PublicKey \<Rightarrow> Request \<Rightarrow> Response \<Rightarrow> (handler_state, Response) action" where
  "answer_signing x h pk q r = (case rq_initiate_signing q of
     None \<Rightarrow> pure (Ok r)
   | Some v \<Rightarrow> seq_do (in_table (initiate_mp_keysign_follower x (he_mp h) v pk)) (\<lambda>a.
       pure (Ok (r \<lparr> rs_initiate_signing_response := Some a \<rparr>))))"

definition answer_multiparty ::
    "externals \<Rightarrow> handler_env \<Rightarrow> PublicKey rg_result \<Rightarrow> Request \<Rightarrow> Response \<Rightarrow> (handler_state, Response) action" where
  "answer_multiparty x h verified q r =
     (if \<not> auth_required q then pure (Ok r)
      else (case verified of
         Ok pk \<Rightarrow> seq_do (answer_keygen x h pk q r) (answer_signing x h pk q)
       | Err e \<Rightarrow> pure (add ''Unable to process request, authorization required and failed'' (Err e))
       | Panic m \<Rightarrow> pure (Panic m)))"

section \<open>The handler\<close>

text \<open>What needs no authorization, in the order of the source.\<close>

definition public_response :: "externals \<Rightarrow> handler_env \<Rightarrow> Request \<Rightarrow> (handler_state, Response) action" where
  "public_response x h q =
     seq_do (answer_faucet x h q empty_success) (\<lambda>r.
     seq_do (answer_parties x h q r) (\<lambda>r.
     seq_do (answer_lookup x q r) (\<lambda>r.
     seq_do (answer_genesis x q r) (\<lambda>r.
     seq_do (answer_recent x h q r) (\<lambda>r.
     seq_do (answer_utxo_valid x q r) (\<lambda>r.
     seq_do (answer_code x q r) (\<lambda>r.
     seq_do (answer_state x q r) (\<lambda>r.
     seq_do (answer_hash_search x h q r) (\<lambda>r.
     seq_do (answer_observation_proof x q r) (\<lambda>r.
     seq_do (answer_submit x h q r) (\<lambda>r.
     seq_do (answer_peers x h q r) (\<lambda>r.
     seq_do (answer_gossip_transaction x h q r) (\<lambda>r.
     seq_do (answer_gossip_observation h q r) (\<lambda>r.
     seq_do (answer_download x q r) (\<lambda>r.
     seq_do (answer_about x h q r) (\<lambda>r.
     pure (Ok r)))))))))))))))))"

definition request_response ::
    "externals \<Rightarrow> handler_env \<Rightarrow> Request \<Rightarrow> PublicKey rg_result \<Rightarrow> (handler_state, Response) action" where
  "request_response x h q verified = seq_do (public_response x h q) (answer_multiparty x h verified q)"

text \<open>A known sender is marked as seen; an unknown one is offered to discovery.\<close>

definition greet_sender :: "externals \<Rightarrow> handler_env \<Rightarrow> PeerMessage \<Rightarrow> (handler_state, unit) action" where
  "greet_sender x h pm = (case Option.bind (rq_proof (pm_request pm)) pr_public_key of
     None \<Rightarrow> pure (Ok ())
   | Some pk \<Rightarrow> seq_do (in_table (query (query_public_key_node x pk))) (\<lambda>known.
       if known \<noteq> None then in_table (drop_error (update_last_seen x (se_now (he_sync h)) pk))
       else (case rq_node_metadata (pm_request pm) of
           None \<Rightarrow> pure (Ok ())
         | Some nmd \<Rightarrow> seq_do (pure (public_key_short_id x pk)) (\<lambda>_.
             (\<lambda>s. (Ok (), case he_discovery_sent h of Inl _ \<Rightarrow> s
                | Inr _ \<Rightarrow> s \<lparr> hs_discovery := hs_discovery s @ [\<lparr> dm_node_metadata = nmd,
                    dm_dynamic_node_metadata = pm_dynamic_node_metadata pm \<rparr>] \<rparr>))))))"

text \<open>An error becomes an error response; a panic ends the handler.\<close>

definition as_response :: "(handler_state, Response) action \<Rightarrow> (handler_state, Response) action" where
  "as_response m s = (case m s of (Err e, s') \<Rightarrow> (from_error_info e, s') | v \<Rightarrow> v)"

definition respond :: "handler_env \<Rightarrow> PeerMessage \<Rightarrow> Response \<Rightarrow> (handler_state, unit) action" where
  "respond h pm r s = (Ok (), case (pm_response pm, he_response_sent h) of
     (Some c, Inr _) \<Rightarrow> s \<lparr> hs_responses := hs_responses s @ [(c, r)] \<rparr> | _ \<Rightarrow> s)"

definition handle_incoming_message :: "externals \<Rightarrow> handler_env \<Rightarrow> PeerMessage \<Rightarrow> (handler_state, unit) action" where
  "handle_incoming_message x h pm =
     (case add ''Incoming request authorization failure in peer rx event handler'' (request_verify_auth x (pm_request pm)) of
        Panic m \<Rightarrow> pure (Panic m)
      | verified \<Rightarrow>
          seq_do (greet_sender x h pm) (\<lambda>_.
          seq_do (as_response (request_response x h (pm_request pm) verified)) (\<lambda>r.
          seq_do (in_table (own_node_metadata x (he_sync h))) (\<lambda>nmd.
          seq_do (pure (response_with_auth x (cfg_key_pair (he_config h)) (response_with_metadata nmd r))) (\<lambda>r.
          seq_do (pure (expect ''immediate verify'' (response_verify_auth x (Some (cfg_public_key x (he_config h))) r))) (\<lambda>r.
          respond h pm r))))))"

section \<open>Several messages at once\<close>

text \<open>The handler serves up to ten messages at a time.  A message is served part by part: greeting its sender, each answer of
  the request, and the response.  The failure of an answer makes the rest of the answers an error response; the failure of
  another part, and every panic, is the failure of the message.\<close>

datatype part = Required "Response \<Rightarrow> (handler_state, Response) action" | Answer "Response \<Rightarrow> (handler_state, Response) action"

primrec is_answer :: "part \<Rightarrow> bool" where
  "is_answer (Required f) = False"
| "is_answer (Answer f) = True"

definition request_answers ::
    "externals \<Rightarrow> handler_env \<Rightarrow> Request \<Rightarrow> PublicKey rg_result \<Rightarrow> (Response \<Rightarrow> (handler_state, Response) action) list" where
  "request_answers x h q verified = [answer_faucet x h q, answer_parties x h q, answer_lookup x q, answer_genesis x q, answer_recent x h q,
     answer_utxo_valid x q, answer_code x q, answer_state x q, answer_hash_search x h q, answer_observation_proof x q, answer_submit x h q,
     answer_peers x h q, answer_gossip_transaction x h q, answer_gossip_observation h q, answer_download x q, answer_about x h q,
     answer_multiparty x h verified q]"

definition respond_signed :: "externals \<Rightarrow> handler_env \<Rightarrow> PeerMessage \<Rightarrow> Response \<Rightarrow> (handler_state, Response) action" where
  "respond_signed x h pm r =
     seq_do (in_table (own_node_metadata x (he_sync h))) (\<lambda>nmd.
     seq_do (pure (response_with_auth x (cfg_key_pair (he_config h)) (response_with_metadata nmd r))) (\<lambda>r.
     seq_do (pure (expect ''immediate verify'' (response_verify_auth x (Some (cfg_public_key x (he_config h))) r))) (\<lambda>r.
     seq_do (respond h pm r) (\<lambda>_. pure (Ok r)))))"

definition message_parts :: "externals \<Rightarrow> handler_env \<Rightarrow> PeerMessage \<Rightarrow> part list" where
  "message_parts x h pm =
     (case add ''Incoming request authorization failure in peer rx event handler'' (request_verify_auth x (pm_request pm)) of
        Panic m \<Rightarrow> [Required (\<lambda>_. pure (Panic m))]
      | verified \<Rightarrow>
          Required (\<lambda>r. seq_do (greet_sender x h pm) (\<lambda>_. pure (Ok r))) #
          map Answer (request_answers x h (pm_request pm) verified) @ [Required (respond_signed x h pm)])"

text \<open>A message in service, and what serving its next part comes to.\<close>

record service =
  sv_env :: handler_env
  sv_message :: PeerMessage
  sv_parts :: "part list"
  sv_response :: Response

definition new_service :: "externals \<Rightarrow> handler_env \<Rightarrow> PeerMessage \<Rightarrow> service" where
  "new_service x h pm = \<lparr> sv_env = h, sv_message = pm, sv_parts = message_parts x h pm, sv_response = empty_success \<rparr>"

datatype serve_outcome = Fails "unit rg_result" | Served | Continues service

fun after_part :: "service \<Rightarrow> part list \<Rightarrow> Response rg_result \<Rightarrow> serve_outcome" where
  "after_part sv ps (Ok r) = Continues (sv \<lparr> sv_parts := ps, sv_response := r \<rparr>)"
| "after_part sv ps (Err e) = Fails (Err e)"
| "after_part sv ps (Panic m) = Fails (Panic m)"

definition serve_part :: "service \<Rightarrow> (handler_state \<Rightarrow> serve_outcome \<times> handler_state)" where
  "serve_part sv s = (case sv_parts sv of
     [] \<Rightarrow> (Served, s)
   | Required f # ps \<Rightarrow> (case f (sv_response sv) s of (r, s') \<Rightarrow> (after_part sv ps r, s'))
   | Answer f # ps \<Rightarrow> (case f (sv_response sv) s of
       (Err e, s') \<Rightarrow> (after_part sv (dropWhile is_answer ps) (from_error_info e), s')
     | (r, s') \<Rightarrow> (after_part sv ps r, s')))"

text \<open>The stream of messages still to come, those in service, and the result once the handler has ended.  The first failure
  ends it: what is in service is dropped.  It also ends when the stream is closed and everything is served.\<close>

record server =
  sr_queue :: "(handler_env \<times> PeerMessage) list"
  sr_service :: "service list"
  sr_shared :: handler_state
  sr_result :: "unit rg_result option"

definition server_new :: "(handler_env \<times> PeerMessage) list \<Rightarrow> handler_state \<Rightarrow> server" where
  "server_new ms s = \<lparr> sr_queue = ms, sr_service = [], sr_shared = s, sr_result = None \<rparr>"

definition CONCURRENT_MESSAGES :: nat where
  "CONCURRENT_MESSAGES = 10"

inductive server_step :: "externals \<Rightarrow> server \<Rightarrow> server \<Rightarrow> bool" for x where
  take_message: "sr_result v = None \<Longrightarrow> sr_queue v = (h, pm) # q \<Longrightarrow> length (sr_service v) < CONCURRENT_MESSAGES \<Longrightarrow>
     server_step x v (v \<lparr> sr_queue := q, sr_service := sr_service v @ [new_service x h pm] \<rparr>)"
| serve: "sr_result v = None \<Longrightarrow> i < length (sr_service v) \<Longrightarrow> serve_part (sr_service v ! i) (sr_shared v) = (Continues sv, s) \<Longrightarrow>
     server_step x v (v \<lparr> sr_service := (sr_service v)[i := sv], sr_shared := s \<rparr>)"
| finish: "sr_result v = None \<Longrightarrow> i < length (sr_service v) \<Longrightarrow> serve_part (sr_service v ! i) (sr_shared v) = (Served, s) \<Longrightarrow>
     server_step x v (v \<lparr> sr_service := take i (sr_service v) @ drop (Suc i) (sr_service v), sr_shared := s \<rparr>)"
| fail: "sr_result v = None \<Longrightarrow> i < length (sr_service v) \<Longrightarrow> serve_part (sr_service v ! i) (sr_shared v) = (Fails f, s) \<Longrightarrow>
     server_step x v (v \<lparr> sr_service := [], sr_shared := s, sr_result := Some f \<rparr>)"
| close: "sr_result v = None \<Longrightarrow> sr_queue v = [] \<Longrightarrow> sr_service v = [] \<Longrightarrow> server_step x v (v \<lparr> sr_result := Some (Ok ()) \<rparr>)"

inductive_cases server_stepE: "server_step x v v'"

text \<open>The parts of the public answer.\<close>

lemmas answer_defs =
  answer_faucet_def answer_parties_def answer_lookup_def answer_genesis_def answer_recent_def answer_utxo_valid_def
  answer_code_def answer_state_def answer_hash_search_def answer_observation_proof_def answer_submit_def answer_peers_def
  answer_gossip_transaction_def answer_gossip_observation_def answer_download_def answer_about_def

section \<open>What serving a request changes\<close>

text \<open>
  The tables of the ledger, of observations and of peers stay; nodes keep their rows but for the time
  they were last seen; the multiparty tables change only where that is allowed.
\<close>

definition unseen :: "node_row \<Rightarrow> node_row" where
  "unseen r = r \<lparr> nr_last_seen := 0 \<rparr>"

definition served :: "bool \<Rightarrow> data_store \<Rightarrow> data_store \<Rightarrow> bool" where
  "served mp ds ds' \<longleftrightarrow> ds' = ds \<lparr> ds_config := ds_config ds', ds_nodes := ds_nodes ds', ds_multiparty := ds_multiparty ds',
       ds_multiparty_signatures := ds_multiparty_signatures ds' \<rparr> \<and>
     map unseen (ds_nodes ds') = map unseen (ds_nodes ds) \<and>
     (\<not> mp \<longrightarrow> ds_multiparty ds' = ds_multiparty ds \<and> ds_multiparty_signatures ds' = ds_multiparty_signatures ds)"

lemma served_refl: "served mp ds ds"
  by (simp add: served_def)

lemma served_updates:
  assumes "served mp ds d"
  shows "served mp ds (d \<lparr> ds_config := c \<rparr>)"
    and "map unseen ns = map unseen (ds_nodes d) \<Longrightarrow> served mp ds (d \<lparr> ds_nodes := ns \<rparr>)"
    and "mp \<Longrightarrow> served mp ds (d \<lparr> ds_multiparty := rs \<rparr>)"
    and "mp \<Longrightarrow> served mp ds (d \<lparr> ds_multiparty_signatures := gs \<rparr>)"
  using assms unfolding served_def by (cases ds; cases d; simp)+

named_theorems serve_rules

lemma store_proto_served [serve_rules]: "preserves (served mp ds) (store_proto_ref x enc k v)"
  unfolding store_proto_ref_def insert_update_bytes_def config_replace_def
  by (rule preserves_exec) (auto simp: result_simps intro: served_updates)

lemma own_tx_served [serve_rules]:
  "preserves (served mp ds) (own_peer_tx x e)" "preserves (served mp ds) (own_node_tx x e)"
  unfolding own_peer_tx_def own_node_tx_def peer_tx_def node_tx_def set_peer_tx_def set_node_tx_def Let_def
  by (intro preserves_rules serve_rules)+

lemma own_metadata_served [serve_rules]:
  "preserves (served mp ds) (own_node_metadata x e)" "preserves (served mp ds) (peer_node_info x e)"
  "preserves (served mp ds) (peer_id_info x e)"
  unfolding own_node_metadata_def relay_node_metadata_def peer_id_info_def peer_node_info_def dynamic_node_metadata_def set_dynamic_md_def
  by (intro preserves_rules serve_rules own_tx_served [unfolded own_node_tx_def])+

lemma update_last_seen_served [serve_rules]: "preserves (served mp ds) (update_last_seen x now k)"
  unfolding update_last_seen_def
  by (rule preserves_exec) (auto simp: result_simps unseen_def split: if_splits intro!: served_updates)

lemma keygen_follower_served: "preserves (served True ds) (initiate_mp_keygen_follower x e q pk)"
  unfolding initiate_mp_keygen_follower_def add_keygen_def
  by (intro preserves_rules) (auto simp: result_simps intro: served_updates)

lemma keysign_follower_served: "preserves (served True ds) (initiate_mp_keysign_follower x e q pk)"
  unfolding initiate_mp_keysign_follower_def add_signing_proof_def update_room_id_key_def add_signing_proof_signatures_def Let_def split_def
  by (intro preserves_rules) (auto simp: result_simps intro: served_updates)

lemma hash_query_served [serve_rules]: "preserves (served mp ds) (hash_query x h i l o1)"
proof -
  have p: "preserves (served mp ds) (hash_query_peer_id x h i)"
    unfolding hash_query_peer_id_def Let_def
    by (intro preserves_rules serve_rules) (auto split: result.splits intro!: preserves_rules)
  have n: "preserves (served mp ds) (hash_query_node x h i)"
    unfolding hash_query_node_def by (auto split: result.splits intro!: preserves_rules serve_rules p)
  show ?thesis unfolding hash_query_def Let_def by (auto split: result.splits intro!: preserves_rules n)
qed

text \<open>What a request puts on the mempool's channel: its own transactions or, for a faucet request off the main network, what the
  faucet submits, which is not constrained further.\<close>

definition offered :: "handler_env \<Rightarrow> Request \<Rightarrow> TransactionMessage \<Rightarrow> bool" where
  "offered h q m \<longleftrightarrow> Option.bind (rq_submit_transaction_request q) stq_transaction = Some (tm_transaction m) \<or>
     Option.bind (rq_gossip_transaction_request q) gtr_transaction = Some (tm_transaction m) \<or>
     (rq_faucet_request q \<noteq> None \<and> \<not> is_main (cfg_network (he_config h)))"

abbreviation hs_ds :: "handler_state \<Rightarrow> data_store" where
  "hs_ds s \<equiv> rl_ds (sy_relay (hs_sync s))"

definition handled :: "bool \<Rightarrow> handler_env \<Rightarrow> Request \<Rightarrow> handler_state \<Rightarrow> handler_state \<Rightarrow> bool" where
  "handled mp h q s s' \<longleftrightarrow> served mp (hs_ds s) (hs_ds s') \<and> sy_relay (hs_sync s') \<lparr> rl_ds := hs_ds s \<rparr> = sy_relay (hs_sync s) \<and>
     (\<exists>ms. sy_mempool (hs_sync s') = sy_mempool (hs_sync s) @ ms \<and> list_all (offered h q) ms)"

lemma handled_refl: "handled mp h q s s"
  by (simp add: handled_def served_refl)

lemma in_sync_query [serve_rules]: "preserves I (in_sync (query f))"
  by (simp add: preserves_def in_sync_def query_def)

lemma in_table_handled:
  assumes "preserves (served mp (hs_ds s)) m"
  shows "preserves (handled mp h q s) (in_table m)"
  unfolding preserves_def
proof (intro allI impI)
  fix s1 assume "handled mp h q s s1"
  moreover from this have "served mp (hs_ds s) (snd (m (hs_ds s1)))" using assms by (auto simp: handled_def preserves_def)
  ultimately show "handled mp h q s (snd (in_table m s1))"
    by (auto simp: handled_def in_table_def in_sync_def in_ds_def split: prod.splits)
qed

lemma in_table_query [serve_rules]: "preserves (handled mp h q s) (in_table (query f))"
  by (intro in_table_handled preserves_rules)

lemma relay_submit_handled:
  assumes "\<And>t c. stq_transaction v = Some t \<Longrightarrow> offered h q \<lparr> tm_transaction = t, tm_response_channel = c \<rparr>"
  shows "preserves (handled mp h q s) (in_sync (relay_submit x h v))"
  using assms by (auto simp: preserves_def handled_def in_sync_def relay_submit_def Let_def split: option.splits sum.splits)

lemma quiet_fields [serve_rules]:
  "handled mp h q s s' \<Longrightarrow> handled mp h q s (s' \<lparr> hs_limits := l \<rparr>)"
  "handled mp h q s s' \<Longrightarrow> handled mp h q s (s' \<lparr> hs_observations := os \<rparr>)"
  "handled mp h q s s' \<Longrightarrow> handled mp h q s (s' \<lparr> hs_discovery := ds \<rparr>)"
  "handled mp h q s s' \<Longrightarrow> handled mp h q s (s' \<lparr> hs_responses := rs \<rparr>)"
  by (simp_all add: handled_def)

lemma faucet_handled:
  assumes "rq_faucet_request q \<noteq> None"
  shows "preserves (handled mp h q s) (faucet_request x h f o1)"
proof (cases "is_main (cfg_network (he_config h))")
  case False
  have "preserves (handled mp h q s) (faucet_amount x h tk og)" for tk og
    unfolding faucet_amount_def
    by (intro preserves_rules) (auto simp: preserves_def split: prod.splits intro: serve_rules)
  then show ?thesis unfolding faucet_request_def if_not_P [OF False]
    by (intro preserves_rules serve_rules relay_submit_handled) (use assms False in \<open>simp_all add: offered_def\<close>)
qed (simp add: faucet_request_def preserves_pure)

lemma preserves_some:
  "preserves I m \<Longrightarrow> (\<And>a. v = Some a \<Longrightarrow> preserves I (f a)) \<Longrightarrow> preserves I (case v of None \<Rightarrow> m | Some a \<Rightarrow> f a)"
  by (cases v) auto

lemma in_sync_seq_do: "in_sync (seq_do m f) = seq_do (in_sync m) (\<lambda>a. in_sync (f a))"
  by (auto simp: in_sync_def seq_do_def fun_eq_iff split: prod.splits result.splits)

lemma in_sync_pure: "in_sync (pure r) = pure r"
  by (simp add: in_sync_def pure_def fun_eq_iff)

lemma about_handled: "preserves (handled mp h q s) (in_sync (handle_about_node x h))"
  unfolding handle_about_node_def Let_def in_sync_seq_do in_sync_pure in_table_def [symmetric]
  by (intro preserves_rules serve_rules in_table_handled)

lemma public_response_handled: "preserves (handled mp h q s) (public_response x h q)"
  unfolding public_response_def answer_defs
  by (intro preserves_pure preserves_query preserves_seq_do preserves_some serve_rules in_table_handled faucet_handled about_handled relay_submit_handled)
    (auto simp: offered_def preserves_def pure_def split: sum.splits intro: serve_rules)

lemma multiparty_handled:
  "preserves (handled (auth_required q \<and> is_ok v) h q s) (answer_multiparty x h v q r)"
proof (cases "auth_required q \<and> is_ok v")
  case True
  then obtain pk where "v = Ok pk" by (cases v) auto
  with True show ?thesis
    unfolding answer_multiparty_def answer_keygen_def answer_signing_def
    by (auto intro!: preserves_rules in_table_handled keygen_follower_served keysign_follower_served)
qed (cases v; auto simp: answer_multiparty_def intro: preserves_rules)

lemma greet_sender_handled: "preserves (handled mp h q s) (greet_sender x h pm)"
  unfolding greet_sender_def
  by (intro preserves_rules serve_rules in_table_handled)
    (auto simp: preserves_def split: sum.splits intro: serve_rules)

lemma as_response_preserves: "preserves I m \<Longrightarrow> preserves I (as_response m)"
  by (auto simp: preserves_def as_response_def split: prod.splits result.splits)

lemma respond_handled: "preserves (handled mp h q s) (respond h pm r)"
  by (auto simp: preserves_def respond_def split: option.splits sum.splits intro: serve_rules)

lemma is_ok_add: "is_ok (add m r) = is_ok r"
  by (cases r) (simp_all add: add_def)

lemma handle_incoming_message_handled:
  assumes "\<And>m r. preserves (handled mp h (pm_request pm) s) (answer_multiparty x h (add m (request_verify_auth x (pm_request pm))) (pm_request pm) r)"
  shows "handled mp h (pm_request pm) s (snd (handle_incoming_message x h pm s))"
proof -
  have "preserves (handled mp h (pm_request pm) s) (request_response x h (pm_request pm) (add m (request_verify_auth x (pm_request pm))))" for m
    unfolding request_response_def by (intro preserves_seq_do public_response_handled assms)
  from this [of "''Incoming request authorization failure in peer rx event handler''"]
  have "preserves (handled mp h (pm_request pm) s) (handle_incoming_message x h pm)"
    unfolding handle_incoming_message_def
    by (auto split: result.split intro!: preserves_rules greet_sender_handled as_response_preserves respond_handled in_table_handled
        own_metadata_served)
  from preservesD [OF this handled_refl] show ?thesis .
qed

text \<open>C14: Whatever a peer sends, serving it writes no table of the ledger, of observations or of peers and no
  shared map of the relay: the node's own configuration and the time a node was last seen may change, the multiparty tables
  only when the request asks for key generation or signing and its signature verifies.  All that reaches the mempool
  are the transactions the request itself submits or gossips and, for a faucet request off the main network, what the
  faucet submits.\<close>

theorem request_changes_only_handled:
  "handled (auth_required (pm_request pm) \<and> is_ok (request_verify_auth x (pm_request pm))) h (pm_request pm) s
     (snd (handle_incoming_message x h pm s))"
proof (rule handle_incoming_message_handled)
  fix m r
  show "preserves (handled (auth_required (pm_request pm) \<and> is_ok (request_verify_auth x (pm_request pm))) h (pm_request pm) s)
      (answer_multiparty x h (add m (request_verify_auth x (pm_request pm))) (pm_request pm) r)"
    using multiparty_handled [of "pm_request pm" "add m (request_verify_auth x (pm_request pm))" h s x r] by (simp add: is_ok_add)
qed

text \<open>Only a party's signing request changes the store.\<close>

lemma party_of_room_handled:
  assumes "handled False h q s s1"
  shows "party_of_room x (hs_ds s1) room pk = party_of_room x (hs_ds s) room pk"
proof -
  have "hs_ds s1 = hs_ds s \<lparr> ds_config := ds_config (hs_ds s1), ds_nodes := ds_nodes (hs_ds s1) \<rparr>"
    using assms unfolding handled_def served_def by (cases "hs_ds s"; cases "hs_ds s1"; simp)
  then obtain c n where "hs_ds s1 = hs_ds s \<lparr> ds_config := c, ds_nodes := n \<rparr>" by blast
  then show ?thesis by (simp add: party_of_room_def local_share_and_initiate_def pool_def)
qed

lemma answer_signing_handled:
  assumes "\<And>v i. rq_initiate_signing q = Some v \<Longrightarrow> msq_identifier v = Some i \<Longrightarrow> \<not> party_of_room x (hs_ds s) (mpi_uuid i) pk"
  shows "preserves (handled False h q s) (answer_signing x h pk q r)"
proof (cases "rq_initiate_signing q")
  case (Some v)
  have "snd (initiate_mp_keysign_follower x (he_mp h) v pk (hs_ds s1)) = hs_ds s1" if "handled False h q s s1" for s1
    using keysign_follower_steps [of x "he_mp h" v pk "hs_ds s1"] assms [OF Some] party_of_room_handled [OF that]
    by (metis prod.collapse)
  then have "snd (in_table (initiate_mp_keysign_follower x (he_mp h) v pk) s1) = s1" if "handled False h q s s1" for s1
    using that by (simp add: in_table_def in_sync_def in_ds_def split_def)
  then have "preserves (handled False h q s) (in_table (initiate_mp_keysign_follower x (he_mp h) v pk))"
    by (simp add: preserves_def)
  then show ?thesis unfolding answer_signing_def Some by (auto intro: preserves_rules)
qed (simp add: answer_signing_def preserves_pure)

text \<open>C15: A node adds a threshold signature, or any row of the multiparty tables, for a message only in two cases: the request
  carries a key generation, or it is a signing request whose signature verifies under a key that is a party of the
  room it names, as this node stored it before the message arrived.\<close>

theorem signature_for_verified_party:
  assumes "rq_initiate_keygen (pm_request pm) = None"
    and "\<not> served False (hs_ds s) (hs_ds (snd (handle_incoming_message x h pm s)))"
  shows "\<exists>v i pk. rq_initiate_signing (pm_request pm) = Some v \<and> msq_identifier v = Some i \<and>
     request_verify_auth x (pm_request pm) = Ok pk \<and> party_of_room x (hs_ds s) (mpi_uuid i) pk"
proof (rule ccontr)
  assume no: "\<not> ?thesis"
  have "preserves (handled False h (pm_request pm) s) (answer_multiparty x h (add m (request_verify_auth x (pm_request pm))) (pm_request pm) r)" for m r
  proof (cases "request_verify_auth x (pm_request pm)")
    case (Ok pk)
    with no have "preserves (handled False h (pm_request pm) s) (answer_signing x h pk (pm_request pm) r)" for r
      by (intro answer_signing_handled) blast
    with Ok assms(1) show ?thesis
      by (auto simp: answer_multiparty_def answer_keygen_def add_def intro!: preserves_rules)
  qed (auto simp: answer_multiparty_def add_def intro: preserves_rules)
  from handle_incoming_message_handled [OF this] assms(2) show False by (simp add: handled_def)
qed

section \<open>Serving in parts\<close>

text \<open>Serving the parts of one message, one after the other, is handling the message.\<close>

function run_parts :: "part list \<Rightarrow> Response \<Rightarrow> (handler_state, unit) action" where
  "run_parts [] r s = (Ok (), s)"
| "run_parts (Required f # ps) r s = (case f r s of
     (Ok r', s') \<Rightarrow> run_parts ps r' s' | (Err e, s') \<Rightarrow> (Err e, s') | (Panic m, s') \<Rightarrow> (Panic m, s'))"
| "run_parts (Answer f # ps) r s = (case f r s of
     (Ok r', s') \<Rightarrow> run_parts ps r' s' | (Panic m, s') \<Rightarrow> (Panic m, s')
   | (Err e, s') \<Rightarrow> (case from_error_info e of
        Ok r' \<Rightarrow> run_parts (dropWhile is_answer ps) r' s' | Err e' \<Rightarrow> (Err e', s') | Panic m \<Rightarrow> (Panic m, s')))"
  by pat_completeness auto
termination
  by (relation "measure (\<lambda>(ps, _, _). length ps)") (auto simp: less_Suc_eq_le length_dropWhile_le)

primrec answer_all :: "(Response \<Rightarrow> (handler_state, Response) action) list \<Rightarrow> Response \<Rightarrow> (handler_state, Response) action" where
  "answer_all [] r = pure (Ok r)"
| "answer_all (f # fs) r = seq_do (f r) (answer_all fs)"

lemma answer_all_eta: "answer_all [] = (\<lambda>r. pure (Ok r))" "answer_all (f # fs) = (\<lambda>r. seq_do (f r) (answer_all fs))"
  by (simp_all add: fun_eq_iff)

lemma answer_all_append: "answer_all (fs @ gs) r = seq_do (answer_all fs r) (answer_all gs)"
  by (induction fs arbitrary: r) (auto simp: seq_do_def pure_def fun_eq_iff split: result.splits prod.splits)

lemma run_answers:
  "run_parts (map Answer fs @ [Required f]) r = seq_do (as_response (answer_all fs r)) (run_parts [Required f])"
proof (induction fs arbitrary: r)
  case (Cons g fs)
  have d: "dropWhile is_answer (map Answer fs @ [Required f]) = [Required f]" by (simp add: dropWhile_append3)
  show ?case using Cons.IH
    by (auto simp: fun_eq_iff d seq_do_def as_response_def split: result.splits prod.splits)
qed (simp add: fun_eq_iff seq_do_def as_response_def pure_def)

lemma request_response_answers: "request_response x h q v = answer_all (request_answers x h q v) empty_success"
proof -
  have "public_response x h q = answer_all (butlast (request_answers x h q v)) empty_success"
    by (simp add: public_response_def request_answers_def answer_all_eta del: answer_all.simps)
  moreover have "request_answers x h q v = butlast (request_answers x h q v) @ [answer_multiparty x h v q]"
    by (simp add: request_answers_def)
  moreover have "answer_all [answer_multiparty x h v q] = answer_multiparty x h v q"
    by (auto simp: fun_eq_iff seq_do_def pure_def split: result.splits prod.splits)
  ultimately show ?thesis by (metis answer_all_append request_response_def)
qed

lemma run_parts_message: "run_parts (message_parts x h pm) empty_success = handle_incoming_message x h pm"
proof -
  have "run_parts [Required (respond_signed x h pm)] = (\<lambda>r. seq_do (respond_signed x h pm r) (\<lambda>_. pure (Ok ())))"
    by (auto simp: fun_eq_iff seq_do_def pure_def split: result.splits prod.splits)
  then have r: "run_parts (map Answer (request_answers x h q v) @ [Required (respond_signed x h pm)]) empty_success =
      seq_do (as_response (request_response x h q v)) (\<lambda>r. seq_do (respond_signed x h pm r) (\<lambda>_. pure (Ok ())))" for q v
    by (simp only: run_answers request_response_answers)
  show ?thesis unfolding handle_incoming_message_def message_parts_def
    by (auto simp: fun_eq_iff r seq_do_def pure_def respond_def respond_signed_def split: result.splits prod.splits)
qed

lemma serve_alone:
  assumes "run_parts ps r s = (f, s')" "sv_parts sv = ps" "sv_response sv = r"
  shows "(server_step x)\<^sup>*\<^sup>* \<lparr> sr_queue = [], sr_service = [sv], sr_shared = s, sr_result = None \<rparr>
     \<lparr> sr_queue = [], sr_service = [], sr_shared = s', sr_result = Some f \<rparr>"
  using assms
proof (induction ps r s arbitrary: sv rule: run_parts.induct)
  case (1 r s)
  let ?v = "\<lparr> sr_queue = [], sr_service = [sv], sr_shared = s, sr_result = None \<rparr>"
  have "server_step x ?v \<lparr> sr_queue = [], sr_service = [], sr_shared = s, sr_result = None \<rparr>"
    using server_step.finish [of ?v 0 s x] 1 by (simp add: serve_part_def)
  moreover have "server_step x \<lparr> sr_queue = [], sr_service = [], sr_shared = s, sr_result = None \<rparr>
      \<lparr> sr_queue = [], sr_service = [], sr_shared = s, sr_result = Some (Ok ()) \<rparr>"
    using server_step.close [of "\<lparr> sr_queue = [], sr_service = [], sr_shared = s, sr_result = None \<rparr>" x] by simp
  ultimately show ?case using 1 by auto
next
  case (2 g ps r s)
  note go = server_step.serve [of "\<lparr> sr_queue = [], sr_service = [sv], sr_shared = s, sr_result = None \<rparr>" 0 _ _ x]
    and end_ = server_step.fail [of "\<lparr> sr_queue = [], sr_service = [sv], sr_shared = s, sr_result = None \<rparr>" 0 _ _ x]
  show ?case
  proof (cases "g r s")
    case (Pair res t)
    then show ?thesis using 2 go end_
      by (cases res) (auto simp: serve_part_def intro: converse_rtranclp_into_rtranclp)
  qed
next
  case (3 g ps r s)
  note go = server_step.serve [of "\<lparr> sr_queue = [], sr_service = [sv], sr_shared = s, sr_result = None \<rparr>" 0 _ _ x]
    and end_ = server_step.fail [of "\<lparr> sr_queue = [], sr_service = [sv], sr_shared = s, sr_result = None \<rparr>" 0 _ _ x]
  show ?case
  proof (cases "g r s")
    case (Pair res t)
    show ?thesis
    proof (cases res)
      case (Err e)
      with Pair 3 go end_ show ?thesis
        by (cases "from_error_info e") (auto simp: serve_part_def intro: converse_rtranclp_into_rtranclp)
    qed (use Pair 3 go end_ in \<open>auto simp: serve_part_def intro: converse_rtranclp_into_rtranclp\<close>)
  qed
qed

lemma message_alone:
  assumes "handle_incoming_message x h pm s = (f, s')"
  shows "(server_step x)\<^sup>*\<^sup>* (server_new [(h, pm)] s) \<lparr> sr_queue = [], sr_service = [], sr_shared = s', sr_result = Some f \<rparr>"
proof -
  have "server_step x (server_new [(h, pm)] s) \<lparr> sr_queue = [], sr_service = [new_service x h pm], sr_shared = s, sr_result = None \<rparr>"
    using server_step.take_message [of "server_new [(h, pm)] s" h pm "[]" x] by (simp add: server_new_def CONCURRENT_MESSAGES_def)
  moreover have "run_parts (message_parts x h pm) empty_success s = (f, s')" using assms by (simp add: run_parts_message)
  ultimately show ?thesis
    using serve_alone [of _ _ s f s' "new_service x h pm" x] by (auto simp: new_service_def intro: converse_rtranclp_into_rtranclp)
qed

text \<open>Every run ends: the parts still to be served become fewer.\<close>

definition server_work :: "externals \<Rightarrow> server \<Rightarrow> nat" where
  "server_work x v = (\<Sum>(h, pm) \<leftarrow> sr_queue v. length (message_parts x h pm) + 2) +
     (\<Sum>sv \<leftarrow> sr_service v. length (sv_parts sv) + 1) + (if sr_result v = None then 1 else 0)"

lemma after_part_shorter: "after_part sv ps r = Continues sv' \<Longrightarrow> sv_parts sv' = ps"
  by (cases r) auto

lemma serve_part_shorter: "serve_part sv s = (Continues sv', s') \<Longrightarrow> length (sv_parts sv') < length (sv_parts sv)"
  using length_dropWhile_le [of is_answer]
  by (auto simp: serve_part_def less_Suc_eq_le dest!: after_part_shorter split: list.splits part.splits prod.splits result.splits)

lemma split_at: "i < length l \<Longrightarrow> \<exists>ks ls. l = ks @ l ! i # ls \<and> length ks = i"
  by (metis id_take_nth_drop length_take min.absorb4)

lemma server_step_works: "server_step x v v' \<Longrightarrow> server_work x v' < server_work x v"
proof (induction rule: server_step.induct)
  case (serve v i sv s)
  obtain ks y ls where l: "sr_service v = ks @ y # ls" "length ks = i" "sr_service v ! i = y"
    using split_at [OF serve(2)] by blast
  then show ?case using serve_part_shorter [OF serve(3)] by (auto simp: server_work_def list_update_append)
next
  case (finish v i s)
  obtain ks y ls where "sr_service v = ks @ y # ls" "length ks = i" using split_at [OF finish(2)] by blast
  then show ?case by (auto simp: server_work_def)
qed (auto simp: server_work_def new_service_def)

lemma server_terminates: "wfp ((server_step x)\<inverse>\<inverse>)"
  by (rule wfp_if_convertible_to_nat [of _ "server_work x"]) (simp add: server_step_works)

lemma server_running:
  assumes "sr_result v = None"
  shows "\<exists>v'. server_step x v v'"
proof (cases "sr_service v")
  case Nil
  with assms show ?thesis using server_step.take_message [OF assms] server_step.close [OF assms]
    by (cases "sr_queue v") (auto simp: CONCURRENT_MESSAGES_def)
next
  case (Cons sv svs)
  then have "0 < length (sr_service v)" by simp
  with assms show ?thesis
    by (cases "serve_part (sr_service v ! 0) (sr_shared v)"; cases "fst (serve_part (sr_service v ! 0) (sr_shared v))")
      (auto intro: server_step.intros)
qed

lemma server_ended: "sr_result v = Some f \<Longrightarrow> \<not> server_step x v v'"
  by (auto elim: server_stepE)

section \<open>Messages that end the handler\<close>

text \<open>A message whose first part fails whatever the state, once it has arrived: the handler runs and has it before it, or it has failed.\<close>

definition awaits :: "externals \<Rightarrow> handler_env \<Rightarrow> PeerMessage \<Rightarrow> server \<Rightarrow> bool" where
  "awaits x h pm v \<longleftrightarrow> (case sr_result v of
     None \<Rightarrow> (h, pm) \<in> set (sr_queue v) \<or> new_service x h pm \<in> set (sr_service v) | Some f \<Rightarrow> \<not> is_ok f)"

lemma serve_part_fails: "serve_part sv s = (Fails f, s') \<Longrightarrow> \<not> is_ok f"
proof -
  have "after_part sv ps r = Fails f \<Longrightarrow> \<not> is_ok f" for ps r by (cases r) auto
  then show "serve_part sv s = (Fails f, s') \<Longrightarrow> \<not> is_ok f"
    by (auto simp: serve_part_def split: list.splits part.splits prod.splits result.splits)
qed

lemma awaits_step:
  assumes "server_step x v v'" "awaits x h pm v" "\<And>s. \<exists>f s'. serve_part (new_service x h pm) s = (Fails f, s')"
  shows "awaits x h pm v'"
proof -
  have other: "new_service x h pm \<in> set ((sr_service v)[i := sv]) \<and> new_service x h pm \<in> set (take i (sr_service v) @ drop (Suc i) (sr_service v))"
    if "new_service x h pm \<in> set (sr_service v)" "i < length (sr_service v)" "sr_service v ! i \<noteq> new_service x h pm" for i sv
  proof -
    from that have "new_service x h pm \<in> set (take i (sr_service v)) \<union> set (drop (Suc i) (sr_service v))"
      using id_take_nth_drop [of i "sr_service v"] by (metis Un_iff set_ConsD set_append)
    then show ?thesis using that(2) by (auto simp: upd_conv_take_nth_drop)
  qed
  from assms(1) show ?thesis
  proof cases
    case (serve i sv s)
    with assms(3) [of "sr_shared v"] have "sr_service v ! i \<noteq> new_service x h pm" by auto
    with serve assms(2) other show ?thesis by (auto simp: awaits_def)
  next
    case (finish i s)
    with assms(3) [of "sr_shared v"] have "sr_service v ! i \<noteq> new_service x h pm" by auto
    with finish assms(2) other [of i] show ?thesis by (auto simp: awaits_def)
  qed (use assms(2) in \<open>auto simp: awaits_def dest: serve_part_fails\<close>)
qed

lemma awaits_run:
  assumes "(server_step x)\<^sup>*\<^sup>* (server_new ms s) v" "(h, pm) \<in> set ms" "\<And>s. \<exists>f s'. serve_part (new_service x h pm) s = (Fails f, s')"
  shows "awaits x h pm v"
  using assms(1)
proof (induction rule: rtranclp_induct)
  case base
  then show ?case using assms(2) by (simp add: awaits_def server_new_def)
next
  case (step v v')
  then show ?case using awaits_step assms(3) by blast
qed

lemma invalid_key_greeting:
  assumes "Option.bind (rq_proof (pm_request pm)) pr_public_key = Some pk" "\<not> is_ok (public_key_validate x pk)"
  shows "\<exists>f. \<not> is_ok f \<and> serve_part (new_service x h pm) s = (Fails f, s)"
proof -
  have "\<not> is_ok (query_public_key_node x pk (hs_ds s))"
    using assms(2) by (cases "pool x (hs_ds s)"; cases "public_key_validate x pk") (simp_all add: query_public_key_node_def)
  then obtain f :: "unit rg_result" where f: "greet_sender x h pm s = (f, s)" "\<not> is_ok f"
    using assms(1) by (cases "query_public_key_node x pk (hs_ds s)")
      (auto simp: greet_sender_def seq_do_def in_table_def in_sync_def in_ds_def query_def)
  then show ?thesis
    by (cases f) (auto simp: serve_part_def new_service_def message_parts_def seq_do_def pure_def split: result.split)
qed

text \<open>C31: One message from anyone ends the request handler for good: if the public key of its proof is not a valid key, the
  lookup of its sender fails, and that failure is the handler's.  However the messages interleave, up to ten at a time, as long
  as the handler runs it can go on and still has the message before it, waiting or in service; once in service, its next
  step ends the handler, leaves the state as it is and drops the messages in service with it.  So no run passes it by: when the
  handler has ended it has failed, and nothing is served any more.  Runs are finite.\<close>

theorem invalid_key_stops_handler:
  assumes "(server_step x)\<^sup>*\<^sup>* (server_new ms s) v" "(h, pm) \<in> set ms"
    and "Option.bind (rq_proof (pm_request pm)) pr_public_key = Some pk" "\<not> is_ok (public_key_validate x pk)"
  shows "wfp ((server_step x)\<inverse>\<inverse>) \<and> (case sr_result v of
     None \<Rightarrow> (\<exists>v'. server_step x v v') \<and> ((h, pm) \<in> set (sr_queue v) \<or>
        new_service x h pm \<in> set (sr_service v) \<and>
        (\<exists>f. \<not> is_ok f \<and> server_step x v (v \<lparr> sr_service := [], sr_result := Some f \<rparr>)))
   | Some f \<Rightarrow> \<not> is_ok f \<and> (\<forall>v'. \<not> server_step x v v'))"
proof -
  note fails = invalid_key_greeting [OF assms(3,4)]
  have a: "awaits x h pm v" using awaits_run [OF assms(1,2)] fails by blast
  have "\<exists>f. \<not> is_ok f \<and> server_step x v (v \<lparr> sr_service := [], sr_result := Some f \<rparr>)"
    if r: "sr_result v = None" "new_service x h pm \<in> set (sr_service v)"
  proof -
    obtain i where i: "i < length (sr_service v)" "sr_service v ! i = new_service x h pm" using r(2) by (auto simp: in_set_conv_nth)
    obtain f where "\<not> is_ok f" "serve_part (sr_service v ! i) (sr_shared v) = (Fails f, sr_shared v)" using fails i(2) by auto
    with server_step.fail [OF r(1) i(1) this(2)] show ?thesis by auto
  qed
  with a server_terminates server_running server_ended show ?thesis by (auto simp: awaits_def split: option.splits)
qed

text \<open>A gossiped observation without its transaction is a panic of the handler, not an error response: the message
  needs no authorization.\<close>

theorem empty_gossip_panics:
  "\<exists>m. handle_incoming_message x h (pm \<lparr> pm_request := request_empty \<lparr> rq_gossip_observation_request := Some \<lparr> gor_observation = None \<rparr> \<rparr> \<rparr>) s =
     (Panic m, s)"
proof -
  let ?q = "request_empty \<lparr> rq_gossip_observation_request := Some \<lparr> gor_observation = None \<rparr> \<rparr>"
  have v: "\<exists>e. add m (request_verify_auth x ?q) = Err e" for m
    by (simp add: request_verify_auth_def request_verify_auth_inner_def request_empty_def safe_get_msg_def add_def Let_def)
  have "\<exists>m. public_response x h ?q s = (Panic m, s)"
    by (simp add: public_response_def seq_do_def pure_def request_empty_def answer_defs)
  with v [of "''Incoming request authorization failure in peer rx event handler''"]
  show "\<exists>m. handle_incoming_message x h (pm \<lparr> pm_request := ?q \<rparr>) s = (Panic m, s)"
    by (auto simp: handle_incoming_message_def greet_sender_def seq_do_def pure_def as_response_def request_response_def request_empty_def)
qed

section \<open>Answers about outputs\<close>

text \<open>C30: The answer to a question about an output is what the tables say: it is valid exactly when the output is in
  the table of unspent outputs; it is spent only by naming the accepted transaction, stored without a rejection, whose edge consumes the
  output, and the position of its input; otherwise there is no verdict.\<close>

theorem utxo_valid_answer_sound:
  assumes "utxo_valid_answer x u ds = Ok v"
  shows "\<exists>bs. opt_hash_safe_bytes x (u_transaction_hash u) = Ok bs \<and>
     (uvr_valid v = Some True \<longleftrightarrow> (bs, u_output_index u) \<in> utxo_key ` set (ds_utxo ds)) \<and>
     (uvr_valid v = Some False \<longleftrightarrow> (\<exists>tx i. uvr_child_transaction v = Some tx \<and> uvr_child_transaction_input v = Some i \<and>
        (\<exists>er \<in> set (ds_transaction_edge ds). edge_key er = (bs, u_output_index u) \<and> er_child_input_index er = i \<and>
           query_maybe_transaction x (hash_new (er_child_transaction_hash er)) ds = Ok (Some (tx, None))))) \<and>
     (uvr_valid v \<noteq> Some False \<longrightarrow> uvr_child_transaction v = None \<and> uvr_child_transaction_input v = None)"
proof -
  from assms obtain th res bs where th: "u_transaction_hash u = Some th" "query_utxo_id_valid x th (u_output_index u) ds = Ok res"
    "hash_safe_bytes x th = Ok bs" "res \<longleftrightarrow> (bs, u_output_index u) \<in> utxo_key ` set (ds_utxo ds)"
    by (auto simp: utxo_valid_answer_def Let_def query_utxo_id_valid_def result_simps filter_empty_conv image_iff) metis+
  have bs: "opt_hash_safe_bytes x (u_transaction_hash u) = Ok bs"
    using th by (simp add: opt_hash_safe_bytes_def hash_safe_bytes_def)
  show ?thesis
  proof (cases res)
    case True
    with assms th have "v = \<lparr> uvr_valid = Some True, uvr_child_transaction = None, uvr_child_transaction_input = None \<rparr>"
      by (simp add: utxo_valid_answer_def Let_def safe_get_def)
    with bs th(4) True show ?thesis by simp
  next
    case False
    with assms th obtain child where c: "utxo_used x u ds = Ok child" by (auto simp: utxo_valid_answer_def Let_def result_simps)
    show ?thesis
    proof (cases child)
      case None
      with assms th False c have "v = \<lparr> uvr_valid = None, uvr_child_transaction = None, uvr_child_transaction_input = None \<rparr>"
        by (simp add: utxo_valid_answer_def Let_def safe_get_def)
      with bs th(4) False show ?thesis by simp
    next
      case (Some p)
      then obtain er where er: "er \<in> set (ds_transaction_edge ds)" "edge_key er = (bs, u_output_index u)"
        "p = (hash_new (er_child_transaction_hash er), er_child_input_index er)"
        using c bs by (auto simp: utxo_used_def result_simps find_Some_iff) (metis nth_mem)
      with assms th False c Some obtain t where t: "query_maybe_transaction x (hash_new (er_child_transaction_hash er)) ds = Ok t"
        and v: "v = (case t of
          Some (tx, None) \<Rightarrow> \<lparr> uvr_valid = Some False, uvr_child_transaction = Some tx,
            uvr_child_transaction_input = Some (er_child_input_index er) \<rparr>
        | _ \<Rightarrow> \<lparr> uvr_valid = None, uvr_child_transaction = None, uvr_child_transaction_input = None \<rparr>)"
        by (auto simp: utxo_valid_answer_def Let_def safe_get_def and_then_eq_Ok)
      show ?thesis using v t er bs th(4) False by (auto split: option.splits)
    qed
  qed
qed

section \<open>Sample messages\<close>

definition sample_handler_env :: handler_env where
  "sample_handler_env = \<lparr> he_mp = sample_mp_env, he_rnd = 7, he_millis = 5, he_channel = 0, he_words = (\<lambda>_. Ok sample_kp),
     he_order = (\<lambda>as. as), he_mempool_iter = (\<lambda>_. []), he_channels_iter = (\<lambda>_. []), he_answer = (\<lambda>_. Inr empty_success),
     he_captcha = (\<lambda>_ _. Ok True), he_btc_address = (\<lambda>_. False), he_eth_address = (\<lambda>_. False), he_deposit_config = (\<lambda>_. Inr []),
     he_discovery_sent = Inr (), he_observation_sent = Inr (), he_response_sent = Inr () \<rparr>"

definition sample_handler_state :: "data_store \<Rightarrow> handler_state" where
  "sample_handler_state ds = \<lparr> hs_sync = \<lparr> sy_relay = \<lparr> rl_ds = ds, rl_transaction_channels = Map.empty, rl_utxo_channels = Map.empty,
     rl_mempool_entries = Map.empty \<rparr>, sy_mempool = [] \<rparr>, hs_limits = [], hs_observations = [], hs_discovery = [], hs_responses = [] \<rparr>"

definition message_from :: "bytes \<Rightarrow> PeerMessage" where
  "message_from k = \<lparr> pm_request = request_empty \<lparr> rq_initiate_signing := Some room_signing,
       rq_node_metadata := Some (sample_nmd \<lparr> nm_public_key := Some (public_key_from_bytes k) \<rparr>),
       rq_proof := Some \<lparr> pr_signature = signature_data [], pr_public_key = Some (public_key_from_bytes k) \<rparr> \<rparr>,
     pm_response = Some 3, pm_dynamic_node_metadata = None \<rparr>"

definition refusing_ext :: externals where
  "refusing_ext = sample_ext \<lparr> lib_pk_from_slice := \<lambda>_. Inl ''malformed public key'' \<rparr>"

theorem invalid_key_stops_handler_witness:
  "\<exists>v f. (server_step refusing_ext)\<^sup>*\<^sup>* (server_new [(sample_handler_env, message_from [4]), (sample_handler_env, message_from [5])]
       (sample_handler_state empty_store)) v \<and>
     sr_result v = Some f \<and> \<not> is_ok f \<and> sr_queue v = [(sample_handler_env, message_from [5])] \<and> sr_shared v = sample_handler_state empty_store"
proof -
  let ?m = "(sample_handler_env, message_from [4])" and ?n = "(sample_handler_env, message_from [5])"
  let ?v = "server_new [?m, ?n] (sample_handler_state empty_store)"
  let ?w = "?v \<lparr> sr_queue := [?n], sr_service := [new_service refusing_ext sample_handler_env (message_from [4])] \<rparr>"
  have k: "\<not> is_ok (public_key_validate refusing_ext (public_key_from_bytes [4]))"
    by (simp add: public_key_validate_def to_lib_public_key_def public_key_from_bytes_def safe_bytes_def bytes_data_def)
      (simp add: refusing_ext_def lib_result_def)
  have w: "(server_step refusing_ext)\<^sup>*\<^sup>* ?v ?w"
    using server_step.take_message [of ?v sample_handler_env "message_from [4]" "[?n]" refusing_ext]
    by (simp add: server_new_def CONCURRENT_MESSAGES_def r_into_rtranclp)
  have "rq_proof (pm_request (message_from [4])) \<noteq> rq_proof (pm_request (message_from [5]))"
    by (simp add: message_from_def public_key_from_bytes_def bytes_data_def bytes_data_from_def)
  then have "message_from [4] \<noteq> message_from [5]" by auto
  with invalid_key_stops_handler [OF w, of sample_handler_env "message_from [4]", OF _ _ k]
  obtain f where "\<not> is_ok f" "server_step refusing_ext ?w (?w \<lparr> sr_service := [], sr_result := Some f \<rparr>)"
    by (auto simp: message_from_def request_empty_def server_new_def)
  with w show ?thesis
    by (intro exI [of _ "?w \<lparr> sr_service := [], sr_result := Some f \<rparr>"] exI [of _ f])
      (auto simp: server_new_def intro: rtranclp.rtrancl_into_rtrancl)
qed

definition spent_store :: data_store where
  "spent_store = empty_store \<lparr> ds_transactions := [\<lparr> tr_hash = [8], tr_raw = [], tr_time = 5, tr_rejection_reason = None, tr_accepted = True,
       tr_is_test = False \<rparr>],
     ds_transaction_edge := [\<lparr> er_transaction_hash = [4], er_output_index = 1, er_address = [], er_child_transaction_hash = [8],
       er_child_input_index = 2, er_time = 5 \<rparr>] \<rparr>"

theorem utxo_valid_answer_sound_witness:
  "\<exists>v er tx. utxo_valid_answer (echo_ext (new_blank 5 7)) \<lparr> u_transaction_hash = Some (hash_new [4]), u_output_index = 1 \<rparr> spent_store = Ok v \<and>
     uvr_valid v = Some False \<and> er \<in> set (ds_transaction_edge spent_store) \<and> uvr_child_transaction v = Some tx \<and>
     query_maybe_transaction (echo_ext (new_blank 5 7)) (hash_new (er_child_transaction_hash er)) spent_store = Ok (Some (tx, None))"
proof -
  let ?u = "\<lparr> u_transaction_hash = Some (hash_new [4]), u_output_index = 1 \<rparr>" and ?x = "echo_ext (new_blank 5 7)"
  have b: "hash_safe_bytes ?x (hash_new bs) = Ok bs" for bs
    by (simp add: hash_safe_bytes_def hash_new_def safe_bytes_def bytes_data_def bytes_data_from_def)
  have f: "ds_fault spent_store = None" "ds_utxo spent_store = []" by (simp_all add: spent_store_def empty_store_def)
  have "query_maybe_transaction ?x (hash_new [8]) spent_store = Ok (Some (new_blank 5 7, None))"
    by (simp add: query_maybe_transaction_def b f pool_def map_err_sqlx_def read_rejection_def spent_store_def get_def
        proto_deserialize_def lib_result_def echo_ext_def)
  then obtain v where v: "utxo_valid_answer ?x ?u spent_store = Ok v" "uvr_valid v = Some False"
    by (simp add: utxo_valid_answer_def Let_def safe_get_def query_utxo_id_valid_def utxo_used_def opt_hash_safe_bytes_def b f pool_def
        map_err_sqlx_def) (simp add: spent_store_def edge_key_def)
  from utxo_valid_answer_sound [OF v(1)] v show ?thesis by blast
qed

lemma after_response:
  assumes "greet_sender x h pm s = (Ok (), s0)" "request_verify_auth x (pm_request pm) = Ok pk"
    and "request_response x h (pm_request pm) (Ok pk) s0 = (Ok r, s1)"
  shows "handled False h (pm_request pm) s1 (snd (handle_incoming_message x h pm s))"
proof -
  have "preserves (handled False h (pm_request pm) s1) (seq_do (in_table (own_node_metadata x (he_sync h))) (\<lambda>nmd.
      seq_do (pure (response_with_auth x (cfg_key_pair (he_config h)) (response_with_metadata nmd r))) (\<lambda>r.
      seq_do (pure (expect ''immediate verify'' (response_verify_auth x (Some (cfg_public_key x (he_config h))) r))) (respond h pm))))"
    by (intro preserves_rules in_table_handled own_metadata_served respond_handled)
  from preservesD [OF this handled_refl] show ?thesis
    using assms by (simp add: handle_incoming_message_def seq_do_def [of "greet_sender _ _ _"] seq_do_def [of "as_response _"]
        as_response_def add_def)
qed

lemma mp_ext_sel:
  "lib_msg_from_slice mp_ext = lib_msg_from_slice sample_ext" "lib_sig_from_compact mp_ext = lib_sig_from_compact sample_ext"
  "lib_pk_from_slice mp_ext = lib_pk_from_slice sample_ext" "lib_verify mp_ext = lib_verify sample_ext"
  "hex_encode mp_ext = hex_encode sample_ext"
  by (simp_all add: mp_ext_def echo_ext_def)

lemma message_verified: "request_verify_auth mp_ext (pm_request (message_from k)) = Ok (public_key_from_bytes k)"
proof -
  have "proof_verify mp_ext (digest mp_ext s) \<lparr> pr_signature = signature_data [], pr_public_key = Some (public_key_from_bytes k) \<rparr> = Ok ()" for s
    by (simp add: proof_verify_def signature_data_def signature_bytes_def proof_public_key_bytes_def safe_get_def safe_bytes_def
        public_key_from_bytes_def bytes_data_def bytes_data_from_def util_verify_def digest_def hash_safe_bytes_def hash_new_def slice_def
        mp_ext_sel) (simp add: sample_ext_def result_error_msg_def lib_result_def)
  then show ?thesis
    by (simp add: request_verify_auth_def request_verify_auth_inner_def message_from_def request_calculate_hash_def Let_def safe_get_msg_def add_def)
qed

lemma message_greeted:
  "\<exists>s0. greet_sender mp_ext sample_handler_env (message_from [7, 7, 7]) (sample_handler_state room_store) = (Ok (), s0) \<and> hs_ds s0 = room_store"
proof -
  let ?k = "public_key_from_bytes [7, 7, 7]"
  have "query_public_key_node mp_ext ?k room_store = Ok None"
    by (simp add: query_public_key_node_def pool_def map_err_sqlx_def public_key_validate_def to_lib_public_key_def public_key_bytes_def
        public_key_from_bytes_def safe_bytes_def bytes_data_def bytes_data_from_def mp_ext_sel)
      (simp add: sample_ext_def lib_result_def room_store_def node_store_def tbl_lookup_def)
  moreover have "\<exists>n. public_key_short_id mp_ext ?k = Ok n"
    by (simp add: public_key_short_id_def public_key_hex_def public_key_from_bytes_def safe_bytes_def bytes_data_def bytes_data_from_def mp_ext_sel)
      (simp add: sample_ext_def sample_hex_encode_def short_string_def is_char_boundary_def)
  ultimately show ?thesis
    by (auto simp: greet_sender_def message_from_def request_empty_def seq_do_def pure_def query_def in_table_def in_sync_def in_ds_def
        sample_handler_state_def sample_handler_env_def)
qed

lemma message_signed:
  assumes "hs_ds s0 = room_store"
  shows "\<exists>r s1. request_response mp_ext sample_handler_env (pm_request (message_from k)) (Ok (public_key_from_bytes [7, 7, 7])) s0 = (Ok r, s1) \<and>
     ds_multiparty_signatures (hs_ds s1) \<noteq> []"
proof -
  obtain a ds' where f: "initiate_mp_keysign_follower mp_ext sample_mp_env room_signing (public_key_from_bytes [7, 7, 7]) room_store = (Ok a, ds')"
    "ds_multiparty_signatures ds' \<noteq> []" using room_signed by blast
  have "he_mp sample_handler_env = sample_mp_env" by (simp add: sample_handler_env_def)
  with f assms show ?thesis
    by (simp add: request_response_def public_response_def seq_do_def pure_def message_from_def request_empty_def answer_defs
        answer_multiparty_def auth_required_def answer_keygen_def answer_signing_def in_table_def in_sync_def in_ds_def)
qed

theorem signature_for_verified_party_witness:
  "ds_multiparty_signatures (hs_ds (snd (handle_incoming_message mp_ext sample_handler_env (message_from [7, 7, 7])
       (sample_handler_state room_store)))) \<noteq> [] \<and>
     (\<exists>pk. request_verify_auth mp_ext (pm_request (message_from [7, 7, 7])) = Ok pk \<and> party_of_room mp_ext room_store ''room'' pk)"
proof -
  let ?pm = "message_from [7, 7, 7]" and ?h = sample_handler_env and ?s = "sample_handler_state room_store"
  obtain s0 where s0: "greet_sender mp_ext ?h ?pm ?s = (Ok (), s0)" "hs_ds s0 = room_store" using message_greeted by blast
  obtain r s1 where r: "request_response mp_ext ?h (pm_request ?pm) (Ok (public_key_from_bytes [7, 7, 7])) s0 = (Ok r, s1)"
    "ds_multiparty_signatures (hs_ds s1) \<noteq> []" using message_signed [OF s0(2)] by blast
  from after_response [OF s0(1) message_verified r(1)] r(2)
  have n: "ds_multiparty_signatures (hs_ds (snd (handle_incoming_message mp_ext ?h ?pm ?s))) \<noteq> []" by (simp add: handled_def served_def)
  moreover have "\<not> served False (hs_ds ?s) (hs_ds (snd (handle_incoming_message mp_ext ?h ?pm ?s)))"
    using n by (simp add: served_def sample_handler_state_def room_store_def node_store_def empty_store_def)
  moreover have "rq_initiate_keygen (pm_request ?pm) = None" "rq_initiate_signing (pm_request ?pm) = Some room_signing" "hs_ds ?s = room_store"
    by (simp_all add: message_from_def request_empty_def sample_handler_state_def)
  ultimately show ?thesis using signature_for_verified_party [of ?pm ?s mp_ext ?h] room_sel by auto
qed

end
