(* ===== verification/Spec2Isabelle.thy ===== *)
theory Spec2Isabelle
  imports Double_Spend Recent_Download Peer_Requests
begin

text \<open>
  A verification development for the Redgold node, a peer-to-peer ledger of signed
  transactions over unspent outputs (UTXOs).

  \<^bold>\<open>The program.\<close>  A transaction names outputs of earlier transactions as its inputs, carries
  proofs by the keys that own them, and creates outputs.  A node receives transactions,
  validates them without context (\<open>keys\<close>), resolves their inputs in its own store or by
  asking peers (\<open>core/resolver.rs\<close>), locks the outputs they spend, gossips them, waits for
  conflicting transactions, settles conflicts, and commits (\<open>core/process_transaction.rs\<close>).
  What it has seen it records as signed observations, whose Merkle proofs it exchanges with
  its peers (\<open>core/observation.rs\<close>).  Everything is kept in SQL tables (\<open>data\<close>).  Outputs may
  deploy contracts and send requests to them (\<open>core/contract\<close>, \<open>executor\<close>).

  \<^bold>\<open>How it is modelled.\<close>  Each theory holds the definitions of a part, in the order of the
  code and with its names, and the lemmas about them.  Paths are below \<open>src/\<close>.

  \<^item> \<open>Prelude\<close>: results that are a value, an error or a panic, bytes and machine words,
    iteration with early return, UTF-8 and decimal rendering.
  \<^item> \<open>Structs\<close>: the messages of \<open>schema/src/proto\<close> as records and datatypes.
  \<^item> \<open>Externals\<close>: third-party code as one record of functions (curve, digests, codecs, wasm),
    with the laws that some theorems assume of them, stated as predicates.
  \<^item> \<open>Schema_Lib\<close>, \<open>Hash_Address\<close>, \<open>Merkle\<close>, \<open>Tx\<close>: the crate \<open>schema\<close>: accessors and errors,
    hashes and addresses, Merkle trees, transactions and outputs.
  \<^item> \<open>Keys\<close>, \<open>Messages\<close>: the crate \<open>keys\<close>: proofs, signing, the stateless validation of a
    transaction, authentication of requests and responses.
  \<^item> \<open>Tx_Builder\<close>: \<open>src/core/transact/tx_builder_supports.rs\<close>.
  \<^item> \<open>Sql\<close>: tables as lists of rows with a key, and the contract of a table as a locale that
    the list operations satisfy; actions on a store, their sequencing and invariants.
  \<^item> \<open>Store\<close>, \<open>Aux_Stores\<close>, \<open>Observation\<close>, \<open>Peers\<close>: the crate \<open>data\<close> and the observation
    buffer: one definition for each query and update of the tables.
  \<^item> \<open>Relay\<close>, \<open>Resolver\<close>: lookups, broadcasts, gossip and authorizations of the node; the
    resolution of inputs and outputs.
  \<^item> \<open>Contracts\<close>: contention registration, the contract state manager, wasm invocation.
  \<^item> \<open>Process_Transaction\<close>, \<open>Ledger\<close>, \<open>Double_Spend\<close>: the handler of a transaction as a task in
    stages, the node as tasks that interleave between stages, and what follows for the
    ledger and the locks.

  \<^item> \<open>Binary_Heap\<close>, \<open>Mempool\<close>: the heap of the standard library, shown to be a priority queue
    (a locale), and the waiting transactions kept in it (\<open>core/mempool.rs\<close>).
  \<^item> \<open>Download\<close>, \<open>Discovery\<close>, \<open>Recent_Download\<close>: bootstrapping the store from a peer
    (\<open>data/download.rs\<close>), the intervals that discover peers and transactions
    (\<open>core/discovery.rs\<close>, \<open>core/data_discovery.rs\<close>) and the one that stores the parents which the
    resolution of inputs met at other nodes (\<open>core/recent_download.rs\<close>).
  \<^item> \<open>Node_Metadata\<close>: what a node says of itself, from its configuration (\<open>node_config.rs\<close>) and the
    transactions it keeps about itself (\<open>core/relay.rs\<close>).
  \<^item> \<open>Multiparty\<close>: rooms of threshold keys, both sides of key generation and signing
    (\<open>data/src/mp_store.rs\<close>, \<open>multiparty/initiate_mp.rs\<close>).
  \<^item> \<open>Peer_Requests\<close>: the handler of the requests of peers (\<open>core/peer_rx_event_handler.rs\<close>) with
    the faucet, the search by hash and the description of the node (\<open>api\<close>); each part of a
    request is a definition, composed in the order of the source.  The handler serves up to ten
    messages at once: a step relation interleaves them part by part, and serving one message alone
    is shown to be the sequential definition.

  State is passed explicitly: a store or a node is a record, an operation returns its result
  and the new state.  Clocks, random values, answers of the network and of other channels
  are arguments, so that a theorem holds for all of them.  64-bit and 32-bit integers are
  words and wrap; trust scores and faucet amounts, floats in the code, are exact rationals.  A failed database
  is a field of the store that makes every statement an error.

  \<^bold>\<open>What is shown.\<close>

  \<^item> Ledger: a commit is an update of the map of unspent outputs; a spent output is refused
    later, when its parent is held in the store; a resolved transaction owns its inputs and balances.  Two overlapping spends can
    nevertheless both be committed, locks are never released and then shut out later
    transactions, floating inputs are not checked: these are shown on the node itself, over
    all interleavings or by a run of it.
  \<^item> Validation and building: what the stateless validation accepts, signing succeeds and
    verifies, the builder balances and, without prior inputs or overflow, fails exactly when funds are short.
  \<^item> Hashes, addresses, Merkle trees: round trips, soundness and completeness of proofs,
    termination of the loops.
  \<^item> Stores: the tables refine maps, what is stored is found, keys stay unique.
  \<^item> Observations, peers, messages, contracts: the chain of observations and its proofs, bounds
    of the buffer, authentication, rate limits, contract batches.

  \<^item> Mempool and download: the mempool hands over the smallest amounts first and keeps its map in
    agreement with its heap; a download returns, believes the one peer it asks, and counts no
    votes for the genesis transaction.
  \<^item> Discovery: what an interval may add to the tables of peers, that a silent network empties
    them, what is offered to the mempool; the recent download stops with the first output
    that nobody holds, and verdicts of peers that name no child count as valid.
  \<^item> Requests: serving a message changes no table of the ledger, and the multiparty tables only
    for a verified sender; answers about outputs agree with the tables; a message with an invalid key
    ends the handler in every interleaving.  Multiparty keys: a signing needs a party of the stored room, a key generation
    needs the threshold of answers and leaves no authorization, but replaces a room of the same name.
    The metadata a node writes about itself is what it reads.

  \<^bold>\<open>Bounds and termination.\<close>  A loop whose end is evident is a total function.  Those that may
  not end, the two loops of Merkle trees and the loop of the download, are partial functions
  whose undefined result is not returning, and theorems show when they return.  No fuel is
  used.  The waiting loop of a transaction is one step per turn, so that it may turn any
  number of times; an interval runs for a number of ticks that is an argument, and the request
  handler over a list of messages, where every run is shown to end.

  \<^bold>\<open>Not modelled.\<close>  The user interface, transport servers, the threshold protocol itself
  and the swaps built on it, block formation, deployment, metrics and logging other than log lines that can
  panic, and the initialisation of the database.
\<close>

end
